theory Spec2Isabelle
  imports Main
begin

section \<open>Strings\<close>

text \<open>
  JavaScript strings are modelled as \<^typ>\<open>string\<close>. Paths, patterns and entry names are
  taken to be ASCII, so that one \<^typ>\<open>char\<close> is one UTF-16 code unit.
\<close>

text \<open>\<^verbatim>\<open>s.startsWith(p)\<close>\<close>

fun startsWith :: "string \<Rightarrow> string \<Rightarrow> bool" where
  "startsWith s [] = True"
| "startsWith [] (c # cs) = False"
| "startsWith (x # xs) (c # cs) = (x = c \<and> startsWith xs cs)"

text \<open>\<^verbatim>\<open>s.split(c)\<close> for a one-character separator: never the empty list.\<close>

fun split_on :: "char \<Rightarrow> string \<Rightarrow> string list" where
  "split_on c [] = [[]]"
| "split_on c (x # xs) =
     (if x = c then [] # split_on c xs
      else case split_on c xs of [] \<Rightarrow> [[x]] | s # ss \<Rightarrow> (x # s) # ss)"

text \<open>\<^verbatim>\<open>parts.join(sep)\<close>\<close>

fun join_with :: "string \<Rightarrow> string list \<Rightarrow> string" where
  "join_with sep [] = []"
| "join_with sep [s] = s"
| "join_with sep (s # t # ss) = s @ sep @ join_with sep (t # ss)"

section \<open>The \<^verbatim>\<open>path\<close> module (POSIX flavour)\<close>

text \<open>
  The server calls Node's \<^verbatim>\<open>path\<close> module. The functions below follow its POSIX
  implementation. \<^verbatim>\<open>normalizeString\<close> walks the segments between slashes with a stack:
  empty segments and \<^verbatim>\<open>.\<close> are dropped, \<^verbatim>\<open>..\<close> removes the last kept segment (or is
  kept itself above the start of a relative path), everything else is kept.
\<close>

definition norm_step :: "bool \<Rightarrow> string list \<Rightarrow> string \<Rightarrow> string list" where
  "norm_step allowAboveRoot res seg =
     (if seg = [] \<or> seg = ''.'' then res
      else if seg = ''..'' then
        (if res \<noteq> [] \<and> last res \<noteq> ''..'' then butlast res
         else if allowAboveRoot then res @ [''..'']
         else res)
      else res @ [seg])"

definition norm_segments :: "bool \<Rightarrow> string \<Rightarrow> string list" where
  "norm_segments allowAboveRoot path =
     foldl (norm_step allowAboveRoot) [] (split_on CHR ''/'' path)"

definition normalizeString :: "string \<Rightarrow> bool \<Rightarrow> string" where
  "normalizeString path allowAboveRoot = join_with ''/'' (norm_segments allowAboveRoot path)"

definition path_isAbsolute :: "string \<Rightarrow> bool" where
  "path_isAbsolute path = (path \<noteq> [] \<and> hd path = CHR ''/'')"

definition path_normalize :: "string \<Rightarrow> string" where
  "path_normalize path =
     (if path = [] then ''.''
      else
        let isAbsolute = (hd path = CHR ''/'');
            trailingSeparator = (last path = CHR ''/'');
            p = normalizeString path (\<not> isAbsolute)
        in if p = [] then
             (if isAbsolute then ''/'' else if trailingSeparator then ''./'' else ''.'')
           else (if isAbsolute then ''/'' else []) @ p @ (if trailingSeparator then ''/'' else []))"

definition path_join :: "string list \<Rightarrow> string" where
  "path_join args =
     (let parts = filter (\<lambda>a. a \<noteq> []) args
      in if parts = [] then ''.'' else path_normalize (join_with ''/'' parts))"

text \<open>
  \<^verbatim>\<open>path.resolve\<close> prepends its arguments from right to left until an absolute one has been
  seen; the working directory is the last resort. The list handed to \<open>resolve_loop\<close> is in
  that right-to-left order.
\<close>

fun resolve_loop :: "string list \<Rightarrow> string \<Rightarrow> string \<times> bool" where
  "resolve_loop [] resolvedPath = (resolvedPath, False)"
| "resolve_loop (p # ps) resolvedPath =
     (if p = [] then resolve_loop ps resolvedPath
      else if hd p = CHR ''/'' then (p @ ''/'' @ resolvedPath, True)
      else resolve_loop ps (p @ ''/'' @ resolvedPath))"

definition path_resolve :: "string \<Rightarrow> string list \<Rightarrow> string" where
  "path_resolve cwd args =
     (case resolve_loop (rev (cwd # args)) [] of
        (resolvedPath, resolvedAbsolute) \<Rightarrow>
          let n = normalizeString resolvedPath (\<not> resolvedAbsolute)
          in if resolvedAbsolute then ''/'' @ n else if n \<noteq> [] then n else ''.'')"

text \<open>
  \<^verbatim>\<open>path.dirname\<close>: scanning from the end down to index 1, skip trailing slashes, then skip
  the last segment; the slash reached there is \<open>end\<close>.
\<close>

definition path_dirname :: "string \<Rightarrow> string" where
  "path_dirname path =
     (if path = [] then ''.''
      else
        let hasRoot = (hd path = CHR ''/'');
            scanned = dropWhile (\<lambda>c. c \<noteq> CHR ''/'')
                        (dropWhile (\<lambda>c. c = CHR ''/'') (rev (tl path)))
        in if scanned = [] then (if hasRoot then ''/'' else ''.'')
           else if hasRoot \<and> length scanned = 1 then ''//''
           else take (length scanned) path)"

text \<open>
  \<^verbatim>\<open>path.relative(from, to)\<close>: both paths are resolved, their common leading segments are
  dropped, every remaining segment of \<open>from\<close> becomes \<^verbatim>\<open>..\<close>, and the rest of \<open>to\<close> follows.
\<close>

fun drop_common :: "string list \<Rightarrow> string list \<Rightarrow> string list \<times> string list" where
  "drop_common (x # xs) (y # ys) = (if x = y then drop_common xs ys else (x # xs, y # ys))"
| "drop_common xs ys = (xs, ys)"

definition path_relative :: "string \<Rightarrow> string \<Rightarrow> string \<Rightarrow> string" where
  "path_relative cwd from to =
     (if from = to then []
      else
        let from' = path_resolve cwd [from];
            to' = path_resolve cwd [to]
        in if from' = to' then []
           else case drop_common (norm_segments False from') (norm_segments False to') of
                  (fs, ts) \<Rightarrow> join_with ''/'' (replicate (length fs) ''..'' @ ts))"

section \<open>The hosting environment\<close>

text \<open>
  What the code reads from \<^verbatim>\<open>os\<close>, \<^verbatim>\<open>process\<close> and the file system when it authorises a
  path: the home directory, the working directory, the environment variables and
  \<^verbatim>\<open>fs.realpath\<close>, which is \<open>None\<close> where the call rejects (the path does not exist, a
  component is not a directory, and so on).

  \<open>os_homedir\<close> is what \<^verbatim>\<open>os.homedir()\<close> returns in the environment at hand. That call
  follows \<^verbatim>\<open>HOME\<close> (\<^verbatim>\<open>USERPROFILE\<close> on Windows), so a host describes one environment as a
  whole: nothing below changes \<^verbatim>\<open>HOME\<close> or \<^verbatim>\<open>USERPROFILE\<close> in \<open>process_env\<close> while keeping
  \<open>os_homedir\<close>.
\<close>

datatype platform = Win32 | Darwin | Linux

record host =
  os_platform :: platform
  os_homedir :: string
  process_cwd :: string
  os_username :: "string option"
  process_env :: "string \<Rightarrow> string option"
  fs_realpath :: "string \<Rightarrow> string option"

section \<open>Security utilities\<close>

definition normalizePath :: "string \<Rightarrow> string" where
  "normalizePath p = path_normalize p"

definition expandHome :: "host \<Rightarrow> string \<Rightarrow> string" where
  "expandHome h filepath =
     (if startsWith filepath ''~/'' \<or> filepath = ''~''
      then path_join [os_homedir h, drop 1 filepath]
      else filepath)"

text \<open>
  \<^verbatim>\<open>allowedDirectories\<close> is computed once at start-up. A variable that is unset or empty is
  falsy in JavaScript and selects the default pair.
\<close>

definition allowedDirectories :: "host \<Rightarrow> string list" where
  "allowedDirectories h =
     (case process_env h ''ALLOWED_DIRECTORIES'' of
        None \<Rightarrow> [normalizePath (path_resolve (process_cwd h) [os_homedir h]),
                 normalizePath (path_resolve (process_cwd h) [process_cwd h])]
      | Some v \<Rightarrow>
          if v = [] then
            [normalizePath (path_resolve (process_cwd h) [os_homedir h]),
             normalizePath (path_resolve (process_cwd h) [process_cwd h])]
          else map (\<lambda>dir. normalizePath (path_resolve (process_cwd h) [expandHome h dir]))
                 (split_on CHR '','' v))"

text \<open>
  The errors \<^verbatim>\<open>validatePath\<close> throws, one constructor per \<^verbatim>\<open>throw\<close> of the source, and
  the rejections of \<^verbatim>\<open>fs.realpath\<close> and \<^verbatim>\<open>fs.readdir\<close>. The first three carry a message
  that starts with \<^verbatim>\<open>Access denied\<close>; the fourth says \<^verbatim>\<open>Parent directory does not exist\<close>.
\<close>

datatype error =
    AccessDeniedOutside string "string list"
  | AccessDeniedSymlinkTarget
  | AccessDeniedParent
  | ParentDirectoryDoesNotExist string
  | RealpathFailed string
  | ReaddirFailed string

fun is_AccessDenied :: "error \<Rightarrow> bool" where
  "is_AccessDenied (AccessDeniedOutside p ds) = True"
| "is_AccessDenied AccessDeniedSymlinkTarget = True"
| "is_AccessDenied AccessDeniedParent = True"
| "is_AccessDenied e = False"

fun is_NotFound :: "error \<Rightarrow> bool" where
  "is_NotFound (ParentDirectoryDoesNotExist d) = True"
| "is_NotFound e = False"

text \<open>\<^verbatim>\<open>allowedDirectories.some(dir => p.startsWith(dir))\<close>\<close>

definition isAllowedIn :: "string list \<Rightarrow> string \<Rightarrow> bool" where
  "isAllowedIn allowed p = list_ex (\<lambda>dir. startsWith p dir) allowed"

definition absolute_of :: "host \<Rightarrow> string \<Rightarrow> string" where
  "absolute_of h requestedPath =
     (let expandedPath = expandHome h requestedPath
      in if path_isAbsolute expandedPath
         then path_resolve (process_cwd h) [expandedPath]
         else path_resolve (process_cwd h) [process_cwd h, expandedPath])"

text \<open>The body of the outer \<^verbatim>\<open>try\<close>: resolve the real path and check it.\<close>

definition try_realpath :: "host \<Rightarrow> string list \<Rightarrow> string \<Rightarrow> error + string" where
  "try_realpath h allowed absolute =
     (case fs_realpath h absolute of
        None \<Rightarrow> Inl (RealpathFailed absolute)
      | Some realPath \<Rightarrow>
          if \<not> isAllowedIn allowed (normalizePath realPath)
          then Inl AccessDeniedSymlinkTarget
          else Inr realPath)"

text \<open>The body of the inner \<^verbatim>\<open>try\<close>: resolve the parent directory and check it.\<close>

definition try_parent :: "host \<Rightarrow> string list \<Rightarrow> string \<Rightarrow> string \<Rightarrow> error + string" where
  "try_parent h allowed parentDir absolute =
     (case fs_realpath h parentDir of
        None \<Rightarrow> Inl (RealpathFailed parentDir)
      | Some realParentPath \<Rightarrow>
          if \<not> isAllowedIn allowed (normalizePath realParentPath)
          then Inl AccessDeniedParent
          else Inr absolute)"

text \<open>
  \<^verbatim>\<open>validatePath\<close>. Each \<^verbatim>\<open>catch\<close> of the source takes every error of its \<^verbatim>\<open>try\<close> body,
  the ones thrown by the body itself included.
\<close>

definition validatePath :: "host \<Rightarrow> string list \<Rightarrow> string \<Rightarrow> error + string" where
  "validatePath h allowed requestedPath =
     (let absolute = absolute_of h requestedPath;
          normalizedRequested = normalizePath absolute
      in if \<not> isAllowedIn allowed normalizedRequested
         then Inl (AccessDeniedOutside absolute allowed)
         else case try_realpath h allowed absolute of
                Inr realPath \<Rightarrow> Inr realPath
              | Inl err \<Rightarrow>
                  (let parentDir = path_dirname absolute
                   in (case try_parent h allowed parentDir absolute of
                         Inr a \<Rightarrow> Inr a
                       | Inl err' \<Rightarrow> Inl (ParentDirectoryDoesNotExist parentDir))))"

text \<open>
  Vocabulary of the specification: the canonical form of a request (absolute, normalised,
  symlinks not followed) and what it means to lie strictly below a root.
\<close>

definition canonical :: "host \<Rightarrow> string \<Rightarrow> string" where
  "canonical h p = normalizePath (absolute_of h p)"

definition with_sep :: "string \<Rightarrow> string" where
  "with_sep r = (if r \<noteq> [] \<and> last r = CHR ''/'' then r else r @ ''/'')"

definition strict_descendant :: "string \<Rightarrow> string \<Rightarrow> bool" where
  "strict_descendant root p = (startsWith p (with_sep root) \<and> p \<noteq> with_sep root)"

text \<open>
  A path in the form \<^verbatim>\<open>path.resolve\<close> returns: a slash followed by its own normalised
  segments. A proper entry name is what \<^verbatim>\<open>readdir\<close> can return.
\<close>

definition is_resolved :: "string \<Rightarrow> bool" where
  "is_resolved p = (p = ''/'' @ normalizeString p False)"

definition proper_name :: "string \<Rightarrow> bool" where
  "proper_name n = (n \<noteq> [] \<and> n \<noteq> ''.'' \<and> n \<noteq> ''..'' \<and> CHR ''/'' \<notin> set n)"

section \<open>Glob matching\<close>

text \<open>
  \<^verbatim>\<open>minimatch(path, pattern, options)\<close> comes from the \<^verbatim>\<open>minimatch\<close> package. The model covers
  patterns made of literal characters, \<^verbatim>\<open>*\<close>, \<^verbatim>\<open>?\<close> and the segment \<^verbatim>\<open>**\<close>, with the options
  \<^verbatim>\<open>dot\<close> and \<^verbatim>\<open>nocase\<close> that the server passes. Path and pattern are split at slashes and
  compared segment by segment as the package's \<^verbatim>\<open>matchOne\<close> does: a \<^verbatim>\<open>**\<close> that ends the
  pattern takes all the remaining segments, but only when at least one remains; a \<^verbatim>\<open>**\<close>
  elsewhere takes zero or more segments; a path that runs out before the pattern does not
  match. Braces, brackets, extended globs, empty segments and the segments \<^verbatim>\<open>.\<close> and \<^verbatim>\<open>..\<close>,
  which the package expands or rewrites before it matches, are outside the model; the
  patterns used below have none.
\<close>

record mm_options =
  opt_dot :: bool
  opt_nocase :: bool

definition lower_char :: "char \<Rightarrow> char" where
  "lower_char c =
     (let n = (of_char c :: nat) in if 65 \<le> n \<and> n \<le> 90 then char_of (n + 32) else c)"

definition same_char :: "bool \<Rightarrow> char \<Rightarrow> char \<Rightarrow> bool" where
  "same_char nocase a b = (if nocase then lower_char a = lower_char b else a = b)"

fun glob_chars :: "bool \<Rightarrow> string \<Rightarrow> string \<Rightarrow> bool" where
  "glob_chars nocase [] [] = True"
| "glob_chars nocase [] (c # cs) = False"
| "glob_chars nocase (p # ps) [] = (p = CHR ''*'' \<and> glob_chars nocase ps [])"
| "glob_chars nocase (p # ps) (c # cs) =
     (if p = CHR ''*'' then glob_chars nocase ps (c # cs) \<or> glob_chars nocase (p # ps) cs
      else (p = CHR ''?'' \<or> same_char nocase p c) \<and> glob_chars nocase ps cs)"

definition has_magic :: "string \<Rightarrow> bool" where
  "has_magic p = (CHR ''*'' \<in> set p \<or> CHR ''?'' \<in> set p)"

text \<open>
  One segment. A pattern with a wildcard never matches the empty name, \<^verbatim>\<open>.\<close> or \<^verbatim>\<open>..\<close>, and
  matches a name with a leading dot only under \<^verbatim>\<open>dot\<close> or when it starts with a dot itself.
\<close>

definition match_segment :: "mm_options \<Rightarrow> string \<Rightarrow> string \<Rightarrow> bool" where
  "match_segment opts p f =
     (if \<not> has_magic p then
        (if opt_nocase opts then map lower_char f = map lower_char p else f = p)
      else f \<noteq> [] \<and> f \<noteq> ''.'' \<and> f \<noteq> ''..'' \<and>
           (opt_dot opts \<or> hd p = CHR ''.'' \<or> hd f \<noteq> CHR ''.'') \<and>
           glob_chars (opt_nocase opts) p f)"

definition dot_blocked :: "mm_options \<Rightarrow> string \<Rightarrow> bool" where
  "dot_blocked opts f =
     (f = ''.'' \<or> f = ''..'' \<or> (\<not> opt_dot opts \<and> f \<noteq> [] \<and> hd f = CHR ''.''))"

fun matchOne :: "mm_options \<Rightarrow> string list \<Rightarrow> string list \<Rightarrow> bool" where
  "matchOne opts [] [] = True"
| "matchOne opts [] (p # ps) = False"
| "matchOne opts (f # fs) [] = (fs = [] \<and> f = [])"
| "matchOne opts (f # fs) (p # ps) =
     (if p = ''**'' then
        (if ps = [] then list_all (\<lambda>g. \<not> dot_blocked opts g) (f # fs)
         else matchOne opts (f # fs) ps \<or> (\<not> dot_blocked opts f \<and> matchOne opts fs (p # ps)))
      else match_segment opts p f \<and> matchOne opts fs ps)"

definition minimatch :: "string \<Rightarrow> string \<Rightarrow> mm_options \<Rightarrow> bool" where
  "minimatch p pattern opts =
     (if pattern = [] then p = []
      else if hd pattern = CHR ''#'' then False
      else matchOne opts (split_on CHR ''/'' p) (split_on CHR ''/'' pattern))"

section \<open>File search\<close>

text \<open>
  What \<^verbatim>\<open>readdir(..., { withFileTypes: true })\<close> shows of a tree. \<open>Dir\<close> holds the entries in
  the order the call returns them; \<open>LockedDir\<close> is a directory whose listing cannot be read;
  \<open>File\<close> is any entry that is not a directory (a symbolic link included, which
  \<^verbatim>\<open>isDirectory()\<close> reports as false).
\<close>

datatype fsnode = File | Dir "(string \<times> fsnode) list" | LockedDir

fun isDirectory :: "fsnode \<Rightarrow> bool" where
  "isDirectory File = False"
| "isDirectory (Dir es) = True"
| "isDirectory LockedDir = True"

fun readdir :: "fsnode \<Rightarrow> (string \<times> fsnode) list option" where
  "readdir (Dir es) = Some es"
| "readdir other = None"

type_synonym matcher = "string \<Rightarrow> string \<Rightarrow> mm_options \<Rightarrow> bool"

text \<open>The arguments of \<^verbatim>\<open>searchFiles\<close>, which the inner \<^verbatim>\<open>search\<close> closes over.\<close>

record search_request =
  sr_rootPath :: string
  sr_pattern :: string
  sr_excludePatterns :: "string list"

definition globPattern :: "string \<Rightarrow> string" where
  "globPattern pattern =
     (if CHR ''*'' \<in> set pattern then pattern else ''**/'' @ pattern @ ''/**'')"

definition shouldExclude :: "matcher \<Rightarrow> host \<Rightarrow> search_request \<Rightarrow> string \<Rightarrow> bool" where
  "shouldExclude mm h rq fullPath =
     (let relativePath = path_relative (process_cwd h) (sr_rootPath rq) fullPath
      in list_ex (\<lambda>pattern. mm relativePath (globPattern pattern)
                               \<lparr>opt_dot = True, opt_nocase = False\<rparr>)
           (sr_excludePatterns rq))"

text \<open>
  \<^verbatim>\<open>search\<close> and its \<^verbatim>\<open>for\<close> loop. The array \<^verbatim>\<open>results\<close> is shared by all calls, so it is
  passed in and handed back; \<open>search\<close> also tells whether its \<^verbatim>\<open>readdir\<close> rejected. The
  \<^verbatim>\<open>catch\<close> around the loop body keeps whatever had been pushed before the error. The matcher
  is a parameter, instantiated with \<open>minimatch\<close> where a claim depends on it.
\<close>

function search ::
    "matcher \<Rightarrow> host \<Rightarrow> string list \<Rightarrow> search_request \<Rightarrow> string \<Rightarrow> fsnode \<Rightarrow> string list
      \<Rightarrow> error option \<times> string list"
  and search_entries ::
    "matcher \<Rightarrow> host \<Rightarrow> string list \<Rightarrow> search_request \<Rightarrow> string \<Rightarrow> (string \<times> fsnode) list
      \<Rightarrow> string list \<Rightarrow> string list"
where
  "search mm h allowed rq currentPath node results =
     (case readdir node of
        None \<Rightarrow> (Some (ReaddirFailed currentPath), results)
      | Some entries \<Rightarrow> (None, search_entries mm h allowed rq currentPath entries results))"
| "search_entries mm h allowed rq currentPath [] results = results"
| "search_entries mm h allowed rq currentPath (entry # rest) results =
     search_entries mm h allowed rq currentPath rest
       (let fullPath = path_join [currentPath, fst entry]
        in case validatePath h allowed fullPath of
             Inl err \<Rightarrow> results
           | Inr validated \<Rightarrow>
               if shouldExclude mm h rq fullPath then results
               else
                 (let results' =
                        (if mm (fst entry) (sr_pattern rq) \<lparr>opt_dot = False, opt_nocase = True\<rparr>
                         then results @ [fullPath] else results)
                  in if isDirectory (snd entry)
                     then snd (search mm h allowed rq fullPath (snd entry) results')
                     else results'))"
  by pat_completeness auto
termination
  apply (relation "measure (\<lambda>x. case x of
      Inl (mm, h, allowed, rq, cur, node, results) \<Rightarrow> 2 * size node + 1
    | Inr (mm, h, allowed, rq, cur, entries, results) \<Rightarrow>
        2 * size_list (size_prod (\<lambda>n. 0) size) entries)")
    apply (auto elim!: readdir.elims)
  done

text \<open>
  What one entry adds to \<^verbatim>\<open>results\<close>: itself when its name matches, then whatever the walk
  below it finds. A derived notion, used to state what the loop computes.
\<close>

definition entry_found ::
    "matcher \<Rightarrow> host \<Rightarrow> string list \<Rightarrow> search_request \<Rightarrow> string \<Rightarrow> string \<times> fsnode
      \<Rightarrow> string list" where
  "entry_found mm h allowed rq cur entry =
     (let fullPath = path_join [cur, fst entry]
      in case validatePath h allowed fullPath of
           Inl err \<Rightarrow> []
         | Inr validated \<Rightarrow>
             if shouldExclude mm h rq fullPath then []
             else (if mm (fst entry) (sr_pattern rq) \<lparr>opt_dot = False, opt_nocase = True\<rparr>
                   then [fullPath] else []) @
                  (if isDirectory (snd entry)
                   then snd (search mm h allowed rq fullPath (snd entry) []) else []))"

definition searchFiles ::
    "matcher \<Rightarrow> host \<Rightarrow> string list \<Rightarrow> fsnode \<Rightarrow> string \<Rightarrow> string \<Rightarrow> string list
      \<Rightarrow> error + string list" where
  "searchFiles mm h allowed tree root pat excludes =
     (case search mm h allowed
             \<lparr>sr_rootPath = root, sr_pattern = pat, sr_excludePatterns = excludes\<rparr> root tree [] of
        (Some err, results) \<Rightarrow> Inl err
      | (None, results) \<Rightarrow> Inr results)"

text \<open>
  The \<^verbatim>\<open>search_files\<close> case of the tool handler. \<open>fs_at\<close> tells what lies at a path. The
  handler's \<^verbatim>\<open>catch\<close> wraps every error into an \<^verbatim>\<open>McpError\<close> that carries its message and
  throws it to the caller: the result is that error.
\<close>

definition render_results :: "string list \<Rightarrow> string" where
  "render_results results =
     (if results \<noteq> [] then join_with [CHR 0x0A] results else ''No matching files found'')"

definition search_files_tool ::
    "matcher \<Rightarrow> host \<Rightarrow> string list \<Rightarrow> (string \<Rightarrow> fsnode) \<Rightarrow> string \<Rightarrow> string
      \<Rightarrow> string list option \<Rightarrow> error + string" where
  "search_files_tool mm h allowed fs_at path pat excl =
     (case validatePath h allowed path of
        Inl err \<Rightarrow> Inl err
      | Inr validPath \<Rightarrow>
          (let excludes = (case excl of None \<Rightarrow> [] | Some xs \<Rightarrow> xs)
           in case searchFiles mm h allowed (fs_at validPath) validPath pat excludes of
                Inl err \<Rightarrow> Inl err
              | Inr results \<Rightarrow> Inr (render_results results)))"

text \<open>Every name in the tree is one that \<^verbatim>\<open>readdir\<close> can return.\<close>

function proper_tree :: "fsnode \<Rightarrow> bool"
  and proper_entries :: "(string \<times> fsnode) list \<Rightarrow> bool"
where
  "proper_tree File = True"
| "proper_tree LockedDir = True"
| "proper_tree (Dir es) = proper_entries es"
| "proper_entries [] = True"
| "proper_entries (entry # rest) =
     (proper_name (fst entry) \<and> proper_tree (snd entry) \<and> proper_entries rest)"
  by pat_completeness auto
termination
  apply (relation "measure (\<lambda>x. case x of
      Inl node \<Rightarrow> 2 * size node + 1
    | Inr entries \<Rightarrow> 2 * size_list (size_prod (\<lambda>n. 0) size) entries)")
      apply auto
  done

section \<open>Saving a generated image\<close>

text \<open>
  The part of the file system that saving touches: which paths exist, what has been written,
  and which \<^verbatim>\<open>mkdirSync\<close>, \<^verbatim>\<open>writeFileSync\<close> and \<^verbatim>\<open>accessSync(path, W_OK)\<close> calls the
  operating system refuses (permissions, read-only media, a file in the way).
\<close>

datatype io_error = MkdirFailed string | WriteFailed string | UserInfoFailed

record fs_state =
  fs_exists :: "string \<Rightarrow> bool"
  fs_content :: "string \<Rightarrow> string option"
  mkdir_fails :: "string \<Rightarrow> bool"
  write_fails :: "string \<Rightarrow> bool"
  access_fails :: "string \<Rightarrow> bool"

definition existsSync :: "fs_state \<Rightarrow> string \<Rightarrow> bool" where
  "existsSync fs p = fs_exists fs p"

text \<open>
  The directory and the directories above it, up to the root: \<open>p\<close>, \<^verbatim>\<open>dirname(p)\<close>,
  \<^verbatim>\<open>dirname(dirname(p))\<close> and so on, until \<^verbatim>\<open>dirname\<close> no longer changes the path, in at
  most \<open>length p\<close> steps.
\<close>

fun chain_up :: "nat \<Rightarrow> string \<Rightarrow> string list" where
  "chain_up 0 p = [p]"
| "chain_up (Suc n) p =
     (if path_dirname p = p then [p] else p # chain_up n (path_dirname p))"

text \<open>\<^verbatim>\<open>fs.mkdirSync(dirPath, { recursive: true })\<close>\<close>

definition mkdirSync_recursive :: "fs_state \<Rightarrow> string \<Rightarrow> io_error + fs_state" where
  "mkdirSync_recursive fs dirPath =
     (if mkdir_fails fs dirPath then Inl (MkdirFailed dirPath)
      else Inr (fs\<lparr>fs_exists :=
                     (\<lambda>q. fs_exists fs q \<or> q \<in> set (chain_up (length dirPath) dirPath))\<rparr>))"

definition writeFileSync :: "fs_state \<Rightarrow> string \<Rightarrow> string \<Rightarrow> io_error + fs_state" where
  "writeFileSync fs p buffer =
     (if write_fails fs p then Inl (WriteFailed p)
      else Inr (fs\<lparr>fs_exists := (fs_exists fs)(p := True),
                    fs_content := (fs_content fs)(p := Some buffer)\<rparr>))"

text \<open>An environment variable that is set and not empty (truthy).\<close>

definition env_set :: "host \<Rightarrow> string \<Rightarrow> string option" where
  "env_set h v =
     (case process_env h v of None \<Rightarrow> None | Some x \<Rightarrow> if x = [] then None else Some x)"

text \<open>
  \<^verbatim>\<open>getDesktopPath\<close>. \<open>os_username\<close> is \<open>None\<close> where \<^verbatim>\<open>os.userInfo()\<close> throws, which the
  \<^verbatim>\<open>catch\<close> answers with the home directory. On Windows \<^verbatim>\<open>path.join\<close> would use
  backslashes; the joins are kept in the POSIX flavour, and nothing proved below depends on
  the separator.
\<close>

definition getDesktopPath :: "host \<Rightarrow> fs_state \<Rightarrow> string" where
  "getDesktopPath h fs =
     (let home = os_homedir h
      in case os_username h of
           None \<Rightarrow> os_homedir h
         | Some username \<Rightarrow>
             if os_platform h = Win32 then
               (let desktopPath =
                      (case env_set h ''USERPROFILE'' of
                         Some profile \<Rightarrow> path_join [profile, ''Desktop'']
                       | None \<Rightarrow> path_join [''C:'', ''Users'', username, ''Desktop''])
                in if existsSync fs desktopPath then desktopPath else home)
             else if os_platform h = Darwin then path_join [home, ''Desktop'']
             else
               (case env_set h ''XDG_DESKTOP_DIR'' of
                  Some xdgDesktop \<Rightarrow>
                    if existsSync fs xdgDesktop then xdgDesktop
                    else (let linuxDesktop = path_join [home, ''Desktop'']
                          in if existsSync fs linuxDesktop then linuxDesktop else home)
                | None \<Rightarrow>
                    (let linuxDesktop = path_join [home, ''Desktop'']
                     in if existsSync fs linuxDesktop then linuxDesktop else home)))"

definition ensureDirectoryExists :: "fs_state \<Rightarrow> string \<Rightarrow> io_error + fs_state" where
  "ensureDirectoryExists fs dirPath =
     (if \<not> existsSync fs dirPath then mkdirSync_recursive fs dirPath else Inr fs)"

text \<open>
  The \<^verbatim>\<open>try\<close> block of \<^verbatim>\<open>saveImageWithProperPath\<close>. In the desktop branch the argument of
  the fourth \<^verbatim>\<open>debugLog\<close> call evaluates \<^verbatim>\<open>os.userInfo()\<close> before anything is created.
\<close>

definition save_try ::
    "host \<Rightarrow> fs_state \<Rightarrow> string \<Rightarrow> string \<Rightarrow> (io_error + string) \<times> fs_state" where
  "save_try h fs buffer fileName =
     (if process_env h ''SAVE_TO_DESKTOP'' = Some ''true'' then
        (let saveDir = path_join [getDesktopPath h fs, ''generated-images'']
         in case os_username h of
              None \<Rightarrow> (Inl UserInfoFailed, fs)
            | Some username \<Rightarrow>
                (case ensureDirectoryExists fs saveDir of
                   Inl err \<Rightarrow> (Inl err, fs)
                 | Inr fs1 \<Rightarrow>
                     (let outputPath = path_normalize (path_join [saveDir, fileName])
                      in case writeFileSync fs1 outputPath buffer of
                           Inl err \<Rightarrow> (Inl err, fs1)
                         | Inr fs2 \<Rightarrow> (Inr outputPath, fs2))))
      else
        (let serverDir = process_cwd h;
             outputDir = path_join [serverDir, ''generated-images'']
         in case ensureDirectoryExists fs outputDir of
              Inl err \<Rightarrow> (Inl err, fs)
            | Inr fs1 \<Rightarrow>
                (let outputPath = path_normalize (path_join [outputDir, fileName])
                 in case writeFileSync fs1 outputPath buffer of
                      Inl err \<Rightarrow> (Inl err, fs1)
                    | Inr fs2 \<Rightarrow> (Inr outputPath, fs2))))"

text \<open>The \<^verbatim>\<open>catch\<close> block: the \<^verbatim>\<open>output\<close> directory under the working directory.\<close>

definition save_fallback ::
    "host \<Rightarrow> fs_state \<Rightarrow> string \<Rightarrow> string \<Rightarrow> (io_error + string) \<times> fs_state" where
  "save_fallback h fs buffer fileName =
     (let fallbackDir = path_join [process_cwd h, ''output'']
      in case ensureDirectoryExists fs fallbackDir of
           Inl err \<Rightarrow> (Inl err, fs)
         | Inr fs1 \<Rightarrow>
             (let fallbackPath = path_join [fallbackDir, fileName]
              in case writeFileSync fs1 fallbackPath buffer of
                   Inl err \<Rightarrow> (Inl err, fs1)
                 | Inr fs2 \<Rightarrow> (Inr fallbackPath, fs2)))"

definition saveImageWithProperPath ::
    "host \<Rightarrow> fs_state \<Rightarrow> string \<Rightarrow> string \<Rightarrow> (io_error + string) \<times> fs_state" where
  "saveImageWithProperPath h fs buffer fileName =
     (case save_try h fs buffer fileName of
        (Inr savedPath, fs') \<Rightarrow> (Inr savedPath, fs')
      | (Inl err, fs') \<Rightarrow> save_fallback h fs' buffer fileName)"

text \<open>The two directories the code can save into.\<close>

definition primaryDir :: "host \<Rightarrow> fs_state \<Rightarrow> string" where
  "primaryDir h fs =
     (if process_env h ''SAVE_TO_DESKTOP'' = Some ''true''
      then path_join [getDesktopPath h fs, ''generated-images'']
      else path_join [process_cwd h, ''generated-images''])"

definition fallbackDir :: "host \<Rightarrow> string" where
  "fallbackDir h = path_join [process_cwd h, ''output'']"

text \<open>
  One tier, as each branch of the source spells it out: make sure the directory is there,
  then write the file. A derived notion, used to reason about the three places alike.
\<close>

definition save_into ::
    "fs_state \<Rightarrow> string \<Rightarrow> string \<Rightarrow> string \<Rightarrow> (io_error + string) \<times> fs_state" where
  "save_into fs dir path buffer =
     (case ensureDirectoryExists fs dir of
        Inl err \<Rightarrow> (Inl err, fs)
      | Inr fs1 \<Rightarrow>
          (case writeFileSync fs1 path buffer of
             Inl err \<Rightarrow> (Inl err, fs1)
           | Inr fs2 \<Rightarrow> (Inr path, fs2)))"

text \<open>
  When the first attempt goes through, and when the last resort does, in terms of the
  state before the call.
\<close>

definition primary_succeeds :: "host \<Rightarrow> fs_state \<Rightarrow> string \<Rightarrow> bool" where
  "primary_succeeds h fs fileName =
     (\<not> (process_env h ''SAVE_TO_DESKTOP'' = Some ''true'' \<and> os_username h = None) \<and>
      (existsSync fs (primaryDir h fs) \<or> \<not> mkdir_fails fs (primaryDir h fs)) \<and>
      \<not> write_fails fs (path_normalize (path_join [primaryDir h fs, fileName])))"

definition fallback_succeeds :: "host \<Rightarrow> fs_state \<Rightarrow> string \<Rightarrow> bool" where
  "fallback_succeeds h fs fileName =
     ((existsSync fs (fallbackDir h) \<or> \<not> mkdir_fails fs (fallbackDir h)) \<and>
      \<not> write_fails fs (path_join [fallbackDir h, fileName]))"

subsection \<open>The resolver with a documents tier\<close>

text \<open>
  Another copy of the save logic, among the sources kept with the README, chooses the
  directory in a function of its own, \<^verbatim>\<open>getBestSavePath\<close>, with its own
  \<^verbatim>\<open>getDesktopPath\<close> (suffixed \<open>_best\<close> here, the name being taken by the function above),
  \<^verbatim>\<open>getDocumentsPath\<close> and \<^verbatim>\<open>isPathWriteable\<close>; its \<^verbatim>\<open>ensureDirectoryExists\<close> is the one
  above. \<^verbatim>\<open>process.env.USERPROFILE || home\<close> takes the home directory when the variable is
  unset or empty. The joins are in the POSIX flavour here too.
\<close>

definition getDesktopPath_best :: "host \<Rightarrow> string" where
  "getDesktopPath_best h =
     (let home = os_homedir h
      in if os_platform h = Win32 then
           path_join [(case env_set h ''USERPROFILE'' of Some profile \<Rightarrow> profile | None \<Rightarrow> home),
                      ''Desktop'']
         else if os_platform h = Darwin then path_join [home, ''Desktop'']
         else path_join [home, ''Desktop''])"

definition getDocumentsPath :: "host \<Rightarrow> string" where
  "getDocumentsPath h =
     (let home = os_homedir h
      in if os_platform h = Win32 then
           path_join [(case env_set h ''USERPROFILE'' of Some profile \<Rightarrow> profile | None \<Rightarrow> home),
                      ''Documents'']
         else if os_platform h = Darwin then path_join [home, ''Documents'']
         else home)"

text \<open>
  \<^verbatim>\<open>isPathWriteable\<close>: a path that does not exist is writeable when it can be created, and
  the test creates it; a path that exists is writeable when \<^verbatim>\<open>accessSync\<close> accepts it.
\<close>

definition isPathWriteable :: "fs_state \<Rightarrow> string \<Rightarrow> bool \<times> fs_state" where
  "isPathWriteable fs path =
     (if \<not> existsSync fs path then
        (case ensureDirectoryExists fs path of
           Inr fs1 \<Rightarrow> (True, fs1)
         | Inl e \<Rightarrow> (False, fs))
      else if access_fails fs path then (False, fs)
      else (True, fs))"

text \<open>
  The \<^verbatim>\<open>try\<close> block of \<^verbatim>\<open>getBestSavePath\<close>. The first component of \<open>checked\<close> is the
  override directory when the variable is set and the directory passed the test.
\<close>

definition getBestSavePath_try :: "host \<Rightarrow> fs_state \<Rightarrow> (io_error + string) \<times> fs_state" where
  "getBestSavePath_try h fs =
     (let checked =
            (case env_set h ''OUTPUT_DIR'' of
               None \<Rightarrow> (None, fs)
             | Some v \<Rightarrow>
                 (let outputDir = path_resolve (process_cwd h) [v];
                      w = isPathWriteable fs outputDir
                  in if fst w then (Some outputDir, snd w) else (None, snd w)));
          fs1 = snd checked
      in case fst checked of
           Some outputDir \<Rightarrow> (Inr outputDir, fs1)
         | None \<Rightarrow>
             if process_env h ''SAVE_TO_DESKTOP'' = Some ''true'' then
               (let desktopPath = getDesktopPath_best h;
                    targetDir = path_join [desktopPath, ''mcp-3d-cartoons'']
                in case ensureDirectoryExists fs1 targetDir of
                     Inl err \<Rightarrow> (Inl err, fs1)
                   | Inr fs2 \<Rightarrow> (Inr targetDir, fs2))
             else
               (let desktopPath = path_join [getDesktopPath_best h, ''mcp-3d-cartoons''];
                    w1 = isPathWriteable fs1 (path_dirname desktopPath);
                    fs2 = snd w1
                in if fst w1 then
                     (case ensureDirectoryExists fs2 desktopPath of
                        Inl err \<Rightarrow> (Inl err, fs2)
                      | Inr fs3 \<Rightarrow> (Inr desktopPath, fs3))
                   else
                     (let docsPath = path_join [getDocumentsPath h, ''mcp-3d-cartoons''];
                          w2 = isPathWriteable fs2 (path_dirname docsPath);
                          fs3 = snd w2
                      in if fst w2 then
                           (case ensureDirectoryExists fs3 docsPath of
                              Inl err \<Rightarrow> (Inl err, fs3)
                            | Inr fs4 \<Rightarrow> (Inr docsPath, fs4))
                         else
                           (let homePath = path_join [os_homedir h, ''mcp-3d-cartoons'']
                            in case ensureDirectoryExists fs3 homePath of
                                 Inl err \<Rightarrow> (Inl err, fs3)
                               | Inr fs4 \<Rightarrow> (Inr homePath, fs4)))))"

text \<open>With the \<^verbatim>\<open>catch\<close> block, which takes every error of the \<^verbatim>\<open>try\<close> block.\<close>

definition getBestSavePath :: "host \<Rightarrow> fs_state \<Rightarrow> (io_error + string) \<times> fs_state" where
  "getBestSavePath h fs =
     (case getBestSavePath_try h fs of
        (Inr dir, fs') \<Rightarrow> (Inr dir, fs')
      | (Inl err, fs') \<Rightarrow>
          (let fallbackPath = path_join [process_cwd h, ''output'']
           in case ensureDirectoryExists fs' fallbackPath of
                Inl err' \<Rightarrow> (Inl err', fs')
              | Inr fs'' \<Rightarrow> (Inr fallbackPath, fs'')))"

text \<open>
  The candidates by name, as the local variables of \<^verbatim>\<open>getBestSavePath\<close> hold them, and when
  \<^verbatim>\<open>ensureDirectoryExists\<close> goes through: the directory is there or can be created.
\<close>

definition outputDir :: "host \<Rightarrow> string \<Rightarrow> string" where
  "outputDir h v = path_resolve (process_cwd h) [v]"

definition desktopPath :: "host \<Rightarrow> string" where
  "desktopPath h = path_join [getDesktopPath_best h, ''mcp-3d-cartoons'']"

definition docsPath :: "host \<Rightarrow> string" where
  "docsPath h = path_join [getDocumentsPath h, ''mcp-3d-cartoons'']"

definition homePath :: "host \<Rightarrow> string" where
  "homePath h = path_join [os_homedir h, ''mcp-3d-cartoons'']"

definition fallbackPath :: "host \<Rightarrow> string" where
  "fallbackPath h = path_join [process_cwd h, ''output'']"

definition can_create :: "fs_state \<Rightarrow> string \<Rightarrow> bool" where
  "can_create fs dir = (existsSync fs dir \<or> \<not> mkdir_fails fs dir)"

text \<open>The override is configured and passes the writability test.\<close>

definition override_taken :: "host \<Rightarrow> fs_state \<Rightarrow> bool" where
  "override_taken h fs =
     (case env_set h ''OUTPUT_DIR'' of
        None \<Rightarrow> False
      | Some v \<Rightarrow> fst (isPathWriteable fs (outputDir h v)))"

subsection \<open>The resolver in the words of the specification\<close>

text \<open>
  The specification's priority order, to compare the code with: the configured override,
  the desktop, documents and home directories under the application subfolder, then
  \<^verbatim>\<open>output\<close> under the working directory; the first writable candidate wins. A directory that
  does not exist is writable when it can be created, an existing one when a probe file can
  be written into it.
\<close>

definition spec_writable :: "fs_state \<Rightarrow> string \<Rightarrow> bool" where
  "spec_writable fs d =
     (if existsSync fs d then \<not> write_fails fs (path_join [d, ''.write-test''])
      else \<not> mkdir_fails fs d)"

definition spec_candidates :: "host \<Rightarrow> string list" where
  "spec_candidates h =
     (case env_set h ''OUTPUT_DIR'' of None \<Rightarrow> [] | Some d \<Rightarrow> [d]) @
     [path_join [os_homedir h, ''Desktop'', ''generated-images''],
      path_join [os_homedir h, ''Documents'', ''generated-images''],
      path_join [os_homedir h, ''generated-images'']]"

definition spec_resolveOutputDirectory :: "host \<Rightarrow> fs_state \<Rightarrow> string" where
  "spec_resolveOutputDirectory h fs =
     (case filter (spec_writable fs) (spec_candidates h) of
        d # ds \<Rightarrow> d
      | [] \<Rightarrow> path_join [process_cwd h, ''output''])"

section \<open>Example environments\<close>

text \<open>
  A host whose file system holds \<^verbatim>\<open>/data\<close> with a file, a link to a file outside and a link
  to a directory outside, and two home directories whose names share a prefix.
\<close>

definition example_host :: host where
  "example_host =
     \<lparr>os_platform = Linux, os_homedir = ''/home/alice'', process_cwd = ''/srv/app'',
      os_username = Some ''alice'', process_env = (\<lambda>v. None),
      fs_realpath = map_of
        [(''/data'', ''/data''),
         (''/data/x.txt'', ''/data/x.txt''),
         (''/data/link'', ''/etc/passwd''),
         (''/data/etc-link'', ''/etc''),
         (''/etc'', ''/etc''),
         (''/etc/passwd'', ''/etc/passwd''),
         (''/home/alice'', ''/home/alice''),
         (''/home/alice2'', ''/home/alice2''),
         (''/home/alice2/secret'', ''/home/alice2/secret'')]\<rparr>"

text \<open>A host on which everything below \<^verbatim>\<open>/data\<close> exists and is its own real path.\<close>

definition plain_host :: host where
  "plain_host =
     \<lparr>os_platform = Linux, os_homedir = ''/home/alice'', process_cwd = ''/srv/app'',
      os_username = Some ''alice'', process_env = (\<lambda>v. None),
      fs_realpath = (\<lambda>p. if startsWith p ''/data'' then Some p else None)\<rparr>"

definition desktop_host :: host where
  "desktop_host =
     \<lparr>os_platform = Linux, os_homedir = ''/home/alice'', process_cwd = ''/srv/app'',
      os_username = Some ''alice'',
      process_env = (\<lambda>v. if v = ''SAVE_TO_DESKTOP'' then Some ''true'' else None),
      fs_realpath = (\<lambda>p. None)\<rparr>"

definition png_tree :: fsnode where
  "png_tree = Dir [(''a.png'', File), (''sub'', Dir [(''b.png'', File), (''c.txt'', File)])]"

definition modules_tree :: fsnode where
  "modules_tree =
     Dir [(''node_modules'', Dir [(''pkg'', Dir [(''x.js'', File)])]), (''main.js'', File)]"

definition locked_tree :: fsnode where
  "locked_tree = Dir [(''priv'', LockedDir), (''a.png'', File)]"

text \<open>A file system where everything can be created and written.\<close>

definition open_fs :: fs_state where
  "open_fs =
     \<lparr>fs_exists = (\<lambda>p. p \<in> set [''/'', ''/home'', ''/home/alice'', ''/home/alice/Desktop'',
                                 ''/srv'', ''/srv/app'']),
      fs_content = (\<lambda>p. None), mkdir_fails = (\<lambda>p. False), write_fails = (\<lambda>p. False),
      access_fails = (\<lambda>p. False)\<rparr>"

text \<open>The same, with everything under the home directory read-only.\<close>

definition readonly_home_fs :: fs_state where
  "readonly_home_fs =
     \<lparr>fs_exists = (\<lambda>p. p \<in> set [''/'', ''/home'', ''/home/alice'', ''/home/alice/Desktop'',
                                 ''/srv'', ''/srv/app'']),
      fs_content = (\<lambda>p. None),
      mkdir_fails = (\<lambda>p. startsWith p ''/home/alice''),
      write_fails = (\<lambda>p. startsWith p ''/home/alice''),
      access_fails = (\<lambda>p. startsWith p ''/home/alice'')\<rparr>"

text \<open>A file system that refuses every creation and every write.\<close>

definition closed_fs :: fs_state where
  "closed_fs =
     \<lparr>fs_exists = (\<lambda>p. p \<in> set [''/'', ''/srv'', ''/srv/app'']),
      fs_content = (\<lambda>p. None), mkdir_fails = (\<lambda>p. True), write_fails = (\<lambda>p. True),
      access_fails = (\<lambda>p. True)\<rparr>"

text \<open>A file system with nothing but the root, where everything can be created.\<close>

definition bare_fs :: fs_state where
  "bare_fs =
     \<lparr>fs_exists = (\<lambda>p. p = ''/''),
      fs_content = (\<lambda>p. None), mkdir_fails = (\<lambda>p. False), write_fails = (\<lambda>p. False),
      access_fails = (\<lambda>p. False)\<rparr>"

text \<open>
  A macOS host, and file systems on which the desktop, then also the documents directory,
  then everything under the home directory is read-only; the same host with a relative
  override, and with the desktop forced; a file system on which nothing can be created
  under the working directory.
\<close>

definition mac_host :: host where
  "mac_host =
     \<lparr>os_platform = Darwin, os_homedir = ''/Users/alice'', process_cwd = ''/srv/app'',
      os_username = Some ''alice'', process_env = (\<lambda>v. None),
      fs_realpath = (\<lambda>p. None)\<rparr>"

definition mac_fs :: fs_state where
  "mac_fs =
     \<lparr>fs_exists = (\<lambda>p. p \<in> set [''/'', ''/Users'', ''/Users/alice'', ''/Users/alice/Desktop'',
                                 ''/Users/alice/Documents'', ''/srv'', ''/srv/app'']),
      fs_content = (\<lambda>p. None), mkdir_fails = (\<lambda>p. False), write_fails = (\<lambda>p. False),
      access_fails = (\<lambda>p. False)\<rparr>"

definition mac_fs_desktop_ro :: fs_state where
  "mac_fs_desktop_ro =
     mac_fs\<lparr>mkdir_fails := (\<lambda>p. startsWith p ''/Users/alice/Desktop''),
            access_fails := (\<lambda>p. startsWith p ''/Users/alice/Desktop'')\<rparr>"

definition mac_fs_both_ro :: fs_state where
  "mac_fs_both_ro =
     mac_fs\<lparr>mkdir_fails := (\<lambda>p. startsWith p ''/Users/alice/Desktop'' \<or>
                                   startsWith p ''/Users/alice/Documents''),
            access_fails := (\<lambda>p. startsWith p ''/Users/alice/Desktop'' \<or>
                                    startsWith p ''/Users/alice/Documents'')\<rparr>"

definition mac_fs_home_ro :: fs_state where
  "mac_fs_home_ro =
     mac_fs\<lparr>mkdir_fails := (\<lambda>p. startsWith p ''/Users/alice''),
            access_fails := (\<lambda>p. startsWith p ''/Users/alice'')\<rparr>"

definition mac_fs_cwd_ro :: fs_state where
  "mac_fs_cwd_ro = mac_fs\<lparr>mkdir_fails := (\<lambda>p. startsWith p ''/srv/app'')\<rparr>"

definition mac_host_override :: host where
  "mac_host_override = mac_host\<lparr>process_env := (\<lambda>v. if v = ''OUTPUT_DIR'' then Some ''out'' else None)\<rparr>"

definition mac_host_forced :: host where
  "mac_host_forced =
     mac_host\<lparr>process_env := (\<lambda>v. if v = ''SAVE_TO_DESKTOP'' then Some ''true'' else None)\<rparr>"

text \<open>
  The macOS file system with a file in the way of the application folder on the desktop, so
  that the folder cannot be created although the desktop is writable.
\<close>

definition mac_fs_folder_blocked :: fs_state where
  "mac_fs_folder_blocked =
     mac_fs\<lparr>mkdir_fails := (\<lambda>p. p = ''/Users/alice/Desktop/mcp-3d-cartoons'')\<rparr>"

text \<open>A Linux host whose desktop directory is advertised by \<^verbatim>\<open>XDG_DESKTOP_DIR\<close>.\<close>

definition xdg_host :: host where
  "xdg_host =
     example_host\<lparr>process_env :=
        (\<lambda>v. if v = ''XDG_DESKTOP_DIR'' then Some ''/home/alice/Schreibtisch'' else None)\<rparr>"

definition xdg_fs :: fs_state where
  "xdg_fs =
     open_fs\<lparr>fs_exists := (\<lambda>p. p = ''/home/alice/Schreibtisch'' \<or> fs_exists open_fs p)\<rparr>"

text \<open>
  The macOS file system with the desktop read-only and a file in the way of the application
  folder under the documents directory.
\<close>

definition mac_fs_docs_blocked :: fs_state where
  "mac_fs_docs_blocked =
     mac_fs\<lparr>mkdir_fails := (\<lambda>p. startsWith p ''/Users/alice/Desktop'' \<or>
                                   p = ''/Users/alice/Documents/mcp-3d-cartoons''),
            access_fails := (\<lambda>p. startsWith p ''/Users/alice/Desktop'')\<rparr>"

text \<open>A Windows host whose profile directory has no \<^verbatim>\<open>Desktop\<close> folder on \<open>closed_fs\<close>.\<close>

definition win_host :: host where
  "win_host =
     \<lparr>os_platform = Win32, os_homedir = ''C:/Users/alice'', process_cwd = ''/srv/app'',
      os_username = Some ''alice'',
      process_env = (\<lambda>v. if v = ''USERPROFILE'' then Some ''C:/Users/alice'' else None),
      fs_realpath = (\<lambda>p. None)\<rparr>"
section \<open>Facts about strings and paths\<close>

lemma startsWith_iff: "startsWith s p \<longleftrightarrow> (\<exists>t. s = p @ t)"
  by (induction s p rule: startsWith.induct) auto

lemma startsWith_append [simp]: "startsWith (p @ t) p"
  by (simp add: startsWith_iff)

lemma split_on_nonempty [simp]: "split_on c s \<noteq> []"
  by (induction s) (auto split: list.splits)

lemma split_on_append: "split_on c (a @ c # b) = split_on c a @ split_on c b"
  by (induction a) (auto split: list.splits)

lemma split_on_free: "c \<notin> set s \<Longrightarrow> split_on c s = [s]"
  by (induction s) (auto split: list.splits)

lemma split_on_segments_free: "s \<in> set (split_on c p) \<Longrightarrow> c \<notin> set s"
proof (induction p arbitrary: s)
  case Nil
  then show ?case by simp
next
  case (Cons x p)
  show ?case
  proof (cases "x = c")
    case True
    with Cons show ?thesis by auto
  next
    case False
    obtain y ys where sp: "split_on c p = y # ys"
      by (cases "split_on c p") auto
    with Cons False show ?thesis by auto
  qed
qed

lemma split_join: "ss \<noteq> [] \<Longrightarrow> \<forall>s\<in>set ss. c \<notin> set s \<Longrightarrow> split_on c (join_with [c] ss) = ss"
proof (induction "[c]" ss rule: join_with.induct)
  case 1
  then show ?case by simp
next
  case (2 s)
  then show ?case by (simp add: split_on_free)
next
  case (3 s t ss)
  then show ?case using split_on_append [of c s "join_with [c] (t # ss)"]
    by (simp add: split_on_free)
qed

lemma join_with_snoc: "join_with sep (ss @ [n]) = (if ss = [] then n else join_with sep ss @ sep @ n)"
  by (induction sep ss rule: join_with.induct) auto

lemma norm_step_proper:
  "\<forall>s\<in>set res. proper_name s \<Longrightarrow> CHR ''/'' \<notin> set seg \<Longrightarrow> \<forall>s\<in>set (norm_step False res seg). proper_name s"
  by (auto simp: norm_step_def proper_name_def dest: in_set_butlastD)

lemma foldl_norm_proper:
  "\<forall>s\<in>set res. proper_name s \<Longrightarrow> \<forall>s\<in>set segs. CHR ''/'' \<notin> set s \<Longrightarrow>
   \<forall>s\<in>set (foldl (norm_step False) res segs). proper_name s"
proof (induction segs arbitrary: res)
  case Nil
  then show ?case by simp
next
  case (Cons a segs)
  have "\<forall>s\<in>set (norm_step False res a). proper_name s"
    using Cons.prems by (intro norm_step_proper) auto
  then show ?case using Cons by simp
qed

lemma norm_segments_proper: "s \<in> set (norm_segments False p) \<Longrightarrow> proper_name s"
  unfolding norm_segments_def
  using foldl_norm_proper [of "[]" "split_on CHR ''/'' p"] split_on_segments_free by auto

lemma foldl_norm_id: "\<forall>s\<in>set segs. proper_name s \<Longrightarrow> foldl (norm_step a) res segs = res @ segs"
  by (induction segs arbitrary: res) (auto simp: norm_step_def proper_name_def)

lemma join_with_nonempty: "ss \<noteq> [] \<Longrightarrow> \<forall>s\<in>set ss. s \<noteq> [] \<Longrightarrow> join_with sep ss \<noteq> []"
  by (induction sep ss rule: join_with.induct) auto

lemma join_with_last: "ss \<noteq> [] \<Longrightarrow> \<forall>s\<in>set ss. s \<noteq> [] \<Longrightarrow> last (join_with sep ss) = last (last ss)"
  by (induction sep ss rule: join_with.induct) (auto simp: join_with_nonempty)

lemma norm_segments_of_abs:
  assumes "\<forall>s\<in>set st. proper_name s"
  shows "norm_segments a (''/'' @ join_with ''/'' st) = st"
proof (cases "st = []")
  case True
  then show ?thesis by (simp add: norm_segments_def norm_step_def)
next
  case False
  have "split_on CHR ''/'' (join_with ''/'' st) = st"
    using split_join [of st "CHR ''/''"] assms False by (auto simp: proper_name_def)
  then show ?thesis using assms
    by (simp add: norm_segments_def foldl_norm_id) (simp add: norm_step_def)
qed

lemma normalize_resolved:
  "path_normalize (''/'' @ normalizeString rp False) = ''/'' @ normalizeString rp False"
proof -
  define st where "st = norm_segments False rp"
  have cl: "\<forall>s\<in>set st. proper_name s" unfolding st_def using norm_segments_proper by blast
  have ns: "norm_segments False (CHR ''/'' # join_with ''/'' st) = st"
    using norm_segments_of_abs [OF cl] by simp
  have eq: "normalizeString rp False = join_with ''/'' st"
    by (simp add: normalizeString_def st_def)
  have "path_normalize (CHR ''/'' # join_with ''/'' st) = CHR ''/'' # join_with ''/'' st"
  proof (cases "st = []")
    case True
    then show ?thesis
      by (simp add: normalizeString_def path_normalize_def norm_segments_def norm_step_def)
  next
    case False
    have ne: "join_with ''/'' st \<noteq> []"
      using join_with_nonempty False cl by (auto simp: proper_name_def)
    have "last st \<in> set st" using False by simp
    then have "proper_name (last st)" using cl by blast
    then have "last st \<noteq> []" "CHR ''/'' \<notin> set (last st)" by (simp_all add: proper_name_def)
    then have "last (last st) \<noteq> CHR ''/''"
      using last_in_set [of "last st"] by metis
    then have lst: "last (join_with ''/'' st) \<noteq> CHR ''/''"
      using join_with_last [of st "''/''"] False cl by (auto simp: proper_name_def)
    show ?thesis using ne lst
      by (simp add: normalizeString_def path_normalize_def Let_def ns)
  qed
  then show ?thesis by (simp add: eq)
qed

lemma resolve_loop_abs:
  "path_isAbsolute c \<Longrightarrow> \<exists>rp. resolve_loop (ps @ [c]) acc = (rp, True)"
  by (induction ps arbitrary: acc) (auto simp: path_isAbsolute_def)

lemma path_resolve_abs:
  assumes "path_isAbsolute cwd"
  shows "\<exists>rp. path_resolve cwd args = ''/'' @ normalizeString rp False"
proof -
  obtain rp where "resolve_loop (rev args @ [cwd]) [] = (rp, True)"
    using resolve_loop_abs [OF assms] by blast
  then show ?thesis by (auto simp: path_resolve_def)
qed

lemma normalize_path_resolve:
  "path_isAbsolute cwd \<Longrightarrow> path_normalize (path_resolve cwd args) = path_resolve cwd args"
  using path_resolve_abs [of cwd args] normalize_resolved by auto

lemma canonical_absolute:
  "path_isAbsolute (process_cwd h) \<Longrightarrow> canonical h p = absolute_of h p"
  by (simp add: canonical_def absolute_of_def normalizePath_def Let_def normalize_path_resolve)


section \<open>Path authorisation\<close>

lemma isAllowedIn_iff: "isAllowedIn allowed p \<longleftrightarrow> (\<exists>dir\<in>set allowed. startsWith p dir)"
  by (simp add: isAllowedIn_def list_ex_iff)

lemma startsWith_trans: "startsWith s p \<Longrightarrow> startsWith p q \<Longrightarrow> startsWith s q"
  by (auto simp: startsWith_iff)

lemma startsWith_with_sep: "startsWith p (with_sep r) \<Longrightarrow> startsWith p r"
  by (auto simp: startsWith_iff with_sep_def split: if_splits)

lemma strict_descendant_allowed:
  "dir \<in> set allowed \<Longrightarrow> strict_descendant dir c \<Longrightarrow> isAllowedIn allowed c"
  using startsWith_with_sep by (auto simp: isAllowedIn_iff strict_descendant_def)

lemma validatePath_existing:
  assumes "isAllowedIn allowed (normalizePath (absolute_of h p))"
    and "fs_realpath h (absolute_of h p) = Some r"
    and "isAllowedIn allowed (normalizePath r)"
  shows "validatePath h allowed p = Inr r"
  using assms by (simp add: validatePath_def try_realpath_def Let_def)

lemma validatePath_new:
  assumes "isAllowedIn allowed (normalizePath (absolute_of h p))"
    and "fs_realpath h (absolute_of h p) = None"
    and "fs_realpath h (path_dirname (absolute_of h p)) = Some d"
    and "isAllowedIn allowed (normalizePath d)"
  shows "validatePath h allowed p = Inr (absolute_of h p)"
  using assms by (simp add: validatePath_def try_realpath_def try_parent_def Let_def)

lemma validatePath_outside:
  assumes "\<not> isAllowedIn allowed (normalizePath (absolute_of h p))"
  shows "validatePath h allowed p = Inl (AccessDeniedOutside (absolute_of h p) allowed)"
  using assms by (simp add: validatePath_def Let_def)

text \<open>
  What the symlink check yields. The \<^verbatim>\<open>throw\<close> of the real-path check sits inside the
  \<^verbatim>\<open>try\<close> whose \<^verbatim>\<open>catch\<close> goes on to the parent directory, so a target outside the roots
  never ends in an access-denied error.
\<close>

lemma validatePath_symlink_outcome:
  assumes "isAllowedIn allowed (normalizePath (absolute_of h p))"
    and "fs_realpath h (absolute_of h p) = Some t"
    and "\<not> isAllowedIn allowed (normalizePath t)"
  shows "validatePath h allowed p = Inr (absolute_of h p) \<or>
         validatePath h allowed p = Inl (ParentDirectoryDoesNotExist (path_dirname (absolute_of h p)))"
  using assms
  by (auto simp: validatePath_def try_realpath_def try_parent_def Let_def split: option.splits)

lemma absolute_of_literal:
  "path_isAbsolute p \<Longrightarrow> absolute_of h p = ''/'' @ normalizeString (p @ ''/'') False"
  by (cases p) (auto simp: absolute_of_def expandHome_def path_isAbsolute_def path_resolve_def)

lemma abs_x: "absolute_of h ''/data/../data/x.txt'' = ''/data/x.txt''"
  by (simp add: absolute_of_literal path_isAbsolute_def normalizeString_def norm_segments_def norm_step_def)

lemma abs_passwd: "absolute_of h ''/etc/passwd'' = ''/etc/passwd''"
  by (simp add: absolute_of_literal path_isAbsolute_def normalizeString_def norm_segments_def norm_step_def)

lemma norm_x: "normalizePath ''/data/x.txt'' = ''/data/x.txt''"
  by (simp add: normalizePath_def path_normalize_def normalizeString_def norm_segments_def norm_step_def)

lemma norm_passwd: "normalizePath ''/etc/passwd'' = ''/etc/passwd''"
  by (simp add: normalizePath_def path_normalize_def normalizeString_def norm_segments_def norm_step_def)

text \<open>A resolved path is its own absolute and normalised form.\<close>

lemma norm_segments_trailing: "norm_segments a (p @ ''/'') = norm_segments a p"
proof -
  have "split_on CHR ''/'' (p @ CHR ''/'' # []) = split_on CHR ''/'' p @ [[]]"
    by (simp add: split_on_append)
  then show ?thesis by (simp add: norm_segments_def norm_step_def)
qed

lemma absolute_of_resolved: "is_resolved q \<Longrightarrow> absolute_of h q = q"
proof -
  assume r: "is_resolved q"
  then have "path_isAbsolute q"
    by (metis append_Cons append_Nil is_resolved_def list.sel(1) list.simps(3) path_isAbsolute_def)
  then have "absolute_of h q = ''/'' @ normalizeString (q @ ''/'') False"
    by (rule absolute_of_literal)
  also have "\<dots> = ''/'' @ normalizeString q False"
    by (simp add: normalizeString_def norm_segments_trailing)
  also have "\<dots> = q" using r by (simp add: is_resolved_def)
  finally show ?thesis .
qed

lemma normalizePath_resolved: "is_resolved q \<Longrightarrow> normalizePath q = q"
  using normalize_resolved [of q] by (simp add: is_resolved_def normalizePath_def)

lemma validatePath_resolved:
  assumes "is_resolved q" "isAllowedIn allowed q" "fs_realpath h q = Some q"
  shows "validatePath h allowed q = Inr q"
  using assms validatePath_existing [of allowed h q q]
  by (simp add: absolute_of_resolved normalizePath_resolved)

text \<open>
  The absolute path \<^verbatim>\<open>validatePath\<close> computes is in resolved form, so what it hands on
  when the target does not exist yet is a resolved path.
\<close>

lemma is_resolved_normalized: "is_resolved (''/'' @ normalizeString rp False)"
proof -
  have "\<forall>s\<in>set (norm_segments False rp). proper_name s"
    using norm_segments_proper by blast
  then have "norm_segments False (''/'' @ join_with ''/'' (norm_segments False rp)) =
      norm_segments False rp"
    by (rule norm_segments_of_abs)
  then show ?thesis by (simp add: is_resolved_def normalizeString_def)
qed

lemma is_resolved_absolute_of:
  "path_isAbsolute (process_cwd h) \<Longrightarrow> is_resolved (absolute_of h p)"
proof -
  assume a: "path_isAbsolute (process_cwd h)"
  have "\<And>args. is_resolved (path_resolve (process_cwd h) args)"
    using path_resolve_abs [OF a] is_resolved_normalized by metis
  then show ?thesis by (simp add: absolute_of_def Let_def)
qed

text \<open>The allow-list as the configuration gives it.\<close>

lemma allowedDirectories_configured:
  "process_env h ''ALLOWED_DIRECTORIES'' = Some ''/data,/srv/www'' \<Longrightarrow>
   allowedDirectories h = [''/data'', ''/srv/www'']"
  by (simp add: allowedDirectories_def expandHome_def path_resolve_def normalizeString_def
      norm_segments_def norm_step_def normalizePath_def path_normalize_def)

subsection \<open>Claims about \<^verbatim>\<open>validatePath\<close>\<close>

text \<open>
  Claim C1: a requested path that is a symlink inside an allowed root, with its resolved
  target outside every allowed root, is refused with an access-denied error and never
  authorised. The code does not do this. On \<open>example_host\<close> the link \<^verbatim>\<open>/data/link\<close> resolves
  to \<^verbatim>\<open>/etc/passwd\<close>, outside the only root \<^verbatim>\<open>/data\<close>; the error thrown for the target is
  caught by the same \<^verbatim>\<open>try\<close>, the parent \<^verbatim>\<open>/data\<close> passes, and the link itself is returned as
  an authorised path.
\<close>

theorem validatePath_symlink_escape:
  "fs_realpath example_host ''/data/link'' = Some ''/etc/passwd'' \<and>
   \<not> isAllowedIn [''/data''] (normalizePath ''/etc/passwd'') \<and>
   validatePath example_host [''/data''] ''/data/link'' = Inr ''/data/link''"
  by code_simp

text \<open>
  Claim C2: the allow-list check wants a separator or equality after the matching root, so
  that root \<^verbatim>\<open>/home/alice\<close> refuses \<^verbatim>\<open>/home/alice2/secret\<close> with an access-denied error. The
  code does not do this: its check is a bare \<^verbatim>\<open>startsWith\<close>, and the sibling path is
  authorised.
\<close>

theorem validatePath_sibling_prefix:
  "\<not> strict_descendant ''/home/alice'' ''/home/alice2/secret'' \<and>
   validatePath example_host [''/home/alice''] ''/home/alice2/secret'' = Inr ''/home/alice2/secret''"
  by code_simp

text \<open>
  What the check admits in general: any existing path whose string begins with the string
  of a root, whatever character follows the root.
\<close>

lemma validatePath_prefix_only:
  assumes "dir \<in> set allowed" "startsWith q dir" "is_resolved q" "fs_realpath h q = Some q"
  shows "validatePath h allowed q = Inr q"
  using assms validatePath_resolved [of q allowed h] by (auto simp: isAllowedIn_iff)

text \<open>
  Claim C3: for a path that does not exist, a parent that resolves inside a root gives the
  original absolute path, a parent that exists but resolves outside every root gives an
  access-denied error, and a missing parent gives a not-found error. The code does not do
  the second: on \<open>example_host\<close> the parent \<^verbatim>\<open>/data/etc-link\<close> of the new file exists and
  resolves to \<^verbatim>\<open>/etc\<close>, outside the root, yet the error says that the parent directory does
  not exist, because the inner \<^verbatim>\<open>catch\<close> replaces the access-denied error thrown inside its
  own \<^verbatim>\<open>try\<close>.
\<close>

theorem validatePath_parent_outside:
  "fs_realpath example_host ''/data/etc-link/new.txt'' = None \<and>
   fs_realpath example_host ''/data/etc-link'' = Some ''/etc'' \<and>
   \<not> isAllowedIn [''/data''] (normalizePath ''/etc'') \<and>
   validatePath example_host [''/data''] ''/data/etc-link/new.txt'' =
     Inl (ParentDirectoryDoesNotExist ''/data/etc-link'') \<and>
   \<not> is_AccessDenied (ParentDirectoryDoesNotExist ''/data/etc-link'')"
  by code_simp

text \<open>The two parts of claim C3 that the code does keep.\<close>

lemma validatePath_new_file:
  assumes "isAllowedIn allowed (normalizePath (absolute_of h p))"
    and "fs_realpath h (absolute_of h p) = None"
  shows "(\<exists>d. fs_realpath h (path_dirname (absolute_of h p)) = Some d \<and>
              isAllowedIn allowed (normalizePath d))
           \<longrightarrow> validatePath h allowed p = Inr (absolute_of h p)"
    and "fs_realpath h (path_dirname (absolute_of h p)) = None
           \<longrightarrow> (\<exists>e. validatePath h allowed p = Inl e \<and> is_NotFound e)"
  using assms
  by (auto simp: validatePath_def try_realpath_def try_parent_def Let_def)

text \<open>
  Claim C4, as amended: for every path whose canonical absolute form lies strictly below a
  configured root, \<^verbatim>\<open>validatePath\<close> returns that canonical form when it exists and is its own
  real path, and also when it does not exist while the real path of its parent directory is
  a configured root or lies strictly below one. With allow-list \<^verbatim>\<open>/data\<close>, the request
  \<^verbatim>\<open>/data/../data/x.txt\<close> is authorised as \<^verbatim>\<open>/data/x.txt\<close> when that file is its own real
  path, and \<^verbatim>\<open>/etc/passwd\<close> fails with an access-denied error. (The working directory is
  absolute, as it always is.)
\<close>

theorem validatePath_descendant:
  "(path_isAbsolute (process_cwd h) \<and> dir \<in> set allowed \<and> strict_descendant dir (canonical h p) \<and>
      (fs_realpath h (canonical h p) = Some (canonical h p) \<or>
       (fs_realpath h (canonical h p) = None \<and>
        (\<exists>d root. fs_realpath h (path_dirname (canonical h p)) = Some d \<and> root \<in> set allowed \<and>
           (normalizePath d = root \<or> strict_descendant root (normalizePath d)))))
      \<longrightarrow> validatePath h allowed p = Inr (canonical h p)) \<and>
   (fs_realpath h ''/data/x.txt'' = Some ''/data/x.txt''
      \<longrightarrow> validatePath h [''/data''] ''/data/../data/x.txt'' = Inr ''/data/x.txt'') \<and>
   validatePath h [''/data''] ''/etc/passwd'' = Inl (AccessDeniedOutside ''/etc/passwd'' [''/data''])"
proof (intro conjI impI)
  assume a: "path_isAbsolute (process_cwd h) \<and> dir \<in> set allowed \<and> strict_descendant dir (canonical h p) \<and>
      (fs_realpath h (canonical h p) = Some (canonical h p) \<or>
       (fs_realpath h (canonical h p) = None \<and>
        (\<exists>d root. fs_realpath h (path_dirname (canonical h p)) = Some d \<and> root \<in> set allowed \<and>
           (normalizePath d = root \<or> strict_descendant root (normalizePath d)))))"
  then have ca: "canonical h p = absolute_of h p" by (simp add: canonical_absolute)
  have nn: "normalizePath (absolute_of h p) = absolute_of h p"
    using ca by (simp add: canonical_def)
  have al: "isAllowedIn allowed (absolute_of h p)"
    using a ca strict_descendant_allowed by auto
  from a consider
      (ex) "fs_realpath h (absolute_of h p) = Some (absolute_of h p)"
    | (new) d root where "fs_realpath h (absolute_of h p) = None"
        "fs_realpath h (path_dirname (absolute_of h p)) = Some d" "root \<in> set allowed"
        "normalizePath d = root \<or> strict_descendant root (normalizePath d)"
    using ca by auto
  then show "validatePath h allowed p = Inr (canonical h p)"
  proof cases
    case ex
    then show ?thesis using validatePath_existing [of allowed h p "absolute_of h p"] al nn ca by simp
  next
    case new
    have "startsWith (normalizePath d) root"
      using new(4) startsWith_with_sep [of "normalizePath d" root]
      by (auto simp: strict_descendant_def startsWith_iff)
    then have "isAllowedIn allowed (normalizePath d)"
      using new(3) by (auto simp: isAllowedIn_iff)
    then show ?thesis using new validatePath_new [of allowed h p d] al nn ca by simp
  qed
next
  assume "fs_realpath h ''/data/x.txt'' = Some ''/data/x.txt''"
  then show "validatePath h [''/data''] ''/data/../data/x.txt'' = Inr ''/data/x.txt''"
    using validatePath_existing [of "[''/data'']" h "''/data/../data/x.txt''" "''/data/x.txt''"]
    by (simp add: abs_x norm_x isAllowedIn_def)
next
  show "validatePath h [''/data''] ''/etc/passwd'' = Inl (AccessDeniedOutside ''/etc/passwd'' [''/data''])"
    using validatePath_outside [of "[''/data'']" h "''/etc/passwd''"]
    by (simp add: abs_passwd norm_passwd isAllowedIn_def)
qed

theorem validatePath_descendant_witness:
  "path_isAbsolute (process_cwd example_host) \<and>
   strict_descendant ''/data'' (canonical example_host ''/data/../data/x.txt'') \<and>
   fs_realpath example_host (canonical example_host ''/data/../data/x.txt'') =
     Some (canonical example_host ''/data/../data/x.txt'') \<and>
   validatePath example_host [''/data''] ''/data/../data/x.txt'' =
     Inr (canonical example_host ''/data/../data/x.txt'') \<and>
   canonical example_host ''/data/../data/x.txt'' = ''/data/x.txt'' \<and>
   strict_descendant ''/data'' (canonical example_host ''/data/new.txt'') \<and>
   fs_realpath example_host (canonical example_host ''/data/new.txt'') = None \<and>
   fs_realpath example_host (path_dirname (canonical example_host ''/data/new.txt'')) =
     Some ''/data'' \<and>
   normalizePath ''/data'' = ''/data'' \<and>
   validatePath example_host [''/data''] ''/data/new.txt'' =
     Inr (canonical example_host ''/data/new.txt'') \<and>
   canonical example_host ''/data/new.txt'' = ''/data/new.txt'' \<and>
   strict_descendant ''/home'' (canonical example_host ''/home/alice/new.txt'') \<and>
   fs_realpath example_host (canonical example_host ''/home/alice/new.txt'') = None \<and>
   fs_realpath example_host (path_dirname (canonical example_host ''/home/alice/new.txt'')) =
     Some ''/home/alice'' \<and>
   strict_descendant ''/home'' (normalizePath ''/home/alice'') \<and>
   validatePath example_host [''/home''] ''/home/alice/new.txt'' =
     Inr (canonical example_host ''/home/alice/new.txt'')"
proof -
  have a: "path_isAbsolute (process_cwd example_host)" by code_simp
  have b: "strict_descendant ''/data'' (canonical example_host ''/data/../data/x.txt'')"
    by code_simp
  have c: "fs_realpath example_host (canonical example_host ''/data/../data/x.txt'') =
     Some (canonical example_host ''/data/../data/x.txt'')" by code_simp
  have d: "''/data'' \<in> set [''/data'']" by simp
  have e: "validatePath example_host [''/data''] ''/data/../data/x.txt'' =
     Inr (canonical example_host ''/data/../data/x.txt'')"
    using validatePath_descendant
      [of example_host "''/data''" "[''/data'']" "''/data/../data/x.txt''"] a b c d
    by blast
  have f: "canonical example_host ''/data/../data/x.txt'' = ''/data/x.txt''" by code_simp
  have g: "strict_descendant ''/data'' (canonical example_host ''/data/new.txt'')" by code_simp
  have i: "fs_realpath example_host (canonical example_host ''/data/new.txt'') = None"
    by code_simp
  have j: "fs_realpath example_host (path_dirname (canonical example_host ''/data/new.txt'')) =
     Some ''/data''" by code_simp
  have k: "normalizePath ''/data'' = ''/data''" by code_simp
  have l: "validatePath example_host [''/data''] ''/data/new.txt'' =
     Inr (canonical example_host ''/data/new.txt'')"
    using validatePath_descendant
      [of example_host "''/data''" "[''/data'']" "''/data/new.txt''"] a g i j k d
    by blast
  have m: "canonical example_host ''/data/new.txt'' = ''/data/new.txt''" by code_simp
  have n: "strict_descendant ''/home'' (canonical example_host ''/home/alice/new.txt'')"
    by code_simp
  have o: "fs_realpath example_host (canonical example_host ''/home/alice/new.txt'') = None"
    by code_simp
  have q: "fs_realpath example_host
      (path_dirname (canonical example_host ''/home/alice/new.txt'')) =
     Some ''/home/alice''" by code_simp
  have r: "strict_descendant ''/home'' (normalizePath ''/home/alice'')" by code_simp
  have s: "''/home'' \<in> set [''/home'']" by simp
  have t: "validatePath example_host [''/home''] ''/home/alice/new.txt'' =
     Inr (canonical example_host ''/home/alice/new.txt'')"
    using validatePath_descendant
      [of example_host "''/home''" "[''/home'']" "''/home/alice/new.txt''"]
      a n o q r s
    by blast
  show ?thesis using a b c e f g i j k l m n o q r t by blast
qed

text \<open>
  Claim C4 as stated fails: \<^verbatim>\<open>/data/a/b\<close> lies strictly below the root \<^verbatim>\<open>/data\<close>, but neither
  it nor its parent exists on \<open>example_host\<close>, and the request is refused.
\<close>

theorem validatePath_descendant_counterexample:
  "strict_descendant ''/data'' (canonical example_host ''/data/a/b'') \<and>
   validatePath example_host [''/data''] ''/data/a/b'' =
     Inl (ParentDirectoryDoesNotExist ''/data/a'')"
  by code_simp


section \<open>The walk of \<^verbatim>\<open>searchFiles\<close>\<close>

subsection \<open>Children of a resolved path\<close>

lemma norm_segments_snoc:
  assumes "proper_name n"
  shows "norm_segments a (p @ ''/'' @ n) = norm_segments a p @ [n]"
proof -
  have "split_on CHR ''/'' (p @ CHR ''/'' # n) = split_on CHR ''/'' p @ [n]"
    using assms by (simp add: split_on_append split_on_free proper_name_def)
  then show ?thesis using assms
    by (simp add: norm_segments_def norm_step_def proper_name_def)
qed

lemma is_resolved_segments:
  assumes "is_resolved cur"
  shows "cur = ''/'' @ join_with ''/'' (norm_segments False cur)"
  using assms by (simp add: is_resolved_def normalizeString_def)

lemma path_join_child:
  assumes "is_resolved cur" "proper_name n"
  shows "path_join [cur, n] = (if cur = ''/'' then ''/'' @ n else cur @ ''/'' @ n)"
    and "is_resolved (path_join [cur, n])"
proof -
  define st where "st = norm_segments False cur"
  have cur: "cur = CHR ''/'' # join_with ''/'' st"
    using is_resolved_segments [OF assms(1)] by (simp add: st_def)
  have cl: "\<forall>s\<in>set st. proper_name s" unfolding st_def using norm_segments_proper by blast
  have cl': "\<forall>s\<in>set (st @ [n]). proper_name s" using cl assms(2) by simp
  have n0: "n \<noteq> []" "CHR ''/'' \<notin> set n" using assms(2) by (simp_all add: proper_name_def)
  then have "last n \<noteq> CHR ''/''" using last_in_set [of n] by metis
  with n0 have n: "n \<noteq> []" "last n \<noteq> CHR ''/''" by simp_all
  have segs: "norm_segments False (cur @ ''/'' @ n) = st @ [n]"
    using norm_segments_snoc [OF assms(2)] by (simp add: st_def)
  have ne: "join_with ''/'' (st @ [n]) \<noteq> []"
    using join_with_nonempty [of "st @ [n]"] cl' by (auto simp: proper_name_def)
  have c0: "cur \<noteq> []" "hd cur = CHR ''/''" by (subst cur, simp)+
  have "path_normalize (cur @ ''/'' @ n) = ''/'' @ join_with ''/'' (st @ [n])"
    using n ne c0 segs by (simp add: path_normalize_def normalizeString_def Let_def)
  then have j: "path_join [cur, n] = ''/'' @ join_with ''/'' (st @ [n])"
    using n c0 by (simp add: path_join_def)
  have stne: "st \<noteq> [] \<Longrightarrow> join_with ''/'' st \<noteq> []"
    using join_with_nonempty [of st] cl by (auto simp: proper_name_def)
  show "path_join [cur, n] = (if cur = ''/'' then ''/'' @ n else cur @ ''/'' @ n)"
  proof (cases "st = []")
    case True
    then show ?thesis using j cur by simp
  next
    case False
    then have "cur \<noteq> ''/''" using stne cur by auto
    then show ?thesis using j cur False by (simp add: join_with_snoc)
  qed
  show "is_resolved (path_join [cur, n])"
    using norm_segments_of_abs [OF cl', of False] j
    by (simp add: is_resolved_def normalizeString_def)
qed

lemma is_resolved_last:
  assumes "is_resolved cur" "cur \<noteq> ''/''"
  shows "last cur \<noteq> CHR ''/''"
proof -
  define st where "st = norm_segments False cur"
  have cur: "cur = CHR ''/'' # join_with ''/'' st"
    using is_resolved_segments [OF assms(1)] by (simp add: st_def)
  have cl: "\<forall>s\<in>set st. proper_name s" unfolding st_def using norm_segments_proper by blast
  have stne: "st \<noteq> []" using assms(2) cur by auto
  then have ne: "join_with ''/'' st \<noteq> []"
    using join_with_nonempty [of st] cl by (auto simp: proper_name_def)
  have "last st \<in> set st" using stne by simp
  then have "proper_name (last st)" using cl by blast
  then have "last st \<noteq> []" "CHR ''/'' \<notin> set (last st)" by (simp_all add: proper_name_def)
  then have "last (last st) \<noteq> CHR ''/''" using last_in_set [of "last st"] by metis
  then have "last (join_with ''/'' st) \<noteq> CHR ''/''"
    using join_with_last [of st "''/''"] stne cl by (auto simp: proper_name_def)
  then show ?thesis using cur ne by (metis last_ConsR)
qed

lemma child_strict_descendant:
  assumes "is_resolved cur" "proper_name n"
  shows "strict_descendant cur (path_join [cur, n])"
proof (cases "cur = ''/''")
  case True
  then show ?thesis using assms path_join_child(1) [OF assms]
    by (auto simp: strict_descendant_def with_sep_def proper_name_def)
next
  case False
  have "cur \<noteq> []" using is_resolved_segments [OF assms(1)] by auto
  then have ws: "with_sep cur = cur @ ''/''"
    using is_resolved_last [OF assms(1) False] by (simp add: with_sep_def)
  show ?thesis using False assms(2) path_join_child(1) [OF assms]
    by (auto simp: strict_descendant_def ws proper_name_def startsWith_iff)
qed

lemma strict_descendant_trans:
  assumes "strict_descendant a b" "strict_descendant b c"
  shows "strict_descendant a c"
proof -
  obtain u where u: "b = with_sep a @ u" "u \<noteq> []"
    using assms(1) by (auto simp: strict_descendant_def startsWith_iff)
  obtain t where t: "c = with_sep b @ t"
    using assms(2) by (auto simp: strict_descendant_def startsWith_iff)
  have "\<exists>v. with_sep b = b @ v" by (auto simp: with_sep_def)
  then obtain v where "with_sep b = b @ v" by blast
  then have "c = with_sep a @ (u @ v @ t)" using u t by simp
  then show ?thesis using u by (auto simp: strict_descendant_def startsWith_iff)
qed

subsection \<open>The results array only grows\<close>


lemma search_acc:
  "\<forall>rs. snd (search mm h allowed rq cur node rs) = rs @ snd (search mm h allowed rq cur node [])"
  "\<forall>rs. search_entries mm h allowed rq cur es rs = rs @ search_entries mm h allowed rq cur es []"
proof (induct mm h allowed rq cur node "d1::string list" and mm h allowed rq cur es "d2::string list"
       rule: search_search_entries.induct)
  case (1 mm h allowed rq currentPath node results)
  show ?case
  proof (cases "readdir node")
    case None
    then show ?thesis by simp
  next
    case (Some es)
    have e: "\<And>rs. snd (search mm h allowed rq currentPath node rs) =
        search_entries mm h allowed rq currentPath es rs"
      using Some by simp
    show ?thesis unfolding e using 1 [OF Some] by blast
  qed
next
  case (2 mm h allowed rq currentPath results)
  show ?case by simp
next
  case (3 mm h allowed rq currentPath entry rest results)
  show ?case
  proof
    fix rs
    let ?full = "path_join [currentPath, fst entry]"
    let ?body = "\<lambda>rs. (case validatePath h allowed ?full of
             Inl err \<Rightarrow> rs
           | Inr validated \<Rightarrow>
               if shouldExclude mm h rq ?full then rs
               else
                 (let results' =
                        (if mm (fst entry) (sr_pattern rq) \<lparr>opt_dot = False, opt_nocase = True\<rparr>
                         then rs @ [?full] else rs)
                  in if isDirectory (snd entry)
                     then snd (search mm h allowed rq ?full (snd entry) results')
                     else results'))"
    have step: "\<And>rs. search_entries mm h allowed rq currentPath (entry # rest) rs =
        search_entries mm h allowed rq currentPath rest (?body rs)"
      by (simp add: Let_def del: search.simps)
    have rest: "\<And>rs. search_entries mm h allowed rq currentPath rest rs =
        rs @ search_entries mm h allowed rq currentPath rest []"
      using 3(2) by blast
    have body: "?body rs = rs @ ?body []"
    proof (cases "validatePath h allowed ?full")
      case (Inl a)
      then show ?thesis by simp
    next
      case (Inr v)
      let ?X = "if mm (fst entry) (sr_pattern rq) \<lparr>opt_dot = False, opt_nocase = True\<rparr>
                then [?full] else []"
      show ?thesis
      proof (cases "shouldExclude mm h rq ?full")
        case True
        then show ?thesis using Inr by simp
      next
        case ne: False
        show ?thesis
        proof (cases "isDirectory (snd entry)")
          case False
          then show ?thesis using Inr ne by (simp add: Let_def del: search.simps)
        next
          case True
          have sub: "\<And>r. snd (search mm h allowed rq ?full (snd entry) r) =
              r @ snd (search mm h allowed rq ?full (snd entry) [])"
            using 3(1) [OF refl Inr ne refl True] by blast
          have b1: "?body rs = snd (search mm h allowed rq ?full (snd entry) (rs @ ?X))"
            using Inr ne True by (simp add: Let_def del: search.simps)
          have b2: "?body [] = snd (search mm h allowed rq ?full (snd entry) ?X)"
            using Inr ne True by (simp add: Let_def del: search.simps)
          show ?thesis unfolding b1 b2
            by (subst sub, subst (2) sub) simp
        qed
      qed
    qed
    show "search_entries mm h allowed rq currentPath (entry # rest) rs =
        rs @ search_entries mm h allowed rq currentPath (entry # rest) []"
      unfolding step
      by (subst rest, subst (2) rest, subst body) simp
  qed
qed

subsection \<open>What the loop computes\<close>

lemma search_entries_Cons:
  "search_entries mm h allowed rq cur (entry # rest) [] =
     entry_found mm h allowed rq cur entry @ search_entries mm h allowed rq cur rest []"
proof -
  let ?full = "path_join [cur, fst entry]"
  have sub: "\<And>r. snd (search mm h allowed rq ?full (snd entry) r) =
      r @ snd (search mm h allowed rq ?full (snd entry) [])"
    using search_acc(1) by blast
  have rest: "\<And>r. search_entries mm h allowed rq cur rest r =
      r @ search_entries mm h allowed rq cur rest []"
    using search_acc(2) by blast
  show ?thesis
    apply (simp add: Let_def entry_found_def del: search.simps split: sum.splits)
    apply (intro conjI impI allI)
         apply (subst rest, subst sub, simp)
        apply (subst rest, simp)
       apply (subst rest, subst sub, simp)
    done
qed

lemma search_entries_Nil: "search_entries mm h allowed rq cur [] [] = []"
  by simp

lemma search_entries_append:
  "search_entries mm h allowed rq cur (es1 @ es2) [] =
     search_entries mm h allowed rq cur es1 [] @ search_entries mm h allowed rq cur es2 []"
  by (induction es1) (simp_all add: search_entries_Cons del: search_entries.simps(2))

lemma search_Dir:
  "search mm h allowed rq cur (Dir es) rs = (None, search_entries mm h allowed rq cur es rs)"
  by simp

lemma search_not_Dir:
  "readdir node = None \<Longrightarrow> search mm h allowed rq cur node rs = (Some (ReaddirFailed cur), rs)"
  by simp

lemma strict_descendant_neq: "strict_descendant r p \<Longrightarrow> p \<noteq> r"
  by (auto simp: strict_descendant_def with_sep_def startsWith_iff split: if_splits)

lemma search_below:
  "is_resolved cur \<longrightarrow> proper_tree node \<longrightarrow>
     (\<forall>p\<in>set (snd (search mm h allowed rq cur node [])). strict_descendant cur p)"
  "is_resolved cur \<longrightarrow> proper_entries es \<longrightarrow>
     (\<forall>p\<in>set (search_entries mm h allowed rq cur es []). strict_descendant cur p)"
proof (induct mm h allowed rq cur node "d1::string list" and mm h allowed rq cur es "d2::string list"
       rule: search_search_entries.induct)
  case (1 mm h allowed rq currentPath node results)
  show ?case
  proof (cases node)
    case (Dir es)
    then show ?thesis using 1 [of es] by simp
  qed simp_all
next
  case (2 mm h allowed rq currentPath results)
  show ?case by simp
next
  case (3 mm h allowed rq currentPath entry rest results)
  show ?case
  proof (intro impI ballI)
    fix p
    assume res: "is_resolved currentPath" and pe: "proper_entries (entry # rest)"
      and p: "p \<in> set (search_entries mm h allowed rq currentPath (entry # rest) [])"
    let ?full = "path_join [currentPath, fst entry]"
    have pn: "proper_name (fst entry)" "proper_tree (snd entry)" "proper_entries rest"
      using pe by simp_all
    have child: "strict_descendant currentPath ?full" "is_resolved ?full"
      using child_strict_descendant [OF res pn(1)] path_join_child(2) [OF res pn(1)] by simp_all
    from p consider (here) "p \<in> set (entry_found mm h allowed rq currentPath entry)"
      | (later) "p \<in> set (search_entries mm h allowed rq currentPath rest [])"
      by (auto simp: search_entries_Cons simp del: search_entries.simps)
    then show "strict_descendant currentPath p"
    proof cases
      case later
      then show ?thesis using 3(2) res pn(3) by blast
    next
      case here
      have "\<exists>v. validatePath h allowed ?full = Inr v"
        using here by (cases "validatePath h allowed ?full") (auto simp: entry_found_def Let_def simp del: search.simps)
      then obtain v where v: "validatePath h allowed ?full = Inr v" by blast
      have ne: "\<not> shouldExclude mm h rq ?full"
        using here v by (auto simp: entry_found_def Let_def simp del: search.simps split: if_splits)
      have pin: "p = ?full \<or> (isDirectory (snd entry) \<and>
                    p \<in> set (snd (search mm h allowed rq ?full (snd entry) [])))"
        using here v ne by (auto simp: entry_found_def Let_def simp del: search.simps split: if_splits)
      from pin show ?thesis
      proof
        assume "p = ?full"
        then show ?thesis using child(1) by simp
      next
        assume a: "isDirectory (snd entry) \<and>
                    p \<in> set (snd (search mm h allowed rq ?full (snd entry) []))"
        have "strict_descendant ?full p"
          using 3(1) [OF refl v ne refl] a child(2) pn(2) by blast
        then show ?thesis using strict_descendant_trans [OF child(1)] by blast
      qed
    qed
  qed
qed

subsection \<open>Entries that pass \<^verbatim>\<open>validatePath\<close>\<close>

lemma child_allowed:
  assumes "is_resolved cur" "proper_name n" "isAllowedIn allowed cur"
  shows "isAllowedIn allowed (path_join [cur, n])"
proof -
  have "startsWith (path_join [cur, n]) cur"
    using path_join_child(1) [OF assms(1,2)] by (auto simp: startsWith_iff)
  then show ?thesis using assms(3) startsWith_trans by (auto simp: isAllowedIn_iff)
qed

lemma validatePath_child:
  assumes "is_resolved cur" "proper_name n" "isAllowedIn allowed cur"
    and "fs_realpath h (path_join [cur, n]) = Some (path_join [cur, n])"
  shows "validatePath h allowed (path_join [cur, n]) = Inr (path_join [cur, n])"
  using validatePath_resolved [OF path_join_child(2) [OF assms(1,2)] child_allowed [OF assms(1,2,3)] assms(4)] .

lemma no_excludes: "sr_excludePatterns rq = [] \<Longrightarrow> \<not> shouldExclude mm h rq p"
  by (simp add: shouldExclude_def Let_def)

lemma mm_png:
  "minimatch ''a.png'' ''*.png'' \<lparr>opt_dot = False, opt_nocase = True\<rparr>"
  "minimatch ''b.png'' ''*.png'' \<lparr>opt_dot = False, opt_nocase = True\<rparr>"
  "\<not> minimatch ''c.txt'' ''*.png'' \<lparr>opt_dot = False, opt_nocase = True\<rparr>"
  "\<not> minimatch ''sub'' ''*.png'' \<lparr>opt_dot = False, opt_nocase = True\<rparr>"
  "minimatch ''A.PNG'' ''*.png'' \<lparr>opt_dot = False, opt_nocase = True\<rparr>"
  by code_simp+

lemma proper_names: "proper_name ''a.png''" "proper_name ''sub''" "proper_name ''b.png''" "proper_name ''c.txt''"
  by code_simp+

lemma found_file:
  assumes "validatePath h allowed (path_join [cur, n]) = Inr v" "sr_excludePatterns rq = []"
  shows "entry_found mm h allowed rq cur (n, File) =
     (if mm n (sr_pattern rq) \<lparr>opt_dot = False, opt_nocase = True\<rparr> then [path_join [cur, n]] else [])"
  using assms by (simp add: entry_found_def no_excludes Let_def)

lemma found_dir:
  assumes "validatePath h allowed (path_join [cur, n]) = Inr v" "sr_excludePatterns rq = []"
  shows "entry_found mm h allowed rq cur (n, Dir es) =
     (if mm n (sr_pattern rq) \<lparr>opt_dot = False, opt_nocase = True\<rparr> then [path_join [cur, n]] else []) @
     search_entries mm h allowed rq (path_join [cur, n]) es []"
  using assms by (simp add: entry_found_def no_excludes Let_def)


lemma searchFiles_Dir:
  "searchFiles mm h allowed (Dir es) root pat excludes =
     Inr (search_entries mm h allowed
            \<lparr>sr_rootPath = root, sr_pattern = pat, sr_excludePatterns = excludes\<rparr> root es [])"
  by (simp add: searchFiles_def)

lemma png_search:
  assumes root: "is_resolved root" "isAllowedIn allowed root"
    and real: "\<forall>q\<in>set [path_join [root, ''a.png''], path_join [root, ''sub''],
                  path_join [path_join [root, ''sub''], ''b.png''],
                  path_join [path_join [root, ''sub''], ''c.txt'']]. fs_realpath h q = Some q"
    and sub: "subes = [(''b.png'', File), (''c.txt'', File)] \<or> subes = [(''c.txt'', File), (''b.png'', File)]"
  shows "searchFiles minimatch h allowed (Dir [(''a.png'', File), (''sub'', Dir subes)]) root ''*.png'' [] =
           Inr [path_join [root, ''a.png''], path_join [path_join [root, ''sub''], ''b.png'']]"
    and "searchFiles minimatch h allowed (Dir [(''sub'', Dir subes), (''a.png'', File)]) root ''*.png'' [] =
           Inr [path_join [path_join [root, ''sub''], ''b.png''], path_join [root, ''a.png'']]"
proof -
  let ?rq = "\<lparr>sr_rootPath = root, sr_pattern = ''*.png'', sr_excludePatterns = []\<rparr>"
  let ?S = "path_join [root, ''sub'']"
  have S: "is_resolved ?S" "isAllowedIn allowed ?S"
    using path_join_child(2) [OF root(1) proper_names(2)] child_allowed [OF root(1) proper_names(2) root(2)]
    by simp_all
  have va: "validatePath h allowed (path_join [root, ''a.png'']) = Inr (path_join [root, ''a.png''])"
    using validatePath_child [OF root(1) proper_names(1) root(2)] real by simp
  have vs: "validatePath h allowed ?S = Inr ?S"
    using validatePath_child [OF root(1) proper_names(2) root(2)] real by simp
  have vb: "validatePath h allowed (path_join [?S, ''b.png'']) = Inr (path_join [?S, ''b.png''])"
    using validatePath_child [OF S(1) proper_names(3) S(2)] real by simp
  have vc: "validatePath h allowed (path_join [?S, ''c.txt'']) = Inr (path_join [?S, ''c.txt''])"
    using validatePath_child [OF S(1) proper_names(4) S(2)] real by simp
  have fa: "entry_found minimatch h allowed ?rq root (''a.png'', File) = [path_join [root, ''a.png'']]"
    using found_file [OF va, of ?rq minimatch] mm_png by simp
  have fb: "entry_found minimatch h allowed ?rq ?S (''b.png'', File) = [path_join [?S, ''b.png'']]"
    using found_file [OF vb, of ?rq minimatch] mm_png by simp
  have fc: "entry_found minimatch h allowed ?rq ?S (''c.txt'', File) = []"
    using found_file [OF vc, of ?rq minimatch] mm_png by simp
  have inner: "search_entries minimatch h allowed ?rq ?S subes [] = [path_join [?S, ''b.png'']]"
    using sub by (auto simp: search_entries_Cons fb fc simp del: search_entries.simps(2))
  have fs: "entry_found minimatch h allowed ?rq root (''sub'', Dir subes) = [path_join [?S, ''b.png'']]"
    using found_dir [OF vs, of ?rq minimatch subes] mm_png inner by simp
  show "searchFiles minimatch h allowed (Dir [(''a.png'', File), (''sub'', Dir subes)]) root ''*.png'' [] =
           Inr [path_join [root, ''a.png''], path_join [path_join [root, ''sub''], ''b.png'']]"
    by (simp add: searchFiles_Dir search_entries_Cons fa fs del: search_entries.simps(2))
  show "searchFiles minimatch h allowed (Dir [(''sub'', Dir subes), (''a.png'', File)]) root ''*.png'' [] =
           Inr [path_join [path_join [root, ''sub''], ''b.png''], path_join [root, ''a.png'']]"
    by (simp add: searchFiles_Dir search_entries_Cons fa fs del: search_entries.simps(2))
qed

subsection \<open>Claims about \<^verbatim>\<open>searchFiles\<close>\<close>

text \<open>
  Claim C7: for every search root whose tree holds exactly \<^verbatim>\<open>a.png\<close>, \<^verbatim>\<open>sub/b.png\<close> and
  \<^verbatim>\<open>sub/c.txt\<close>, the search for \<^verbatim>\<open>*.png\<close> without excludes returns exactly \<^verbatim>\<open>a.png\<close> and
  \<^verbatim>\<open>sub/b.png\<close> in depth-first pre-order, whichever order the directory listings come in;
  the include pattern is matched without regard to case against the entry's own name, and
  a directory that passes the exclude check is descended into whether or not its own name
  matched. The root is a resolved path inside an allowed directory and the four entries are
  their own real paths.
\<close>

theorem searchFiles_png_tree:
  "(is_resolved root \<and> isAllowedIn allowed root \<and>
    (\<forall>q\<in>set [path_join [root, ''a.png''], path_join [root, ''sub''],
               path_join [path_join [root, ''sub''], ''b.png''],
               path_join [path_join [root, ''sub''], ''c.txt'']]. fs_realpath h q = Some q) \<and>
    (subes = [(''b.png'', File), (''c.txt'', File)] \<or>
     subes = [(''c.txt'', File), (''b.png'', File)])
    \<longrightarrow>
      searchFiles minimatch h allowed (Dir [(''a.png'', File), (''sub'', Dir subes)])
          root ''*.png'' [] =
        Inr [path_join [root, ''a.png''], path_join [path_join [root, ''sub''], ''b.png'']] \<and>
      searchFiles minimatch h allowed (Dir [(''sub'', Dir subes), (''a.png'', File)])
          root ''*.png'' [] =
        Inr [path_join [path_join [root, ''sub''], ''b.png''], path_join [root, ''a.png'']]) \<and>
   (validatePath h allowed (path_join [cur, n]) = Inr v \<and>
    \<not> shouldExclude mm h rq (path_join [cur, n])
    \<longrightarrow>
      search_entries mm h allowed rq cur ((n, node) # rest) [] =
        (if mm n (sr_pattern rq) \<lparr>opt_dot = False, opt_nocase = True\<rparr>
         then [path_join [cur, n]] else []) @
        (if isDirectory node
         then snd (search mm h allowed rq (path_join [cur, n]) node []) else []) @
        search_entries mm h allowed rq cur rest []) \<and>
   minimatch ''A.PNG'' ''*.png'' \<lparr>opt_dot = False, opt_nocase = True\<rparr>"
proof (intro conjI impI)
  assume a: "is_resolved root \<and> isAllowedIn allowed root \<and>
    (\<forall>q\<in>set [path_join [root, ''a.png''], path_join [root, ''sub''],
               path_join [path_join [root, ''sub''], ''b.png''],
               path_join [path_join [root, ''sub''], ''c.txt'']]. fs_realpath h q = Some q) \<and>
    (subes = [(''b.png'', File), (''c.txt'', File)] \<or>
     subes = [(''c.txt'', File), (''b.png'', File)])"
  then have r: "is_resolved root" "isAllowedIn allowed root"
    and real: "\<forall>q\<in>set [path_join [root, ''a.png''], path_join [root, ''sub''],
               path_join [path_join [root, ''sub''], ''b.png''],
               path_join [path_join [root, ''sub''], ''c.txt'']]. fs_realpath h q = Some q"
    and sub: "subes = [(''b.png'', File), (''c.txt'', File)] \<or>
              subes = [(''c.txt'', File), (''b.png'', File)]"
    by blast+
  show "searchFiles minimatch h allowed (Dir [(''a.png'', File), (''sub'', Dir subes)])
          root ''*.png'' [] =
        Inr [path_join [root, ''a.png''], path_join [path_join [root, ''sub''], ''b.png'']]"
    using png_search(1) [OF r real sub] .
  show "searchFiles minimatch h allowed (Dir [(''sub'', Dir subes), (''a.png'', File)])
          root ''*.png'' [] =
        Inr [path_join [path_join [root, ''sub''], ''b.png''], path_join [root, ''a.png'']]"
    using png_search(2) [OF r real sub] .
next
  assume "validatePath h allowed (path_join [cur, n]) = Inr v \<and>
    \<not> shouldExclude mm h rq (path_join [cur, n])"
  then show "search_entries mm h allowed rq cur ((n, node) # rest) [] =
        (if mm n (sr_pattern rq) \<lparr>opt_dot = False, opt_nocase = True\<rparr>
         then [path_join [cur, n]] else []) @
        (if isDirectory node
         then snd (search mm h allowed rq (path_join [cur, n]) node []) else []) @
        search_entries mm h allowed rq cur rest []"
    by (simp add: search_entries_Cons entry_found_def Let_def
        del: search_entries.simps(2) search.simps)
next
  show "minimatch ''A.PNG'' ''*.png'' \<lparr>opt_dot = False, opt_nocase = True\<rparr>"
    by (rule mm_png(5))
qed

theorem searchFiles_png_tree_witness:
  "is_resolved ''/data'' \<and> isAllowedIn [''/data''] ''/data'' \<and>
   fs_realpath plain_host (path_join [''/data'', ''a.png'']) = Some (path_join [''/data'', ''a.png'']) \<and>
   fs_realpath plain_host (path_join [''/data'', ''sub'']) = Some (path_join [''/data'', ''sub'']) \<and>
   fs_realpath plain_host (path_join [path_join [''/data'', ''sub''], ''b.png'']) =
     Some (path_join [path_join [''/data'', ''sub''], ''b.png'']) \<and>
   fs_realpath plain_host (path_join [path_join [''/data'', ''sub''], ''c.txt'']) =
     Some (path_join [path_join [''/data'', ''sub''], ''c.txt'']) \<and>
   searchFiles minimatch plain_host [''/data'']
       (Dir [(''a.png'', File), (''sub'', Dir [(''b.png'', File), (''c.txt'', File)])])
       ''/data'' ''*.png'' [] =
     Inr [path_join [''/data'', ''a.png''], path_join [path_join [''/data'', ''sub''], ''b.png'']] \<and>
   [path_join [''/data'', ''a.png''], path_join [path_join [''/data'', ''sub''], ''b.png'']] =
     [''/data/a.png'', ''/data/sub/b.png'']"
proof -
  have a: "is_resolved ''/data''" by code_simp
  have b: "isAllowedIn [''/data''] ''/data''" by code_simp
  have c1: "fs_realpath plain_host (path_join [''/data'', ''a.png'']) =
      Some (path_join [''/data'', ''a.png''])" by code_simp
  have c2: "fs_realpath plain_host (path_join [''/data'', ''sub'']) =
      Some (path_join [''/data'', ''sub''])" by code_simp
  have c3: "fs_realpath plain_host (path_join [path_join [''/data'', ''sub''], ''b.png'']) =
     Some (path_join [path_join [''/data'', ''sub''], ''b.png''])" by code_simp
  have c4: "fs_realpath plain_host (path_join [path_join [''/data'', ''sub''], ''c.txt'']) =
     Some (path_join [path_join [''/data'', ''sub''], ''c.txt''])" by code_simp
  have c: "\<forall>q\<in>set [path_join [''/data'', ''a.png''], path_join [''/data'', ''sub''],
              path_join [path_join [''/data'', ''sub''], ''b.png''],
              path_join [path_join [''/data'', ''sub''], ''c.txt'']].
        fs_realpath plain_host q = Some q" using c1 c2 c3 c4 by simp
  have d: "[path_join [''/data'', ''a.png''], path_join [path_join [''/data'', ''sub''], ''b.png'']] =
     [''/data/a.png'', ''/data/sub/b.png'']" by code_simp
  have e: "searchFiles minimatch plain_host [''/data'']
       (Dir [(''a.png'', File), (''sub'', Dir [(''b.png'', File), (''c.txt'', File)])])
       ''/data'' ''*.png'' [] =
     Inr [path_join [''/data'', ''a.png''], path_join [path_join [''/data'', ''sub''], ''b.png'']]"
    using searchFiles_png_tree
      [where root = "''/data''" and allowed = "[''/data'']" and h = plain_host
         and subes = "[(''b.png'', File), (''c.txt'', File)]"] a b c
    by blast
  show ?thesis using a b c1 c2 c3 c4 d e by blast
qed

text \<open>
  Claim C8: the search for \<^verbatim>\<open>*\<close> with the exclude pattern \<^verbatim>\<open>node_modules\<close> never descends into
  and never returns an entry of a \<^verbatim>\<open>node_modules\<close> subtree. The code does not do this. The
  pattern becomes \<^verbatim>\<open>**/node_modules/**\<close>, which matches paths that go on after the
  \<^verbatim>\<open>node_modules\<close> segment but not the path \<^verbatim>\<open>node_modules\<close> itself: the directory is
  returned and read, and only the entries inside it are skipped.
\<close>

theorem searchFiles_node_modules:
  "globPattern ''node_modules'' = ''**/node_modules/**'' \<and>
   \<not> minimatch ''node_modules'' ''**/node_modules/**'' \<lparr>opt_dot = True, opt_nocase = False\<rparr> \<and>
   minimatch ''node_modules/pkg'' ''**/node_modules/**'' \<lparr>opt_dot = True, opt_nocase = False\<rparr> \<and>
   searchFiles minimatch plain_host [''/data''] modules_tree ''/data'' ''*'' [''node_modules''] =
     Inr [''/data/node_modules'', ''/data/main.js'']"
  by code_simp

text \<open>
  What the exclude check does achieve, for any matcher: an entry whose relative path an
  exclude pattern matches adds nothing, neither itself nor anything below it.
\<close>

lemma excluded_entry_skipped:
  "shouldExclude mm h rq (path_join [cur, fst entry]) \<Longrightarrow>
   search_entries mm h allowed rq cur (entry # rest) results =
     search_entries mm h allowed rq cur rest results"
  by (simp add: Let_def del: search.simps split: sum.splits)

text \<open>
  Claim C9, as amended: during a search a failure on one visited entry is local and the
  walk goes on. An entry that \<^verbatim>\<open>validatePath\<close> rejects is skipped with its subtree. A
  directory entry whose listing cannot be read has its subtree skipped, while the entry
  itself has by then been tested against the include pattern and is returned when it
  matches. Whatever the entries below a readable root do, \<^verbatim>\<open>searchFiles\<close> returns a result
  that keeps everything found before. A rejection of the top-level path by \<^verbatim>\<open>validatePath\<close>,
  or a failure to read the directory there, is returned to the caller as an error.
\<close>

theorem search_failure_local:
  "(validatePath h allowed (path_join [cur, fst entry]) = Inl err \<longrightarrow>
      search_entries mm h allowed rq cur (entry # rest) results =
        search_entries mm h allowed rq cur rest results) \<and>
   (validatePath h allowed (path_join [cur, fst entry]) = Inr v \<and>
    \<not> shouldExclude mm h rq (path_join [cur, fst entry]) \<and>
    isDirectory (snd entry) \<and> readdir (snd entry) = None \<longrightarrow>
      search_entries mm h allowed rq cur (entry # rest) results =
        search_entries mm h allowed rq cur rest
          (if mm (fst entry) (sr_pattern rq) \<lparr>opt_dot = False, opt_nocase = True\<rparr>
           then results @ [path_join [cur, fst entry]] else results)) \<and>
   search_entries mm h allowed rq cur es results =
     results @ search_entries mm h allowed rq cur es [] \<and>
   (readdir tree = Some es \<longrightarrow>
      searchFiles mm h allowed tree root pat excludes =
        Inr (search_entries mm h allowed
               \<lparr>sr_rootPath = root, sr_pattern = pat, sr_excludePatterns = excludes\<rparr> root es [])) \<and>
   (validatePath h allowed path = Inl err \<longrightarrow>
      search_files_tool mm h allowed fs_at path pat excl = Inl err) \<and>
   (validatePath h allowed path = Inr v \<and> readdir (fs_at v) = None \<longrightarrow>
      search_files_tool mm h allowed fs_at path pat excl = Inl (ReaddirFailed v))"
proof (intro conjI impI)
  assume "validatePath h allowed (path_join [cur, fst entry]) = Inl err"
  then show "search_entries mm h allowed rq cur (entry # rest) results =
        search_entries mm h allowed rq cur rest results"
    by (simp add: Let_def del: search.simps)
next
  assume "validatePath h allowed (path_join [cur, fst entry]) = Inr v \<and>
    \<not> shouldExclude mm h rq (path_join [cur, fst entry]) \<and>
    isDirectory (snd entry) \<and> readdir (snd entry) = None"
  then show "search_entries mm h allowed rq cur (entry # rest) results =
        search_entries mm h allowed rq cur rest
          (if mm (fst entry) (sr_pattern rq) \<lparr>opt_dot = False, opt_nocase = True\<rparr>
           then results @ [path_join [cur, fst entry]] else results)"
    by (simp add: Let_def)
next
  show "search_entries mm h allowed rq cur es results =
     results @ search_entries mm h allowed rq cur es []"
    using search_acc(2) by blast
next
  assume "readdir tree = Some es"
  then show "searchFiles mm h allowed tree root pat excludes =
        Inr (search_entries mm h allowed
               \<lparr>sr_rootPath = root, sr_pattern = pat, sr_excludePatterns = excludes\<rparr> root es [])"
    by (simp add: searchFiles_def)
next
  assume "validatePath h allowed path = Inl err"
  then show "search_files_tool mm h allowed fs_at path pat excl = Inl err"
    by (simp add: search_files_tool_def)
next
  assume "validatePath h allowed path = Inr v \<and> readdir (fs_at v) = None"
  then show "search_files_tool mm h allowed fs_at path pat excl = Inl (ReaddirFailed v)"
    by (simp add: search_files_tool_def searchFiles_def Let_def)
qed

theorem search_failure_local_witness:
  "validatePath example_host [''/data''] (path_join [''/data/etc-link'', ''passwd'']) =
     Inl (ParentDirectoryDoesNotExist ''/data/etc-link'') \<and>
   search_entries minimatch example_host [''/data'']
       \<lparr>sr_rootPath = ''/data'', sr_pattern = ''*'', sr_excludePatterns = []\<rparr>
       ''/data/etc-link'' [(''passwd'', File), (''x.txt'', File)] [] =
     search_entries minimatch example_host [''/data'']
       \<lparr>sr_rootPath = ''/data'', sr_pattern = ''*'', sr_excludePatterns = []\<rparr>
       ''/data/etc-link'' [(''x.txt'', File)] [] \<and>
   readdir locked_tree = Some [(''priv'', LockedDir), (''a.png'', File)] \<and>
   searchFiles minimatch plain_host [''/data''] locked_tree ''/data'' ''*'' [] =
     Inr (search_entries minimatch plain_host [''/data'']
            \<lparr>sr_rootPath = ''/data'', sr_pattern = ''*'', sr_excludePatterns = []\<rparr>
            ''/data'' [(''priv'', LockedDir), (''a.png'', File)] []) \<and>
   validatePath example_host [''/data''] ''/etc/passwd'' =
     Inl (AccessDeniedOutside ''/etc/passwd'' [''/data'']) \<and>
   search_files_tool minimatch example_host [''/data''] (\<lambda>p. File) ''/etc/passwd'' ''*'' None =
     Inl (AccessDeniedOutside ''/etc/passwd'' [''/data'']) \<and>
   validatePath plain_host [''/data''] ''/data/x.txt'' = Inr ''/data/x.txt'' \<and>
   readdir File = None \<and>
   search_files_tool minimatch plain_host [''/data''] (\<lambda>p. File) ''/data/x.txt'' ''*'' None =
     Inl (ReaddirFailed ''/data/x.txt'')"
proof -
  have a: "validatePath example_host [''/data''] (path_join [''/data/etc-link'', fst (''passwd'', File)]) =
     Inl (ParentDirectoryDoesNotExist ''/data/etc-link'')" by code_simp
  have b: "readdir locked_tree = Some [(''priv'', LockedDir), (''a.png'', File)]"
    by (simp add: locked_tree_def)
  have c: "validatePath example_host [''/data''] ''/etc/passwd'' =
     Inl (AccessDeniedOutside ''/etc/passwd'' [''/data''])" by code_simp
  have d: "validatePath plain_host [''/data''] ''/data/x.txt'' = Inr ''/data/x.txt''" by code_simp
  have e: "readdir ((\<lambda>p. File) ''/data/x.txt'') = None" by simp
  note t1 = search_failure_local
    [where h = example_host and allowed = "[''/data'']" and cur = "''/data/etc-link''"
       and entry = "(''passwd'', File)" and err = "ParentDirectoryDoesNotExist ''/data/etc-link''"
       and mm = minimatch
       and rq = "\<lparr>sr_rootPath = ''/data'', sr_pattern = ''*'', sr_excludePatterns = []\<rparr>"
       and rest = "[(''x.txt'', File)]" and results = "[]"]
  note t2 = search_failure_local
    [where h = plain_host and allowed = "[''/data'']" and mm = minimatch and tree = locked_tree
       and es = "[(''priv'', LockedDir), (''a.png'', File)]" and root = "''/data''"
       and pat = "''*''" and excludes = "[]"]
  note t3 = search_failure_local
    [where h = example_host and allowed = "[''/data'']" and mm = minimatch
       and err = "AccessDeniedOutside ''/etc/passwd'' [''/data'']" and pat = "''*''"
       and path = "''/etc/passwd''" and fs_at = "\<lambda>p. File" and excl = None]
  note t4 = search_failure_local
    [where h = plain_host and allowed = "[''/data'']" and mm = minimatch
       and v = "''/data/x.txt''" and pat = "''*''"
       and path = "''/data/x.txt''" and fs_at = "\<lambda>p. File" and excl = None]
  have r1: "search_entries minimatch example_host [''/data'']
       \<lparr>sr_rootPath = ''/data'', sr_pattern = ''*'', sr_excludePatterns = []\<rparr>
       ''/data/etc-link'' [(''passwd'', File), (''x.txt'', File)] [] =
     search_entries minimatch example_host [''/data'']
       \<lparr>sr_rootPath = ''/data'', sr_pattern = ''*'', sr_excludePatterns = []\<rparr>
       ''/data/etc-link'' [(''x.txt'', File)] []"
    using t1 a by blast
  have r2: "searchFiles minimatch plain_host [''/data''] locked_tree ''/data'' ''*'' [] =
     Inr (search_entries minimatch plain_host [''/data'']
            \<lparr>sr_rootPath = ''/data'', sr_pattern = ''*'', sr_excludePatterns = []\<rparr>
            ''/data'' [(''priv'', LockedDir), (''a.png'', File)] [])"
    using t2 b by blast
  have r3: "search_files_tool minimatch example_host [''/data''] (\<lambda>p. File) ''/etc/passwd'' ''*'' None =
     Inl (AccessDeniedOutside ''/etc/passwd'' [''/data''])"
    using t3 c by blast
  have r4: "search_files_tool minimatch plain_host [''/data''] (\<lambda>p. File) ''/data/x.txt'' ''*'' None =
     Inl (ReaddirFailed ''/data/x.txt'')"
    using t4 d e by blast
  have a': "validatePath example_host [''/data''] (path_join [''/data/etc-link'', ''passwd'']) =
     Inl (ParentDirectoryDoesNotExist ''/data/etc-link'')" using a by simp
  have e': "readdir File = None" by simp
  show ?thesis using a' r1 b r2 c r3 d e' r4 by blast
qed

text \<open>
  Claim C9 as stated fails where it says that the failing entry itself is skipped: the
  listing of \<^verbatim>\<open>priv\<close> cannot be read, and \<^verbatim>\<open>priv\<close> is among the results all the same,
  followed by the entries after it.
\<close>

theorem search_failure_local_counterexample:
  "isDirectory LockedDir \<and> readdir LockedDir = None \<and>
   searchFiles minimatch plain_host [''/data''] locked_tree ''/data'' ''*'' [] =
     Inr [''/data/priv'', ''/data/a.png'']"
  by code_simp

text \<open>
  Claim C10: the search never returns its own root. For a resolved root (the form of the
  paths \<^verbatim>\<open>validatePath\<close> returns) and a tree whose names are names that \<^verbatim>\<open>readdir\<close> can
  return, every returned path lies strictly below the root, whatever the pattern, the
  excludes and the matcher.
\<close>

theorem searchFiles_below_root:
  "is_resolved root \<and> proper_tree tree \<and>
   searchFiles mm h allowed tree root pat excludes = Inr results
   \<longrightarrow> (\<forall>p\<in>set results. strict_descendant root p \<and> p \<noteq> root)"
proof (intro impI ballI)
  fix p
  assume a: "is_resolved root \<and> proper_tree tree \<and>
   searchFiles mm h allowed tree root pat excludes = Inr results"
    and p: "p \<in> set results"
  let ?rq = "\<lparr>sr_rootPath = root, sr_pattern = pat, sr_excludePatterns = excludes\<rparr>"
  have "results = snd (search mm h allowed ?rq root tree [])"
    using a by (cases "search mm h allowed ?rq root tree []")
      (auto simp: searchFiles_def simp del: search.simps split: option.splits)
  then have "strict_descendant root p"
    using search_below(1) [of root tree mm h allowed ?rq] a p by blast
  then show "strict_descendant root p \<and> p \<noteq> root"
    using strict_descendant_neq by blast
qed

theorem searchFiles_below_root_witness:
  "is_resolved ''/data'' \<and> proper_tree png_tree \<and>
   searchFiles minimatch plain_host [''/data''] png_tree ''/data'' ''*'' [] =
     Inr [''/data/a.png'', ''/data/sub'', ''/data/sub/b.png'', ''/data/sub/c.txt''] \<and>
   strict_descendant ''/data'' ''/data/a.png'' \<and> ''/data/a.png'' \<noteq> ''/data'' \<and>
   strict_descendant ''/data'' ''/data/sub'' \<and> ''/data/sub'' \<noteq> ''/data'' \<and>
   strict_descendant ''/data'' ''/data/sub/b.png'' \<and> ''/data/sub/b.png'' \<noteq> ''/data'' \<and>
   strict_descendant ''/data'' ''/data/sub/c.txt'' \<and> ''/data/sub/c.txt'' \<noteq> ''/data''"
proof -
  have a: "is_resolved ''/data''" by code_simp
  have b: "proper_tree png_tree" by code_simp
  have c: "searchFiles minimatch plain_host [''/data''] png_tree ''/data'' ''*'' [] =
     Inr [''/data/a.png'', ''/data/sub'', ''/data/sub/b.png'', ''/data/sub/c.txt'']" by code_simp
  have d: "\<forall>p\<in>set [''/data/a.png'', ''/data/sub'', ''/data/sub/b.png'', ''/data/sub/c.txt''].
      strict_descendant ''/data'' p \<and> p \<noteq> ''/data''"
    using searchFiles_below_root
      [where root = "''/data''" and tree = png_tree and mm = minimatch and h = plain_host
         and allowed = "[''/data'']" and pat = "''*''" and excludes = "[]"
         and results = "[''/data/a.png'', ''/data/sub'', ''/data/sub/b.png'', ''/data/sub/c.txt'']"]
      a b c
    by blast
  have e: "strict_descendant ''/data'' ''/data/a.png'' \<and> ''/data/a.png'' \<noteq> ''/data'' \<and>
   strict_descendant ''/data'' ''/data/sub'' \<and> ''/data/sub'' \<noteq> ''/data'' \<and>
   strict_descendant ''/data'' ''/data/sub/b.png'' \<and> ''/data/sub/b.png'' \<noteq> ''/data'' \<and>
   strict_descendant ''/data'' ''/data/sub/c.txt'' \<and> ''/data/sub/c.txt'' \<noteq> ''/data''"
    using d by (simp del: not_Cons_self2)
  show ?thesis using a b c e by blast
qed


section \<open>Saving: the two attempts\<close>

lemma chain_up_head: "p \<in> set (chain_up n p)"
  by (cases n) auto

lemma ensure_ok:
  assumes "ensureDirectoryExists fs d = Inr fs1"
  shows "existsSync fs1 d"
    and "fs_exists fs q \<Longrightarrow> fs_exists fs1 q"
    and "mkdir_fails fs1 = mkdir_fails fs" and "write_fails fs1 = write_fails fs"
    and "fs_content fs1 = fs_content fs"
    and "\<not> existsSync fs d \<Longrightarrow> q \<in> set (chain_up (length d) d) \<Longrightarrow> existsSync fs1 q"
  using assms chain_up_head [of d "length d"]
  by (auto simp: ensureDirectoryExists_def mkdirSync_recursive_def existsSync_def split: if_splits)

lemma ensure_result:
  "ensureDirectoryExists fs d =
     (if existsSync fs d then Inr fs
      else if mkdir_fails fs d then Inl (MkdirFailed d)
      else Inr (fs\<lparr>fs_exists := (\<lambda>q. fs_exists fs q \<or> q \<in> set (chain_up (length d) d))\<rparr>))"
  by (simp add: ensureDirectoryExists_def mkdirSync_recursive_def)

lemma write_ok:
  assumes "writeFileSync fs p b = Inr fs2"
  shows "fs_content fs2 p = Some b" and "fs_exists fs q \<Longrightarrow> fs_exists fs2 q"
    and "mkdir_fails fs2 = mkdir_fails fs" and "write_fails fs2 = write_fails fs"
    and "\<not> write_fails fs p"
  using assms by (auto simp: writeFileSync_def split: if_splits)

lemma save_try_eq:
  "save_try h fs b n =
     (if process_env h ''SAVE_TO_DESKTOP'' = Some ''true'' \<and> os_username h = None
      then (Inl UserInfoFailed, fs)
      else save_into fs (primaryDir h fs) (path_normalize (path_join [primaryDir h fs, n])) b)"
  by (auto simp: save_try_def save_into_def primaryDir_def Let_def split: option.splits sum.splits)

lemma save_fallback_eq:
  "save_fallback h fs b n = save_into fs (fallbackDir h) (path_join [fallbackDir h, n]) b"
  by (simp add: save_fallback_def save_into_def fallbackDir_def Let_def split: sum.splits)

lemma save_into_ok:
  assumes "existsSync fs d \<or> \<not> mkdir_fails fs d" "\<not> write_fails fs p"
  shows "fst (save_into fs d p b) = Inr p"
    and "fs_content (snd (save_into fs d p b)) p = Some b"
    and "existsSync (snd (save_into fs d p b)) d"
proof -
  have "\<exists>fs1. ensureDirectoryExists fs d = Inr fs1"
    using assms(1) by (cases "existsSync fs d") (simp_all add: ensure_result)
  then obtain fs1 where e: "ensureDirectoryExists fs d = Inr fs1" by blast
  have w: "\<not> write_fails fs1 p" using ensure_ok(4) [OF e] assms(2) by simp
  then obtain fs2 where w2: "writeFileSync fs1 p b = Inr fs2" by (auto simp: writeFileSync_def)
  have s: "save_into fs d p b = (Inr p, fs2)" by (simp add: save_into_def e w2)
  show "fst (save_into fs d p b) = Inr p" by (simp add: s)
  show "fs_content (snd (save_into fs d p b)) p = Some b" using write_ok(1) [OF w2] by (simp add: s)
  show "existsSync (snd (save_into fs d p b)) d"
    using write_ok(2) [OF w2, of d] ensure_ok(1) [OF e] by (simp add: s existsSync_def)
qed

lemma save_into_fail:
  assumes "\<not> (existsSync fs d \<or> \<not> mkdir_fails fs d) \<or> write_fails fs p"
  shows "fst (save_into fs d p b) = Inl (MkdirFailed d) \<and> mkdir_fails fs d \<and> \<not> existsSync fs d \<or>
         fst (save_into fs d p b) = Inl (WriteFailed p) \<and> write_fails fs p"
proof (cases "existsSync fs d \<or> \<not> mkdir_fails fs d")
  case False
  then show ?thesis by (auto simp: save_into_def ensure_result)
next
  case True
  then have "\<exists>fs1. ensureDirectoryExists fs d = Inr fs1"
    by (cases "existsSync fs d") (simp_all add: ensure_result)
  then obtain fs1 where e: "ensureDirectoryExists fs d = Inr fs1" by blast
  have w: "write_fails fs1 p" using ensure_ok(4) [OF e] assms True by simp
  then show ?thesis using assms True by (auto simp: save_into_def e writeFileSync_def)
qed

lemma save_into_frame:
  "mkdir_fails (snd (save_into fs d p b)) = mkdir_fails fs"
  "write_fails (snd (save_into fs d p b)) = write_fails fs"
  "fs_exists fs q \<Longrightarrow> fs_exists (snd (save_into fs d p b)) q"
  by (auto simp: save_into_def ensure_result writeFileSync_def)

lemma save_try_ok:
  assumes "primary_succeeds h fs n"
  shows "fst (save_try h fs b n) = Inr (path_normalize (path_join [primaryDir h fs, n]))"
    and "fs_content (snd (save_try h fs b n)) (path_normalize (path_join [primaryDir h fs, n])) = Some b"
    and "existsSync (snd (save_try h fs b n)) (primaryDir h fs)"
  using assms save_into_ok [of fs "primaryDir h fs" "path_normalize (path_join [primaryDir h fs, n])" b]
  by (auto simp: primary_succeeds_def save_try_eq)

lemma save_try_fail:
  assumes "\<not> primary_succeeds h fs n"
  shows "\<exists>e. fst (save_try h fs b n) = Inl e"
  using assms save_into_fail [of fs "primaryDir h fs" "path_normalize (path_join [primaryDir h fs, n])" b]
  by (auto simp: primary_succeeds_def save_try_eq)

lemma save_try_frame:
  "mkdir_fails (snd (save_try h fs b n)) = mkdir_fails fs"
  "write_fails (snd (save_try h fs b n)) = write_fails fs"
  "fs_exists fs q \<Longrightarrow> fs_exists (snd (save_try h fs b n)) q"
  by (auto simp: save_try_eq save_into_frame)

lemma save_cases:
  "saveImageWithProperPath h fs b n =
     (if primary_succeeds h fs n then save_try h fs b n
      else save_fallback h (snd (save_try h fs b n)) b n)"
proof (cases "primary_succeeds h fs n")
  case True
  then show ?thesis using save_try_ok(1) [OF True, of b]
    by (cases "save_try h fs b n") (auto simp: saveImageWithProperPath_def)
next
  case False
  then show ?thesis using save_try_fail [OF False, of b]
    by (cases "save_try h fs b n") (auto simp: saveImageWithProperPath_def)
qed

lemma fallback_after_try:
  assumes "fallback_succeeds h fs n"
  shows "fst (save_fallback h (snd (save_try h fs b n)) b n) = Inr (path_join [fallbackDir h, n])"
    and "fs_content (snd (save_fallback h (snd (save_try h fs b n)) b n)) (path_join [fallbackDir h, n]) = Some b"
    and "existsSync (snd (save_fallback h (snd (save_try h fs b n)) b n)) (fallbackDir h)"
proof -
  let ?fs1 = "snd (save_try h fs b n)"
  have c: "existsSync ?fs1 (fallbackDir h) \<or> \<not> mkdir_fails ?fs1 (fallbackDir h)"
    "\<not> write_fails ?fs1 (path_join [fallbackDir h, n])"
    using assms save_try_frame
    by (auto simp: fallback_succeeds_def existsSync_def)
  show "fst (save_fallback h ?fs1 b n) = Inr (path_join [fallbackDir h, n])"
    and "fs_content (snd (save_fallback h ?fs1 b n)) (path_join [fallbackDir h, n]) = Some b"
    and "existsSync (snd (save_fallback h ?fs1 b n)) (fallbackDir h)"
    using save_into_ok [OF c, of b] by (simp_all add: save_fallback_eq)
qed

lemma fallback_outcome:
  "(fst (save_fallback h fs1 b n) = Inr (path_join [fallbackDir h, n]) \<and>
    fs_content (snd (save_fallback h fs1 b n)) (path_join [fallbackDir h, n]) = Some b \<and>
    existsSync (snd (save_fallback h fs1 b n)) (fallbackDir h)) \<or>
   (fst (save_fallback h fs1 b n) = Inl (MkdirFailed (fallbackDir h)) \<and> mkdir_fails fs1 (fallbackDir h)) \<or>
   (fst (save_fallback h fs1 b n) = Inl (WriteFailed (path_join [fallbackDir h, n])) \<and>
    write_fails fs1 (path_join [fallbackDir h, n]))"
  using save_into_ok [of fs1 "fallbackDir h" "path_join [fallbackDir h, n]" b]
    save_into_fail [of fs1 "fallbackDir h" "path_join [fallbackDir h, n]" b]
  unfolding save_fallback_eq by blast

lemma getDesktopPath_env:
  assumes "v \<noteq> ''USERPROFILE''" "v \<noteq> ''XDG_DESKTOP_DIR''"
  shows "getDesktopPath (h\<lparr>process_env := (process_env h)(v := x)\<rparr>) fs = getDesktopPath h fs"
proof -
  have e: "\<And>w. w \<noteq> v \<Longrightarrow> env_set (h\<lparr>process_env := (process_env h)(v := x)\<rparr>) w = env_set h w"
    by (simp add: env_set_def)
  have "env_set (h\<lparr>process_env := (process_env h)(v := x)\<rparr>) ''USERPROFILE'' = env_set h ''USERPROFILE''"
    "env_set (h\<lparr>process_env := (process_env h)(v := x)\<rparr>) ''XDG_DESKTOP_DIR'' = env_set h ''XDG_DESKTOP_DIR''"
    using assms e by metis+
  then show ?thesis
    by (simp add: getDesktopPath_def Let_def split: option.splits)
qed

lemma env_irrelevant:
  assumes "v \<noteq> ''SAVE_TO_DESKTOP''" "v \<noteq> ''USERPROFILE''" "v \<noteq> ''XDG_DESKTOP_DIR''"
  shows "saveImageWithProperPath (h\<lparr>process_env := (process_env h)(v := x)\<rparr>) fs b n =
         saveImageWithProperPath h fs b n"
proof -
  have t: "save_try (h\<lparr>process_env := (process_env h)(v := x)\<rparr>) fs b n = save_try h fs b n"
    using assms by (simp add: save_try_def getDesktopPath_env Let_def split: option.splits sum.splits)
  have f: "\<And>fs1. save_fallback (h\<lparr>process_env := (process_env h)(v := x)\<rparr>) fs1 b n =
      save_fallback h fs1 b n"
    by (simp add: save_fallback_def Let_def split: sum.splits)
  show ?thesis by (simp add: saveImageWithProperPath_def t f split: prod.splits sum.splits)
qed

lemma getDesktopPath_cases:
  "(os_username h = None \<longrightarrow> getDesktopPath h fs = os_homedir h)"
  "(os_username h \<noteq> None \<and> os_platform h = Darwin \<longrightarrow>
      getDesktopPath h fs = path_join [os_homedir h, ''Desktop''])"
  "(os_username h \<noteq> None \<and> os_platform h = Linux \<and>
    env_set h ''XDG_DESKTOP_DIR'' = Some xdg \<and> existsSync fs xdg \<longrightarrow>
      getDesktopPath h fs = xdg)"
  "(os_username h \<noteq> None \<and> os_platform h = Linux \<and>
    \<not> (\<exists>d. env_set h ''XDG_DESKTOP_DIR'' = Some d \<and> existsSync fs d) \<longrightarrow>
      getDesktopPath h fs =
        (if existsSync fs (path_join [os_homedir h, ''Desktop''])
         then path_join [os_homedir h, ''Desktop''] else os_homedir h))"
  "(os_username h = Some u \<and> os_platform h = Win32 \<longrightarrow>
      getDesktopPath h fs =
        (if existsSync fs
              (case env_set h ''USERPROFILE'' of
                 Some profile \<Rightarrow> path_join [profile, ''Desktop'']
               | None \<Rightarrow> path_join [''C:'', ''Users'', u, ''Desktop''])
         then (case env_set h ''USERPROFILE'' of
                 Some profile \<Rightarrow> path_join [profile, ''Desktop'']
               | None \<Rightarrow> path_join [''C:'', ''Users'', u, ''Desktop''])
         else os_homedir h))"
  by (auto simp: getDesktopPath_def Let_def split: option.splits platform.splits)

lemma output_dir_ignored:
  "saveImageWithProperPath (h\<lparr>process_env := (process_env h)(''OUTPUT_DIR'' := x)\<rparr>) fs b n =
   saveImageWithProperPath h fs b n"
  using env_irrelevant [of "''OUTPUT_DIR''" h x fs b n] by simp

section \<open>Saving: created directories, and the directory of the saved file\<close>

text \<open>
  What \<open>chain_up\<close> holds: exactly the iterated \<^verbatim>\<open>dirname\<close>s of the path. And the directory of
  a file joined onto a resolved directory under a plain name is that directory.
\<close>

lemma funpow_fixed: "f p = p \<Longrightarrow> (f ^^ k) p = p"
  by (induction k) simp_all

lemma chain_up_funpow: "k \<le> n \<Longrightarrow> (path_dirname ^^ k) p \<in> set (chain_up n p)"
proof (induction n arbitrary: p k)
  case 0
  then show ?case by simp
next
  case (Suc n)
  show ?case
  proof (cases k)
    case 0
    then show ?thesis by simp
  next
    case (Suc k')
    show ?thesis
    proof (cases "path_dirname p = p")
      case True
      then show ?thesis using funpow_fixed [of path_dirname p k] by simp
    next
      case False
      have "(path_dirname ^^ k) p = (path_dirname ^^ k') (path_dirname p)"
        using Suc by (simp add: funpow_swap1)
      moreover have "(path_dirname ^^ k') (path_dirname p) \<in> set (chain_up n (path_dirname p))"
        using Suc.IH [of k' "path_dirname p"] Suc.prems Suc by simp
      ultimately show ?thesis using False by simp
    qed
  qed
qed

lemma chain_up_only: "q \<in> set (chain_up n p) \<Longrightarrow> \<exists>k\<le>n. q = (path_dirname ^^ k) p"
proof (induction n arbitrary: p)
  case 0
  then show ?case by simp
next
  case (Suc n)
  show ?case
  proof (cases "q = p")
    case True
    then have "q = (path_dirname ^^ 0) p" by simp
    then show ?thesis by blast
  next
    case False
    then have ne: "path_dirname p \<noteq> p" and "q \<in> set (chain_up n (path_dirname p))"
      using Suc.prems by (auto split: if_splits)
    then obtain k where k: "k \<le> n" "q = (path_dirname ^^ k) (path_dirname p)"
      using Suc.IH by blast
    then have "q = (path_dirname ^^ Suc k) p" by (simp add: funpow_swap1)
    then show ?thesis using k(1) by (metis Suc_le_mono)
  qed
qed

lemma ensure_ancestors:
  assumes "ensureDirectoryExists fs d = Inr fs1"
  shows "\<not> existsSync fs d \<Longrightarrow> k \<le> length d \<Longrightarrow> existsSync fs1 ((path_dirname ^^ k) d)"
    and "existsSync fs1 q \<Longrightarrow> existsSync fs q \<or> (\<exists>k\<le>length d. q = (path_dirname ^^ k) d)"
proof -
  show "\<not> existsSync fs d \<Longrightarrow> k \<le> length d \<Longrightarrow> existsSync fs1 ((path_dirname ^^ k) d)"
    using ensure_ok(6) [OF assms] chain_up_funpow by blast
  show "existsSync fs1 q \<Longrightarrow> existsSync fs q \<or> (\<exists>k\<le>length d. q = (path_dirname ^^ k) d)"
    using assms chain_up_only [of q "length d" d]
    by (auto simp: ensure_result existsSync_def split: if_splits)
qed

lemma ensure_can_create:
  "(\<exists>fs1. ensureDirectoryExists fs d = Inr fs1) = (existsSync fs d \<or> \<not> mkdir_fails fs d)"
  by (simp add: ensure_result)

lemma dropWhile_no_slash:
  assumes "CHR ''/'' \<notin> set xs"
  shows "dropWhile (\<lambda>c. c = CHR ''/'') (xs @ ys) = (if xs = [] then dropWhile (\<lambda>c. c = CHR ''/'') ys else xs @ ys)"
    and "dropWhile (\<lambda>c. c \<noteq> CHR ''/'') (xs @ ys) = dropWhile (\<lambda>c. c \<noteq> CHR ''/'') ys"
  using assms by (cases xs, auto)[1] (use assms in \<open>induction xs\<close>, auto)

lemma path_dirname_child:
  assumes "is_resolved d" "proper_name n"
  shows "path_dirname (path_join [d, n]) = d"
proof -
  define st where "st = norm_segments False d"
  have cur: "d = CHR ''/'' # join_with ''/'' st"
    using is_resolved_segments [OF assms(1)] by (simp add: st_def)
  have c0: "d \<noteq> []" "hd d = CHR ''/''" by (subst cur, simp)+
  then have dt: "d = CHR ''/'' # tl d" by (cases d) auto
  have n: "rev n \<noteq> []" "CHR ''/'' \<notin> set (rev n)" using assms(2) by (simp_all add: proper_name_def)
  show ?thesis
  proof (cases "tl d = []")
    case True
    then have d1: "d = ''/''" using dt by simp
    have pj: "path_join [d, n] = CHR ''/'' # n"
      using path_join_child(1) [OF assms] by (simp add: d1)
    have dw: "dropWhile (\<lambda>c. c \<noteq> CHR ''/'') (dropWhile (\<lambda>c. c = CHR ''/'') (rev n)) = []"
      using dropWhile_no_slash [OF n(2), of "[]"] n(1) by simp
    have "path_dirname (CHR ''/'' # n) = ''/''" by (simp add: path_dirname_def dw Let_def)
    then show ?thesis using pj [unfolded d1] by (simp add: d1)
  next
    case False
    then have "d \<noteq> ''/''" by auto
    then have "path_join [d, n] = d @ ''/'' @ n"
      using path_join_child(1) [OF assms] by simp
    then have pj: "path_join [d, n] = CHR ''/'' # tl d @ ''/'' @ n"
      by (subst (asm) (2) dt) simp
    have dw: "dropWhile (\<lambda>c. c \<noteq> CHR ''/'')
         (dropWhile (\<lambda>c. c = CHR ''/'') (rev n @ CHR ''/'' # rev (tl d))) = CHR ''/'' # rev (tl d)"
      using dropWhile_no_slash [OF n(2), of "CHR ''/'' # rev (tl d)"] n(1) by simp
    have l2: "\<not> length d \<le> Suc 0" using False c0(1) by (cases d) auto
    have "path_dirname (CHR ''/'' # tl d @ ''/'' @ n) = CHR ''/'' # tl d"
      using False l2 by (simp add: path_dirname_def dw Let_def)
    then show ?thesis using pj dt by metis
  qed
qed

section \<open>Saving: the resolver with a documents tier\<close>

lemma isPathWriteable_fst:
  "fst (isPathWriteable fs p) =
     (if existsSync fs p then \<not> access_fails fs p else \<not> mkdir_fails fs p)"
  by (simp add: isPathWriteable_def ensure_result)

lemma isPathWriteable_snd:
  "\<not> fst (isPathWriteable fs p) \<Longrightarrow> snd (isPathWriteable fs p) = fs"
  "existsSync fs p \<Longrightarrow> snd (isPathWriteable fs p) = fs"
  "mkdir_fails (snd (isPathWriteable fs p)) = mkdir_fails fs"
  "fs_exists fs q \<Longrightarrow> fs_exists (snd (isPathWriteable fs p)) q"
  by (auto simp: isPathWriteable_def ensure_result)

lemma can_create_after:
  "can_create fs d \<Longrightarrow> can_create (snd (isPathWriteable fs p)) d"
  using isPathWriteable_snd(3) [of fs p] isPathWriteable_snd(4) [of fs d p]
  by (auto simp: can_create_def existsSync_def)

lemma try_override:
  assumes "env_set h ''OUTPUT_DIR'' = Some v" "fst (isPathWriteable fs (outputDir h v))"
  shows "fst (getBestSavePath_try h fs) = Inr (outputDir h v)"
  using assms by (simp add: getBestSavePath_try_def outputDir_def Let_def)

lemma try_override_full:
  assumes "env_set h ''OUTPUT_DIR'' = Some v" "fst (isPathWriteable fs (outputDir h v))"
  shows "getBestSavePath_try h fs =
           (Inr (outputDir h v), snd (isPathWriteable fs (outputDir h v)))"
  using assms by (simp add: getBestSavePath_try_def outputDir_def Let_def)

lemma override_taken_iff:
  "override_taken h fs =
     (\<exists>v. env_set h ''OUTPUT_DIR'' = Some v \<and> fst (isPathWriteable fs (outputDir h v)))"
  by (simp add: override_taken_def split: option.splits)

lemma try_no_override:
  assumes "\<not> override_taken h fs"
  shows "getBestSavePath_try h fs =
     (if process_env h ''SAVE_TO_DESKTOP'' = Some ''true'' then
        (case ensureDirectoryExists fs (desktopPath h) of
           Inl err \<Rightarrow> (Inl err, fs)
         | Inr fs2 \<Rightarrow> (Inr (desktopPath h), fs2))
      else if fst (isPathWriteable fs (path_dirname (desktopPath h))) then
        (case ensureDirectoryExists (snd (isPathWriteable fs (path_dirname (desktopPath h))))
                (desktopPath h) of
           Inl err \<Rightarrow> (Inl err, snd (isPathWriteable fs (path_dirname (desktopPath h))))
         | Inr fs3 \<Rightarrow> (Inr (desktopPath h), fs3))
      else if fst (isPathWriteable fs (path_dirname (docsPath h))) then
        (case ensureDirectoryExists (snd (isPathWriteable fs (path_dirname (docsPath h))))
                (docsPath h) of
           Inl err \<Rightarrow> (Inl err, snd (isPathWriteable fs (path_dirname (docsPath h))))
         | Inr fs4 \<Rightarrow> (Inr (docsPath h), fs4))
      else
        (case ensureDirectoryExists fs (homePath h) of
           Inl err \<Rightarrow> (Inl err, fs)
         | Inr fs4 \<Rightarrow> (Inr (homePath h), fs4)))"
proof -
  have c: "(case env_set h ''OUTPUT_DIR'' of
               None \<Rightarrow> (None, fs)
             | Some v \<Rightarrow>
                 (let outputDir = path_resolve (process_cwd h) [v];
                      w = isPathWriteable fs outputDir
                  in if fst w then (Some outputDir, snd w) else (None, snd w))) = (None, fs)"
    using assms isPathWriteable_snd(1)
    by (auto simp: override_taken_def outputDir_def Let_def split: option.splits)
  show ?thesis
  proof (cases "process_env h ''SAVE_TO_DESKTOP'' = Some ''true''")
    case True
    then show ?thesis
      unfolding getBestSavePath_try_def c by (simp add: Let_def desktopPath_def split: sum.splits)
  next
    case s: False
    show ?thesis
    proof (cases "fst (isPathWriteable fs (path_dirname (desktopPath h)))")
      case True
      then show ?thesis
        using s unfolding getBestSavePath_try_def c by (simp add: Let_def desktopPath_def split: sum.splits)
    next
      case w1: False
      have s1: "snd (isPathWriteable fs (path_dirname (desktopPath h))) = fs"
        using w1 isPathWriteable_snd(1) by blast
      show ?thesis
      proof (cases "fst (isPathWriteable fs (path_dirname (docsPath h)))")
        case True
        then show ?thesis
          using s w1 s1 unfolding getBestSavePath_try_def c
          by (simp add: Let_def desktopPath_def docsPath_def split: sum.splits)
      next
        case w2: False
        have s2: "snd (isPathWriteable fs (path_dirname (docsPath h))) = fs"
          using w2 isPathWriteable_snd(1) by blast
        show ?thesis
          using s w1 s1 w2 s2 unfolding getBestSavePath_try_def c
          by (simp add: Let_def desktopPath_def docsPath_def homePath_def split: sum.splits)
      qed
    qed
  qed
qed

lemma ensure_step:
  "(case ensureDirectoryExists fs d of Inl err \<Rightarrow> (Inl err, fs) | Inr fs2 \<Rightarrow> (Inr d, fs2)) =
     (if can_create fs d
      then (Inr d, (if existsSync fs d then fs
                    else fs\<lparr>fs_exists :=
                           (\<lambda>q. fs_exists fs q \<or> q \<in> set (chain_up (length d) d))\<rparr>))
      else (Inl (MkdirFailed d), fs))"
  by (simp add: ensure_result can_create_def)

lemma ensure_step_fst:
  "fst (case ensureDirectoryExists fs d of Inl err \<Rightarrow> (Inl err, fs) | Inr fs2 \<Rightarrow> (Inr d, fs2)) =
     (if can_create fs d then Inr d else Inl (MkdirFailed d))"
  by (simp add: ensure_step)

lemma ensure_step_frame:
  "mkdir_fails (snd (case ensureDirectoryExists fs d of
                       Inl err \<Rightarrow> (Inl err, fs) | Inr fs2 \<Rightarrow> (Inr d, fs2))) = mkdir_fails fs"
  "fs_exists fs q \<Longrightarrow>
     fs_exists (snd (case ensureDirectoryExists fs d of
                       Inl err \<Rightarrow> (Inl err, fs) | Inr fs2 \<Rightarrow> (Inr d, fs2))) q"
  by (simp_all add: ensure_step)

lemma try_frame:
  "mkdir_fails (snd (getBestSavePath_try h fs)) = mkdir_fails fs"
  "fs_exists fs q \<Longrightarrow> fs_exists (snd (getBestSavePath_try h fs)) q"
proof -
  have "mkdir_fails (snd (getBestSavePath_try h fs)) = mkdir_fails fs \<and>
        (fs_exists fs q \<longrightarrow> fs_exists (snd (getBestSavePath_try h fs)) q)"
  proof (cases "override_taken h fs")
    case True
    then obtain v where "env_set h ''OUTPUT_DIR'' = Some v" "fst (isPathWriteable fs (outputDir h v))"
      using override_taken_iff by blast
    then show ?thesis
      using try_override_full [of h v fs] isPathWriteable_snd(3) [of fs "outputDir h v"]
        isPathWriteable_snd(4) [of fs q "outputDir h v"] by simp
  next
    case False
    show ?thesis
      unfolding try_no_override [OF False]
      using isPathWriteable_snd(3) [of fs "path_dirname (desktopPath h)"]
        isPathWriteable_snd(4) [of fs q "path_dirname (desktopPath h)"]
        isPathWriteable_snd(3) [of fs "path_dirname (docsPath h)"]
        isPathWriteable_snd(4) [of fs q "path_dirname (docsPath h)"]
      by (simp add: ensure_step_frame)
  qed
  then show "mkdir_fails (snd (getBestSavePath_try h fs)) = mkdir_fails fs"
    and "fs_exists fs q \<Longrightarrow> fs_exists (snd (getBestSavePath_try h fs)) q" by simp_all
qed

lemma best_of_try:
  "fst (getBestSavePath_try h fs) = Inr d \<Longrightarrow> fst (getBestSavePath h fs) = Inr d"
  by (cases "getBestSavePath_try h fs") (auto simp: getBestSavePath_def)

lemma best_of_try_fail:
  assumes "fst (getBestSavePath_try h fs) = Inl e"
  shows "can_create fs (fallbackPath h) \<Longrightarrow> fst (getBestSavePath h fs) = Inr (fallbackPath h)"
    and "fst (getBestSavePath h fs) = Inr p \<Longrightarrow> p = fallbackPath h"
    and "fst (getBestSavePath h fs) = Inl e' \<Longrightarrow>
           e' = MkdirFailed (fallbackPath h) \<and> mkdir_fails fs (fallbackPath h)"
proof -
  let ?fs1 = "snd (getBestSavePath_try h fs)"
  have t: "getBestSavePath_try h fs = (Inl e, ?fs1)"
    using assms by (cases "getBestSavePath_try h fs") auto
  have "getBestSavePath h fs =
      (case ensureDirectoryExists ?fs1 (fallbackPath h) of
         Inl err \<Rightarrow> (Inl err, ?fs1) | Inr fs2 \<Rightarrow> (Inr (fallbackPath h), fs2))"
    by (subst getBestSavePath_def, subst t) (simp add: fallbackPath_def Let_def split: sum.splits)
  then have f: "fst (getBestSavePath h fs) =
      (if can_create ?fs1 (fallbackPath h) then Inr (fallbackPath h)
       else Inl (MkdirFailed (fallbackPath h)))"
    by (simp add: ensure_step_fst)
  show "can_create fs (fallbackPath h) \<Longrightarrow> fst (getBestSavePath h fs) = Inr (fallbackPath h)"
    using f try_frame(1) [of h fs] try_frame(2) [where h = h and fs = fs]
    by (auto simp: can_create_def existsSync_def)
  show "fst (getBestSavePath h fs) = Inr p \<Longrightarrow> p = fallbackPath h"
    using f by (auto split: if_splits)
  show "fst (getBestSavePath h fs) = Inl e' \<Longrightarrow>
           e' = MkdirFailed (fallbackPath h) \<and> mkdir_fails fs (fallbackPath h)"
    using f try_frame(1) [of h fs] by (auto simp: can_create_def split: if_splits)
qed

lemma try_results:
  assumes "\<not> override_taken h fs"
  shows "process_env h ''SAVE_TO_DESKTOP'' = Some ''true'' \<Longrightarrow>
           fst (getBestSavePath_try h fs) =
             (if can_create fs (desktopPath h) then Inr (desktopPath h)
              else Inl (MkdirFailed (desktopPath h)))"
    and "process_env h ''SAVE_TO_DESKTOP'' \<noteq> Some ''true'' \<Longrightarrow>
         fst (isPathWriteable fs (path_dirname (desktopPath h))) \<Longrightarrow>
           fst (getBestSavePath_try h fs) =
             (if can_create (snd (isPathWriteable fs (path_dirname (desktopPath h)))) (desktopPath h)
              then Inr (desktopPath h) else Inl (MkdirFailed (desktopPath h)))"
    and "process_env h ''SAVE_TO_DESKTOP'' \<noteq> Some ''true'' \<Longrightarrow>
         \<not> fst (isPathWriteable fs (path_dirname (desktopPath h))) \<Longrightarrow>
         fst (isPathWriteable fs (path_dirname (docsPath h))) \<Longrightarrow>
           fst (getBestSavePath_try h fs) =
             (if can_create (snd (isPathWriteable fs (path_dirname (docsPath h)))) (docsPath h)
              then Inr (docsPath h) else Inl (MkdirFailed (docsPath h)))"
    and "process_env h ''SAVE_TO_DESKTOP'' \<noteq> Some ''true'' \<Longrightarrow>
         \<not> fst (isPathWriteable fs (path_dirname (desktopPath h))) \<Longrightarrow>
         \<not> fst (isPathWriteable fs (path_dirname (docsPath h))) \<Longrightarrow>
           fst (getBestSavePath_try h fs) =
             (if can_create fs (homePath h) then Inr (homePath h)
              else Inl (MkdirFailed (homePath h)))"
  unfolding try_no_override [OF assms] by (simp_all add: ensure_step_fst)

lemma try_candidates:
  "fst (getBestSavePath_try h fs) = Inr p \<Longrightarrow>
     (\<exists>v. env_set h ''OUTPUT_DIR'' = Some v \<and> p = outputDir h v) \<or>
     p = desktopPath h \<or> p = docsPath h \<or> p = homePath h"
proof (cases "override_taken h fs")
  case True
  assume "fst (getBestSavePath_try h fs) = Inr p"
  then show ?thesis using True try_override_full [of h _ fs] override_taken_iff [of h fs] by auto
next
  case False
  assume "fst (getBestSavePath_try h fs) = Inr p"
  then show ?thesis
    unfolding try_no_override [OF False]
    by (auto simp: ensure_step_fst split: if_splits)
qed

lemma best_paths:
  "getDesktopPath_best h =
     path_join [if os_platform h = Win32
                then (case env_set h ''USERPROFILE'' of Some profile \<Rightarrow> profile | None \<Rightarrow> os_homedir h)
                else os_homedir h, ''Desktop'']"
  "getDocumentsPath h =
     (if os_platform h = Win32
      then path_join [case env_set h ''USERPROFILE'' of Some profile \<Rightarrow> profile | None \<Rightarrow> os_homedir h,
                      ''Documents'']
      else if os_platform h = Darwin then path_join [os_homedir h, ''Documents'']
      else os_homedir h)"
  by (simp_all add: getDesktopPath_best_def getDocumentsPath_def Let_def)

lemma best_order:
  "(env_set h ''OUTPUT_DIR'' = Some v \<and> fst (isPathWriteable fs (outputDir h v)) \<longrightarrow>
      fst (getBestSavePath h fs) = Inr (outputDir h v))"
  "(\<not> override_taken h fs \<and> process_env h ''SAVE_TO_DESKTOP'' = Some ''true'' \<and>
    can_create fs (desktopPath h) \<longrightarrow>
      fst (getBestSavePath h fs) = Inr (desktopPath h))"
  "(\<not> override_taken h fs \<and> process_env h ''SAVE_TO_DESKTOP'' \<noteq> Some ''true'' \<and>
    fst (isPathWriteable fs (path_dirname (desktopPath h))) \<and> can_create fs (desktopPath h) \<longrightarrow>
      fst (getBestSavePath h fs) = Inr (desktopPath h))"
  "(\<not> override_taken h fs \<and> process_env h ''SAVE_TO_DESKTOP'' \<noteq> Some ''true'' \<and>
    \<not> fst (isPathWriteable fs (path_dirname (desktopPath h))) \<and>
    fst (isPathWriteable fs (path_dirname (docsPath h))) \<and> can_create fs (docsPath h) \<longrightarrow>
      fst (getBestSavePath h fs) = Inr (docsPath h))"
  "(\<not> override_taken h fs \<and> process_env h ''SAVE_TO_DESKTOP'' \<noteq> Some ''true'' \<and>
    \<not> fst (isPathWriteable fs (path_dirname (desktopPath h))) \<and>
    \<not> fst (isPathWriteable fs (path_dirname (docsPath h))) \<and> can_create fs (homePath h) \<longrightarrow>
      fst (getBestSavePath h fs) = Inr (homePath h))"
proof -
  show "env_set h ''OUTPUT_DIR'' = Some v \<and> fst (isPathWriteable fs (outputDir h v)) \<longrightarrow>
      fst (getBestSavePath h fs) = Inr (outputDir h v)"
    using try_override [of h v fs] best_of_try [of h fs] by blast
  show "\<not> override_taken h fs \<and> process_env h ''SAVE_TO_DESKTOP'' = Some ''true'' \<and>
    can_create fs (desktopPath h) \<longrightarrow>
      fst (getBestSavePath h fs) = Inr (desktopPath h)"
    using try_results(1) [of h fs] best_of_try [of h fs] by simp
  show "\<not> override_taken h fs \<and> process_env h ''SAVE_TO_DESKTOP'' \<noteq> Some ''true'' \<and>
    fst (isPathWriteable fs (path_dirname (desktopPath h))) \<and> can_create fs (desktopPath h) \<longrightarrow>
      fst (getBestSavePath h fs) = Inr (desktopPath h)"
    using try_results(2) [of h fs] best_of_try [of h fs]
      can_create_after [of fs "desktopPath h" "path_dirname (desktopPath h)"] by simp
  show "\<not> override_taken h fs \<and> process_env h ''SAVE_TO_DESKTOP'' \<noteq> Some ''true'' \<and>
    \<not> fst (isPathWriteable fs (path_dirname (desktopPath h))) \<and>
    fst (isPathWriteable fs (path_dirname (docsPath h))) \<and> can_create fs (docsPath h) \<longrightarrow>
      fst (getBestSavePath h fs) = Inr (docsPath h)"
    using try_results(3) [of h fs] best_of_try [of h fs]
      can_create_after [of fs "docsPath h" "path_dirname (docsPath h)"] by simp
  show "\<not> override_taken h fs \<and> process_env h ''SAVE_TO_DESKTOP'' \<noteq> Some ''true'' \<and>
    \<not> fst (isPathWriteable fs (path_dirname (desktopPath h))) \<and>
    \<not> fst (isPathWriteable fs (path_dirname (docsPath h))) \<and> can_create fs (homePath h) \<longrightarrow>
      fst (getBestSavePath h fs) = Inr (homePath h)"
    using try_results(4) [of h fs] best_of_try [of h fs] by simp
qed

lemma best_fallback:
  "(\<not> override_taken h fs \<and> can_create fs (fallbackPath h) \<and>
    (process_env h ''SAVE_TO_DESKTOP'' = Some ''true'' \<and> \<not> can_create fs (desktopPath h) \<or>
     process_env h ''SAVE_TO_DESKTOP'' \<noteq> Some ''true'' \<and>
       existsSync fs (path_dirname (desktopPath h)) \<and>
       \<not> access_fails fs (path_dirname (desktopPath h)) \<and> \<not> can_create fs (desktopPath h) \<or>
     process_env h ''SAVE_TO_DESKTOP'' \<noteq> Some ''true'' \<and>
       \<not> fst (isPathWriteable fs (path_dirname (desktopPath h))) \<and>
       existsSync fs (path_dirname (docsPath h)) \<and>
       \<not> access_fails fs (path_dirname (docsPath h)) \<and> \<not> can_create fs (docsPath h) \<or>
     process_env h ''SAVE_TO_DESKTOP'' \<noteq> Some ''true'' \<and>
       \<not> fst (isPathWriteable fs (path_dirname (desktopPath h))) \<and>
       \<not> fst (isPathWriteable fs (path_dirname (docsPath h))) \<and> \<not> can_create fs (homePath h)) \<longrightarrow>
      fst (getBestSavePath h fs) = Inr (fallbackPath h))"
proof
  assume a: "\<not> override_taken h fs \<and> can_create fs (fallbackPath h) \<and>
    (process_env h ''SAVE_TO_DESKTOP'' = Some ''true'' \<and> \<not> can_create fs (desktopPath h) \<or>
     process_env h ''SAVE_TO_DESKTOP'' \<noteq> Some ''true'' \<and>
       existsSync fs (path_dirname (desktopPath h)) \<and>
       \<not> access_fails fs (path_dirname (desktopPath h)) \<and> \<not> can_create fs (desktopPath h) \<or>
     process_env h ''SAVE_TO_DESKTOP'' \<noteq> Some ''true'' \<and>
       \<not> fst (isPathWriteable fs (path_dirname (desktopPath h))) \<and>
       existsSync fs (path_dirname (docsPath h)) \<and>
       \<not> access_fails fs (path_dirname (docsPath h)) \<and> \<not> can_create fs (docsPath h) \<or>
     process_env h ''SAVE_TO_DESKTOP'' \<noteq> Some ''true'' \<and>
       \<not> fst (isPathWriteable fs (path_dirname (desktopPath h))) \<and>
       \<not> fst (isPathWriteable fs (path_dirname (docsPath h))) \<and> \<not> can_create fs (homePath h))"
  then have no: "\<not> override_taken h fs" and f: "can_create fs (fallbackPath h)" by simp_all
  have "\<exists>e. fst (getBestSavePath_try h fs) = Inl e"
    using a try_results [OF no]
      isPathWriteable_snd(2) [of fs "path_dirname (desktopPath h)"]
      isPathWriteable_snd(2) [of fs "path_dirname (docsPath h)"]
      isPathWriteable_fst [of fs "path_dirname (desktopPath h)"]
      isPathWriteable_fst [of fs "path_dirname (docsPath h)"]
    by auto
  then show "fst (getBestSavePath h fs) = Inr (fallbackPath h)"
    using best_of_try_fail(1) f by blast
qed

lemma best_total:
  "(fst (getBestSavePath h fs) = Inr p \<longrightarrow>
      (\<exists>v. env_set h ''OUTPUT_DIR'' = Some v \<and> p = outputDir h v) \<or>
      p = desktopPath h \<or> p = docsPath h \<or> p = homePath h \<or> p = fallbackPath h)"
  "(fst (getBestSavePath h fs) = Inl e \<longrightarrow>
      e = MkdirFailed (fallbackPath h) \<and> mkdir_fails fs (fallbackPath h))"
proof -
  show "fst (getBestSavePath h fs) = Inr p \<longrightarrow>
      (\<exists>v. env_set h ''OUTPUT_DIR'' = Some v \<and> p = outputDir h v) \<or>
      p = desktopPath h \<or> p = docsPath h \<or> p = homePath h \<or> p = fallbackPath h"
  proof (cases "fst (getBestSavePath_try h fs)")
    case (Inr d)
    then show ?thesis using best_of_try [OF Inr] try_candidates [OF Inr] by auto
  next
    case (Inl e0)
    then show ?thesis using best_of_try_fail(2) [OF Inl] by blast
  qed
  show "fst (getBestSavePath h fs) = Inl e \<longrightarrow>
      e = MkdirFailed (fallbackPath h) \<and> mkdir_fails fs (fallbackPath h)"
  proof (cases "fst (getBestSavePath_try h fs)")
    case (Inr d)
    then show ?thesis using best_of_try [OF Inr] by simp
  next
    case (Inl e0)
    then show ?thesis using best_of_try_fail(3) [OF Inl] by blast
  qed
qed

subsection \<open>Claims about the save location\<close>

text \<open>
  Claim C5, as amended: the order in which the save logic tries its candidate locations,
  for two of the functions that decide it, the one the claim cites and the one that has the
  claim's five candidates.

  \<^verbatim>\<open>saveImageWithProperPath\<close> of the server with the file-system tools, which the claim
  cites, tries two places. The first is the \<^verbatim>\<open>generated-images\<close> folder under the desktop
  path when \<^verbatim>\<open>SAVE_TO_DESKTOP\<close> is \<^verbatim>\<open>true\<close>, and under the working directory otherwise; when
  creating that folder or writing into it fails (or, with \<^verbatim>\<open>SAVE_TO_DESKTOP\<close>, when
  \<^verbatim>\<open>os.userInfo()\<close> fails), the second is the \<^verbatim>\<open>output\<close> folder under the working
  directory. The first place where creation and write go through wins, and the value of
  \<^verbatim>\<open>OUTPUT_DIR\<close> changes nothing. The desktop path is the home directory when
  \<^verbatim>\<open>os.userInfo()\<close> fails; otherwise \<^verbatim>\<open>Desktop\<close> under the home directory on macOS; on Linux
  the directory \<^verbatim>\<open>XDG_DESKTOP_DIR\<close> names when it exists, else \<^verbatim>\<open>Desktop\<close> under the home
  directory when that exists, else the home directory; on Windows \<^verbatim>\<open>Desktop\<close> under
  \<^verbatim>\<open>USERPROFILE\<close> (under the join of \<^verbatim>\<open>C:\<close>, \<^verbatim>\<open>Users\<close> and the user name without it) when
  that exists, else the home directory.

  \<^verbatim>\<open>getBestSavePath\<close>, the resolver of the copy with a documents tier, goes through the
  claim's five candidates in the claim's order: the \<^verbatim>\<open>OUTPUT_DIR\<close> override, resolved against
  the working directory, when it is set and passes the writability test; otherwise the
  \<^verbatim>\<open>mcp-3d-cartoons\<close> folder under the desktop directory, without a test when
  \<^verbatim>\<open>SAVE_TO_DESKTOP\<close> is \<^verbatim>\<open>true\<close> and else when the desktop directory passes the test; else
  the same folder under the documents directory when that directory passes the test; else
  the same folder under the home directory, without a test; and the \<^verbatim>\<open>output\<close> folder under
  the working directory when the folder chosen so far cannot be created. It returns one of
  these five, and the only error it lets through is the failure to create the last. The test
  accepts a missing directory when it can be created and an existing one when
  \<^verbatim>\<open>accessSync\<close> grants write access.
\<close>

theorem saveImage_order:
  "(primary_succeeds h fs n \<longrightarrow>
      fst (saveImageWithProperPath h fs b n) =
        Inr (path_normalize (path_join [primaryDir h fs, n]))) \<and>
   (\<not> primary_succeeds h fs n \<and> fallback_succeeds h fs n \<longrightarrow>
      fst (saveImageWithProperPath h fs b n) = Inr (path_join [fallbackDir h, n])) \<and>
   saveImageWithProperPath (h\<lparr>process_env := (process_env h)(''OUTPUT_DIR'' := x)\<rparr>) fs b n =
     saveImageWithProperPath h fs b n \<and>
   primaryDir h fs =
     (if process_env h ''SAVE_TO_DESKTOP'' = Some ''true''
      then path_join [getDesktopPath h fs, ''generated-images'']
      else path_join [process_cwd h, ''generated-images'']) \<and>
   fallbackDir h = path_join [process_cwd h, ''output''] \<and>
   primary_succeeds h fs n =
     (\<not> (process_env h ''SAVE_TO_DESKTOP'' = Some ''true'' \<and> os_username h = None) \<and>
      can_create fs (primaryDir h fs) \<and>
      \<not> write_fails fs (path_normalize (path_join [primaryDir h fs, n]))) \<and>
   fallback_succeeds h fs n =
     (can_create fs (fallbackDir h) \<and> \<not> write_fails fs (path_join [fallbackDir h, n])) \<and>
   (os_username h = None \<longrightarrow> getDesktopPath h fs = os_homedir h) \<and>
   (os_username h \<noteq> None \<and> os_platform h = Darwin \<longrightarrow>
      getDesktopPath h fs = path_join [os_homedir h, ''Desktop'']) \<and>
   (os_username h \<noteq> None \<and> os_platform h = Linux \<and>
    env_set h ''XDG_DESKTOP_DIR'' = Some xdg \<and> existsSync fs xdg \<longrightarrow>
      getDesktopPath h fs = xdg) \<and>
   (os_username h \<noteq> None \<and> os_platform h = Linux \<and>
    \<not> (\<exists>d. env_set h ''XDG_DESKTOP_DIR'' = Some d \<and> existsSync fs d) \<longrightarrow>
      getDesktopPath h fs =
        (if existsSync fs (path_join [os_homedir h, ''Desktop''])
         then path_join [os_homedir h, ''Desktop''] else os_homedir h)) \<and>
   (os_username h = Some u \<and> os_platform h = Win32 \<longrightarrow>
      getDesktopPath h fs =
        (if existsSync fs
              (case env_set h ''USERPROFILE'' of
                 Some profile \<Rightarrow> path_join [profile, ''Desktop'']
               | None \<Rightarrow> path_join [''C:'', ''Users'', u, ''Desktop''])
         then (case env_set h ''USERPROFILE'' of
                 Some profile \<Rightarrow> path_join [profile, ''Desktop'']
               | None \<Rightarrow> path_join [''C:'', ''Users'', u, ''Desktop''])
         else os_homedir h)) \<and>
   (env_set h ''OUTPUT_DIR'' = Some v \<and> fst (isPathWriteable fs (outputDir h v)) \<longrightarrow>
      fst (getBestSavePath h fs) = Inr (outputDir h v)) \<and>
   (\<not> override_taken h fs \<and> process_env h ''SAVE_TO_DESKTOP'' = Some ''true'' \<and>
    can_create fs (desktopPath h) \<longrightarrow>
      fst (getBestSavePath h fs) = Inr (desktopPath h)) \<and>
   (\<not> override_taken h fs \<and> process_env h ''SAVE_TO_DESKTOP'' \<noteq> Some ''true'' \<and>
    fst (isPathWriteable fs (path_dirname (desktopPath h))) \<and> can_create fs (desktopPath h) \<longrightarrow>
      fst (getBestSavePath h fs) = Inr (desktopPath h)) \<and>
   (\<not> override_taken h fs \<and> process_env h ''SAVE_TO_DESKTOP'' \<noteq> Some ''true'' \<and>
    \<not> fst (isPathWriteable fs (path_dirname (desktopPath h))) \<and>
    fst (isPathWriteable fs (path_dirname (docsPath h))) \<and> can_create fs (docsPath h) \<longrightarrow>
      fst (getBestSavePath h fs) = Inr (docsPath h)) \<and>
   (\<not> override_taken h fs \<and> process_env h ''SAVE_TO_DESKTOP'' \<noteq> Some ''true'' \<and>
    \<not> fst (isPathWriteable fs (path_dirname (desktopPath h))) \<and>
    \<not> fst (isPathWriteable fs (path_dirname (docsPath h))) \<and> can_create fs (homePath h) \<longrightarrow>
      fst (getBestSavePath h fs) = Inr (homePath h)) \<and>
   (\<not> override_taken h fs \<and> can_create fs (fallbackPath h) \<and>
    (process_env h ''SAVE_TO_DESKTOP'' = Some ''true'' \<and> \<not> can_create fs (desktopPath h) \<or>
     process_env h ''SAVE_TO_DESKTOP'' \<noteq> Some ''true'' \<and>
       existsSync fs (path_dirname (desktopPath h)) \<and>
       \<not> access_fails fs (path_dirname (desktopPath h)) \<and> \<not> can_create fs (desktopPath h) \<or>
     process_env h ''SAVE_TO_DESKTOP'' \<noteq> Some ''true'' \<and>
       \<not> fst (isPathWriteable fs (path_dirname (desktopPath h))) \<and>
       existsSync fs (path_dirname (docsPath h)) \<and>
       \<not> access_fails fs (path_dirname (docsPath h)) \<and> \<not> can_create fs (docsPath h) \<or>
     process_env h ''SAVE_TO_DESKTOP'' \<noteq> Some ''true'' \<and>
       \<not> fst (isPathWriteable fs (path_dirname (desktopPath h))) \<and>
       \<not> fst (isPathWriteable fs (path_dirname (docsPath h))) \<and> \<not> can_create fs (homePath h)) \<longrightarrow>
      fst (getBestSavePath h fs) = Inr (fallbackPath h)) \<and>
   (fst (getBestSavePath h fs) = Inr p \<longrightarrow>
      (\<exists>v. env_set h ''OUTPUT_DIR'' = Some v \<and> p = outputDir h v) \<or>
      p = desktopPath h \<or> p = docsPath h \<or> p = homePath h \<or> p = fallbackPath h) \<and>
   (fst (getBestSavePath h fs) = Inl e \<longrightarrow>
      e = MkdirFailed (fallbackPath h) \<and> mkdir_fails fs (fallbackPath h)) \<and>
   fst (isPathWriteable fs d) =
     (if existsSync fs d then \<not> access_fails fs d else \<not> mkdir_fails fs d) \<and>
   can_create fs d = (existsSync fs d \<or> \<not> mkdir_fails fs d) \<and>
   override_taken h fs =
     (\<exists>v. env_set h ''OUTPUT_DIR'' = Some v \<and> fst (isPathWriteable fs (outputDir h v))) \<and>
   outputDir h v = path_resolve (process_cwd h) [v] \<and>
   desktopPath h = path_join [getDesktopPath_best h, ''mcp-3d-cartoons''] \<and>
   docsPath h = path_join [getDocumentsPath h, ''mcp-3d-cartoons''] \<and>
   homePath h = path_join [os_homedir h, ''mcp-3d-cartoons''] \<and>
   fallbackPath h = path_join [process_cwd h, ''output''] \<and>
   getDesktopPath_best h =
     path_join [if os_platform h = Win32
                then (case env_set h ''USERPROFILE'' of
                        Some profile \<Rightarrow> profile | None \<Rightarrow> os_homedir h)
                else os_homedir h, ''Desktop''] \<and>
   getDocumentsPath h =
     (if os_platform h = Win32
      then path_join [case env_set h ''USERPROFILE'' of
                        Some profile \<Rightarrow> profile | None \<Rightarrow> os_homedir h,
                      ''Documents'']
      else if os_platform h = Darwin then path_join [os_homedir h, ''Documents'']
      else os_homedir h)"
proof -
  have a1: "primary_succeeds h fs n \<longrightarrow>
      fst (saveImageWithProperPath h fs b n) =
        Inr (path_normalize (path_join [primaryDir h fs, n]))"
    using save_try_ok(1) by (simp add: save_cases)
  have a2: "\<not> primary_succeeds h fs n \<and> fallback_succeeds h fs n \<longrightarrow>
      fst (saveImageWithProperPath h fs b n) = Inr (path_join [fallbackDir h, n])"
    using fallback_after_try(1) by (simp add: save_cases)
  have a3: "primary_succeeds h fs n =
     (\<not> (process_env h ''SAVE_TO_DESKTOP'' = Some ''true'' \<and> os_username h = None) \<and>
      can_create fs (primaryDir h fs) \<and>
      \<not> write_fails fs (path_normalize (path_join [primaryDir h fs, n])))"
    by (simp add: primary_succeeds_def can_create_def)
  have a4: "fallback_succeeds h fs n =
     (can_create fs (fallbackDir h) \<and> \<not> write_fails fs (path_join [fallbackDir h, n]))"
    by (simp add: fallback_succeeds_def can_create_def)
  show ?thesis
    by (intro conjI)
      (rule a1 a2 a3 a4 output_dir_ignored primaryDir_def fallbackDir_def getDesktopPath_cases
         best_order best_fallback best_total isPathWriteable_fst can_create_def
         override_taken_iff outputDir_def desktopPath_def docsPath_def homePath_def
         fallbackPath_def best_paths)+
qed

theorem saveImage_order_witness:
  "primary_succeeds desktop_host open_fs ''cat.png'' \<and>
   fst (saveImageWithProperPath desktop_host open_fs ''PNG'' ''cat.png'') =
     Inr (path_normalize (path_join [primaryDir desktop_host open_fs, ''cat.png''])) \<and>
   path_normalize (path_join [primaryDir desktop_host open_fs, ''cat.png'']) =
     ''/home/alice/Desktop/generated-images/cat.png'' \<and>
   \<not> primary_succeeds desktop_host readonly_home_fs ''cat.png'' \<and>
   fallback_succeeds desktop_host readonly_home_fs ''cat.png'' \<and>
   fst (saveImageWithProperPath desktop_host readonly_home_fs ''PNG'' ''cat.png'') =
     Inr (path_join [fallbackDir desktop_host, ''cat.png'']) \<and>
   path_join [fallbackDir desktop_host, ''cat.png''] = ''/srv/app/output/cat.png'' \<and>
   fst (saveImageWithProperPath
          (example_host\<lparr>process_env := (process_env example_host)(''OUTPUT_DIR'' := Some ''/tmp/out'')\<rparr>)
          open_fs ''PNG'' ''cat.png'') = Inr ''/srv/app/generated-images/cat.png'' \<and>
   os_username desktop_host \<noteq> None \<and> os_platform desktop_host = Linux \<and>
   env_set desktop_host ''XDG_DESKTOP_DIR'' = None \<and>
   \<not> existsSync closed_fs (path_join [os_homedir desktop_host, ''Desktop'']) \<and>
   getDesktopPath desktop_host closed_fs = ''/home/alice'' \<and>
   os_username (desktop_host\<lparr>os_username := None\<rparr>) = None \<and>
   getDesktopPath (desktop_host\<lparr>os_username := None\<rparr>) open_fs = ''/home/alice'' \<and>
   os_username mac_host \<noteq> None \<and> os_platform mac_host = Darwin \<and>
   getDesktopPath mac_host mac_fs = ''/Users/alice/Desktop'' \<and>
   os_username xdg_host \<noteq> None \<and> os_platform xdg_host = Linux \<and>
   env_set xdg_host ''XDG_DESKTOP_DIR'' = Some ''/home/alice/Schreibtisch'' \<and>
   existsSync xdg_fs ''/home/alice/Schreibtisch'' \<and>
   getDesktopPath xdg_host xdg_fs = ''/home/alice/Schreibtisch'' \<and>
   os_username win_host = Some ''alice'' \<and> os_platform win_host = Win32 \<and>
   getDesktopPath win_host closed_fs = ''C:/Users/alice'' \<and>
   env_set mac_host_override ''OUTPUT_DIR'' = Some ''out'' \<and>
   fst (isPathWriteable mac_fs (outputDir mac_host_override ''out'')) \<and>
   fst (getBestSavePath mac_host_override mac_fs) = Inr ''/srv/app/out'' \<and>
   \<not> override_taken mac_host_override mac_fs_cwd_ro \<and>
   fst (getBestSavePath mac_host_override mac_fs_cwd_ro) =
     Inr ''/Users/alice/Desktop/mcp-3d-cartoons'' \<and>
   \<not> override_taken mac_host mac_fs \<and>
   process_env mac_host ''SAVE_TO_DESKTOP'' \<noteq> Some ''true'' \<and>
   fst (isPathWriteable mac_fs (path_dirname (desktopPath mac_host))) \<and>
   can_create mac_fs (desktopPath mac_host) \<and>
   fst (getBestSavePath mac_host mac_fs) = Inr ''/Users/alice/Desktop/mcp-3d-cartoons'' \<and>
   \<not> fst (isPathWriteable mac_fs_desktop_ro (path_dirname (desktopPath mac_host))) \<and>
   fst (isPathWriteable mac_fs_desktop_ro (path_dirname (docsPath mac_host))) \<and>
   can_create mac_fs_desktop_ro (docsPath mac_host) \<and>
   fst (getBestSavePath mac_host mac_fs_desktop_ro) = Inr ''/Users/alice/Documents/mcp-3d-cartoons'' \<and>
   \<not> fst (isPathWriteable mac_fs_both_ro (path_dirname (desktopPath mac_host))) \<and>
   \<not> fst (isPathWriteable mac_fs_both_ro (path_dirname (docsPath mac_host))) \<and>
   can_create mac_fs_both_ro (homePath mac_host) \<and>
   fst (getBestSavePath mac_host mac_fs_both_ro) = Inr ''/Users/alice/mcp-3d-cartoons'' \<and>
   \<not> can_create mac_fs_home_ro (homePath mac_host) \<and>
   can_create mac_fs_home_ro (fallbackPath mac_host) \<and>
   fst (getBestSavePath mac_host mac_fs_home_ro) = Inr ''/srv/app/output'' \<and>
   process_env mac_host_forced ''SAVE_TO_DESKTOP'' = Some ''true'' \<and>
   fst (getBestSavePath mac_host_forced mac_fs) = Inr ''/Users/alice/Desktop/mcp-3d-cartoons'' \<and>
   \<not> can_create mac_fs_desktop_ro (desktopPath mac_host_forced) \<and>
   fst (getBestSavePath mac_host_forced mac_fs_desktop_ro) = Inr ''/srv/app/output'' \<and>
   existsSync mac_fs_folder_blocked (path_dirname (desktopPath mac_host)) \<and>
   \<not> access_fails mac_fs_folder_blocked (path_dirname (desktopPath mac_host)) \<and>
   \<not> can_create mac_fs_folder_blocked (desktopPath mac_host) \<and>
   fst (isPathWriteable mac_fs_folder_blocked (path_dirname (docsPath mac_host))) \<and>
   fst (getBestSavePath mac_host mac_fs_folder_blocked) = Inr ''/srv/app/output'' \<and>
   existsSync mac_fs_docs_blocked (path_dirname (docsPath mac_host)) \<and>
   \<not> access_fails mac_fs_docs_blocked (path_dirname (docsPath mac_host)) \<and>
   \<not> can_create mac_fs_docs_blocked (docsPath mac_host) \<and>
   fst (getBestSavePath mac_host mac_fs_docs_blocked) = Inr ''/srv/app/output'' \<and>
   ((\<exists>v. env_set mac_host ''OUTPUT_DIR'' = Some v \<and>
         ''/Users/alice/Desktop/mcp-3d-cartoons'' = outputDir mac_host v) \<or>
    ''/Users/alice/Desktop/mcp-3d-cartoons'' = desktopPath mac_host \<or>
    ''/Users/alice/Desktop/mcp-3d-cartoons'' = docsPath mac_host \<or>
    ''/Users/alice/Desktop/mcp-3d-cartoons'' = homePath mac_host \<or>
    ''/Users/alice/Desktop/mcp-3d-cartoons'' = fallbackPath mac_host) \<and>
   fst (getBestSavePath mac_host closed_fs) = Inl (MkdirFailed ''/srv/app/output'') \<and>
   mkdir_fails closed_fs (fallbackPath mac_host)"
proof -
  have dp: "desktopPath mac_host = ''/Users/alice/Desktop/mcp-3d-cartoons''"
    "desktopPath mac_host_override = ''/Users/alice/Desktop/mcp-3d-cartoons''"
    "desktopPath mac_host_forced = ''/Users/alice/Desktop/mcp-3d-cartoons''"
    "docsPath mac_host = ''/Users/alice/Documents/mcp-3d-cartoons''"
    "homePath mac_host = ''/Users/alice/mcp-3d-cartoons''"
    "fallbackPath mac_host = ''/srv/app/output''"
    "fallbackPath mac_host_forced = ''/srv/app/output''"
    "outputDir mac_host_override ''out'' = ''/srv/app/out''"
    by code_simp+
  have a: "primary_succeeds desktop_host open_fs ''cat.png''" by code_simp
  have b: "path_normalize (path_join [primaryDir desktop_host open_fs, ''cat.png'']) =
     ''/home/alice/Desktop/generated-images/cat.png''" by code_simp
  have c: "\<not> primary_succeeds desktop_host readonly_home_fs ''cat.png''" by code_simp
  have d: "fallback_succeeds desktop_host readonly_home_fs ''cat.png''" by code_simp
  have e: "path_join [fallbackDir desktop_host, ''cat.png''] = ''/srv/app/output/cat.png''"
    by code_simp
  have f: "fst (saveImageWithProperPath example_host open_fs ''PNG'' ''cat.png'') =
     Inr ''/srv/app/generated-images/cat.png''" by code_simp
  have r1: "fst (saveImageWithProperPath desktop_host open_fs ''PNG'' ''cat.png'') =
     Inr (path_normalize (path_join [primaryDir desktop_host open_fs, ''cat.png'']))"
    using saveImage_order
      [where h = desktop_host and fs = open_fs and n = "''cat.png''" and b = "''PNG''", THEN conjunct1]
      a
    by blast
  have r2: "fst (saveImageWithProperPath desktop_host readonly_home_fs ''PNG'' ''cat.png'') =
     Inr (path_join [fallbackDir desktop_host, ''cat.png''])"
    using saveImage_order
      [where h = desktop_host and fs = readonly_home_fs and n = "''cat.png''" and b = "''PNG''", THEN conjunct2, THEN conjunct1]
      c d
    by blast
  have "saveImageWithProperPath
       (example_host\<lparr>process_env := (process_env example_host)(''OUTPUT_DIR'' := Some ''/tmp/out'')\<rparr>)
       open_fs ''PNG'' ''cat.png'' =
     saveImageWithProperPath example_host open_fs ''PNG'' ''cat.png''"
    using saveImage_order
      [where h = example_host and fs = open_fs and n = "''cat.png''" and b = "''PNG''" and x = "Some ''/tmp/out''", THEN conjunct2, THEN conjunct2, THEN conjunct1]
      
    by blast
  then have r3: "fst (saveImageWithProperPath
          (example_host\<lparr>process_env := (process_env example_host)(''OUTPUT_DIR'' := Some ''/tmp/out'')\<rparr>)
          open_fs ''PNG'' ''cat.png'') = Inr ''/srv/app/generated-images/cat.png''"
    using f by simp
  have g: "os_username desktop_host \<noteq> None" "os_platform desktop_host = Linux"
    "env_set desktop_host ''XDG_DESKTOP_DIR'' = None"
    "\<not> existsSync closed_fs (path_join [os_homedir desktop_host, ''Desktop''])"
    "os_homedir desktop_host = ''/home/alice''"
    by code_simp+
  have "getDesktopPath desktop_host closed_fs =
      (if existsSync closed_fs (path_join [os_homedir desktop_host, ''Desktop''])
       then path_join [os_homedir desktop_host, ''Desktop''] else os_homedir desktop_host)"
    using saveImage_order
      [where h = desktop_host and fs = closed_fs, THEN conjunct2, THEN conjunct2, THEN conjunct2, THEN conjunct2, THEN conjunct2, THEN conjunct2, THEN conjunct2, THEN conjunct2, THEN conjunct2, THEN conjunct2, THEN conjunct1]
      g(1,2,3)
    by simp
  then have r4: "getDesktopPath desktop_host closed_fs = ''/home/alice''"
    using g(4,5) by simp
  have u0: "os_username (desktop_host\<lparr>os_username := None\<rparr>) = None"
    "os_homedir (desktop_host\<lparr>os_username := None\<rparr>) = ''/home/alice''"
    by code_simp+
  have "getDesktopPath (desktop_host\<lparr>os_username := None\<rparr>) open_fs =
      os_homedir (desktop_host\<lparr>os_username := None\<rparr>)"
    using saveImage_order
      [where h = "desktop_host\<lparr>os_username := None\<rparr>" and fs = open_fs, THEN conjunct2, THEN conjunct2, THEN conjunct2, THEN conjunct2, THEN conjunct2, THEN conjunct2, THEN conjunct2, THEN conjunct1]
      u0(1)
    by blast
  then have r4a: "getDesktopPath (desktop_host\<lparr>os_username := None\<rparr>) open_fs = ''/home/alice''"
    by (simp only: u0(2))
  have u1: "os_username mac_host \<noteq> None" "os_platform mac_host = Darwin"
    "path_join [os_homedir mac_host, ''Desktop''] = ''/Users/alice/Desktop''"
    by code_simp+
  have "getDesktopPath mac_host mac_fs = path_join [os_homedir mac_host, ''Desktop'']"
    using saveImage_order [where h = mac_host and fs = mac_fs, THEN conjunct2, THEN conjunct2, THEN conjunct2, THEN conjunct2, THEN conjunct2, THEN conjunct2, THEN conjunct2, THEN conjunct2, THEN conjunct1] u1(1,2)
    by blast
  then have r4b: "getDesktopPath mac_host mac_fs = ''/Users/alice/Desktop''"
    by (simp only: u1(3))
  have u2: "os_username xdg_host \<noteq> None" "os_platform xdg_host = Linux"
    "env_set xdg_host ''XDG_DESKTOP_DIR'' = Some ''/home/alice/Schreibtisch''"
    "existsSync xdg_fs ''/home/alice/Schreibtisch''"
    by code_simp+
  have r4c: "getDesktopPath xdg_host xdg_fs = ''/home/alice/Schreibtisch''"
    using saveImage_order
      [where h = xdg_host and fs = xdg_fs and xdg = "''/home/alice/Schreibtisch''", THEN conjunct2, THEN conjunct2, THEN conjunct2, THEN conjunct2, THEN conjunct2, THEN conjunct2, THEN conjunct2, THEN conjunct2, THEN conjunct2, THEN conjunct1]
      u2
    by blast
  have u3: "os_username win_host = Some ''alice''" "os_platform win_host = Win32"
    "\<not> existsSync closed_fs
        (case env_set win_host ''USERPROFILE'' of
           Some profile \<Rightarrow> path_join [profile, ''Desktop'']
         | None \<Rightarrow> path_join [''C:'', ''Users'', ''alice'', ''Desktop''])"
    "os_homedir win_host = ''C:/Users/alice''"
    by code_simp+
  have "getDesktopPath win_host closed_fs =
      (if existsSync closed_fs
            (case env_set win_host ''USERPROFILE'' of
               Some profile \<Rightarrow> path_join [profile, ''Desktop'']
             | None \<Rightarrow> path_join [''C:'', ''Users'', ''alice'', ''Desktop''])
       then (case env_set win_host ''USERPROFILE'' of
               Some profile \<Rightarrow> path_join [profile, ''Desktop'']
             | None \<Rightarrow> path_join [''C:'', ''Users'', ''alice'', ''Desktop''])
       else os_homedir win_host)"
    using saveImage_order
      [where h = win_host and fs = closed_fs and u = "''alice''", THEN conjunct2, THEN conjunct2, THEN conjunct2, THEN conjunct2, THEN conjunct2, THEN conjunct2, THEN conjunct2, THEN conjunct2, THEN conjunct2, THEN conjunct2, THEN conjunct2, THEN conjunct1]
      u3(1,2)
    by blast
  then have r4d: "getDesktopPath win_host closed_fs = ''C:/Users/alice''"
    using u3(3) by (simp only: if_False u3(4))
  have o1: "env_set mac_host_override ''OUTPUT_DIR'' = Some ''out''"
    "fst (isPathWriteable mac_fs (outputDir mac_host_override ''out''))"
    by code_simp+
  have "fst (getBestSavePath mac_host_override mac_fs) = Inr (outputDir mac_host_override ''out'')"
    using saveImage_order
      [where h = mac_host_override and fs = mac_fs and v = "''out''", THEN conjunct2, THEN conjunct2, THEN conjunct2, THEN conjunct2, THEN conjunct2, THEN conjunct2, THEN conjunct2, THEN conjunct2, THEN conjunct2, THEN conjunct2, THEN conjunct2, THEN conjunct2, THEN conjunct1]
      o1
    by blast
  then have r5: "fst (getBestSavePath mac_host_override mac_fs) = Inr ''/srv/app/out''"
    by (simp only: dp)
  have o2: "\<not> override_taken mac_host_override mac_fs_cwd_ro"
    "process_env mac_host_override ''SAVE_TO_DESKTOP'' \<noteq> Some ''true''"
    "fst (isPathWriteable mac_fs_cwd_ro (path_dirname (desktopPath mac_host_override)))"
    "can_create mac_fs_cwd_ro (desktopPath mac_host_override)"
    by code_simp+
  have "fst (getBestSavePath mac_host_override mac_fs_cwd_ro) = Inr (desktopPath mac_host_override)"
    using saveImage_order
      [where h = mac_host_override and fs = mac_fs_cwd_ro, THEN conjunct2, THEN conjunct2, THEN conjunct2, THEN conjunct2, THEN conjunct2, THEN conjunct2, THEN conjunct2, THEN conjunct2, THEN conjunct2, THEN conjunct2, THEN conjunct2, THEN conjunct2, THEN conjunct2, THEN conjunct2, THEN conjunct1]
      o2
    by blast
  then have r6: "fst (getBestSavePath mac_host_override mac_fs_cwd_ro) =
      Inr ''/Users/alice/Desktop/mcp-3d-cartoons''"
    by (simp only: dp)
  have m: "\<not> override_taken mac_host mac_fs"
    "process_env mac_host ''SAVE_TO_DESKTOP'' \<noteq> Some ''true''"
    "fst (isPathWriteable mac_fs (path_dirname (desktopPath mac_host)))"
    "can_create mac_fs (desktopPath mac_host)"
    by code_simp+
  have "fst (getBestSavePath mac_host mac_fs) = Inr (desktopPath mac_host)"
    using saveImage_order
      [where h = mac_host and fs = mac_fs, THEN conjunct2, THEN conjunct2, THEN conjunct2, THEN conjunct2, THEN conjunct2, THEN conjunct2, THEN conjunct2, THEN conjunct2, THEN conjunct2, THEN conjunct2, THEN conjunct2, THEN conjunct2, THEN conjunct2, THEN conjunct2, THEN conjunct1]
      m
    by blast
  then have r7: "fst (getBestSavePath mac_host mac_fs) = Inr ''/Users/alice/Desktop/mcp-3d-cartoons''"
    by (simp only: dp)
  have m2: "\<not> override_taken mac_host mac_fs_desktop_ro"
    "\<not> fst (isPathWriteable mac_fs_desktop_ro (path_dirname (desktopPath mac_host)))"
    "fst (isPathWriteable mac_fs_desktop_ro (path_dirname (docsPath mac_host)))"
    "can_create mac_fs_desktop_ro (docsPath mac_host)"
    by code_simp+
  have "fst (getBestSavePath mac_host mac_fs_desktop_ro) = Inr (docsPath mac_host)"
    using saveImage_order
      [where h = mac_host and fs = mac_fs_desktop_ro, THEN conjunct2, THEN conjunct2, THEN conjunct2, THEN conjunct2, THEN conjunct2, THEN conjunct2, THEN conjunct2, THEN conjunct2, THEN conjunct2, THEN conjunct2, THEN conjunct2, THEN conjunct2, THEN conjunct2, THEN conjunct2, THEN conjunct2, THEN conjunct1]
      m(2) m2
    by blast
  then have r8: "fst (getBestSavePath mac_host mac_fs_desktop_ro) =
      Inr ''/Users/alice/Documents/mcp-3d-cartoons''"
    by (simp only: dp)
  have m3: "\<not> override_taken mac_host mac_fs_both_ro"
    "\<not> fst (isPathWriteable mac_fs_both_ro (path_dirname (desktopPath mac_host)))"
    "\<not> fst (isPathWriteable mac_fs_both_ro (path_dirname (docsPath mac_host)))"
    "can_create mac_fs_both_ro (homePath mac_host)"
    by code_simp+
  have "fst (getBestSavePath mac_host mac_fs_both_ro) = Inr (homePath mac_host)"
    using saveImage_order
      [where h = mac_host and fs = mac_fs_both_ro, THEN conjunct2, THEN conjunct2, THEN conjunct2, THEN conjunct2, THEN conjunct2, THEN conjunct2, THEN conjunct2, THEN conjunct2, THEN conjunct2, THEN conjunct2, THEN conjunct2, THEN conjunct2, THEN conjunct2, THEN conjunct2, THEN conjunct2, THEN conjunct2, THEN conjunct1]
      m(2) m3
    by blast
  then have r9: "fst (getBestSavePath mac_host mac_fs_both_ro) = Inr ''/Users/alice/mcp-3d-cartoons''"
    by (simp only: dp)
  have m4: "\<not> override_taken mac_host mac_fs_home_ro"
    "\<not> fst (isPathWriteable mac_fs_home_ro (path_dirname (desktopPath mac_host)))"
    "\<not> fst (isPathWriteable mac_fs_home_ro (path_dirname (docsPath mac_host)))"
    "\<not> can_create mac_fs_home_ro (homePath mac_host)"
    "can_create mac_fs_home_ro (fallbackPath mac_host)"
    by code_simp+
  have "fst (getBestSavePath mac_host mac_fs_home_ro) = Inr (fallbackPath mac_host)"
    using saveImage_order
      [where h = mac_host and fs = mac_fs_home_ro, THEN conjunct2, THEN conjunct2, THEN conjunct2, THEN conjunct2, THEN conjunct2, THEN conjunct2, THEN conjunct2, THEN conjunct2, THEN conjunct2, THEN conjunct2, THEN conjunct2, THEN conjunct2, THEN conjunct2, THEN conjunct2, THEN conjunct2, THEN conjunct2, THEN conjunct2, THEN conjunct1]
      m(2) m4
    by blast
  then have r10: "fst (getBestSavePath mac_host mac_fs_home_ro) = Inr ''/srv/app/output''"
    by (simp only: dp)
  have k: "\<not> override_taken mac_host_forced mac_fs"
    "process_env mac_host_forced ''SAVE_TO_DESKTOP'' = Some ''true''"
    "can_create mac_fs (desktopPath mac_host_forced)"
    "\<not> override_taken mac_host_forced mac_fs_desktop_ro"
    "\<not> can_create mac_fs_desktop_ro (desktopPath mac_host_forced)"
    "can_create mac_fs_desktop_ro (fallbackPath mac_host_forced)"
    by code_simp+
  have "fst (getBestSavePath mac_host_forced mac_fs) = Inr (desktopPath mac_host_forced)"
    using saveImage_order
      [where h = mac_host_forced and fs = mac_fs, THEN conjunct2, THEN conjunct2, THEN conjunct2, THEN conjunct2, THEN conjunct2, THEN conjunct2, THEN conjunct2, THEN conjunct2, THEN conjunct2, THEN conjunct2, THEN conjunct2, THEN conjunct2, THEN conjunct2, THEN conjunct1]
      k(1,2,3)
    by blast
  then have r11: "fst (getBestSavePath mac_host_forced mac_fs) =
      Inr ''/Users/alice/Desktop/mcp-3d-cartoons''"
    by (simp only: dp)
  have "fst (getBestSavePath mac_host_forced mac_fs_desktop_ro) = Inr (fallbackPath mac_host_forced)"
    using saveImage_order
      [where h = mac_host_forced and fs = mac_fs_desktop_ro, THEN conjunct2, THEN conjunct2, THEN conjunct2, THEN conjunct2, THEN conjunct2, THEN conjunct2, THEN conjunct2, THEN conjunct2, THEN conjunct2, THEN conjunct2, THEN conjunct2, THEN conjunct2, THEN conjunct2, THEN conjunct2, THEN conjunct2, THEN conjunct2, THEN conjunct2, THEN conjunct1]
      k(2,4,5,6)
    by blast
  then have r12: "fst (getBestSavePath mac_host_forced mac_fs_desktop_ro) = Inr ''/srv/app/output''"
    by (simp only: dp)
  have q: "\<not> override_taken mac_host mac_fs_folder_blocked"
    "existsSync mac_fs_folder_blocked (path_dirname (desktopPath mac_host))"
    "\<not> access_fails mac_fs_folder_blocked (path_dirname (desktopPath mac_host))"
    "\<not> can_create mac_fs_folder_blocked (desktopPath mac_host)"
    "fst (isPathWriteable mac_fs_folder_blocked (path_dirname (docsPath mac_host)))"
    "can_create mac_fs_folder_blocked (fallbackPath mac_host)"
    by code_simp+
  have "fst (getBestSavePath mac_host mac_fs_folder_blocked) = Inr (fallbackPath mac_host)"
    using saveImage_order [where h = mac_host and fs = mac_fs_folder_blocked, THEN conjunct2, THEN conjunct2, THEN conjunct2, THEN conjunct2, THEN conjunct2, THEN conjunct2, THEN conjunct2, THEN conjunct2, THEN conjunct2, THEN conjunct2, THEN conjunct2, THEN conjunct2, THEN conjunct2, THEN conjunct2, THEN conjunct2, THEN conjunct2, THEN conjunct2, THEN conjunct1]
      m(2) q(1,2,3,4,6)
    by blast
  then have r12a: "fst (getBestSavePath mac_host mac_fs_folder_blocked) = Inr ''/srv/app/output''"
    by (simp only: dp)
  have q2: "\<not> override_taken mac_host mac_fs_docs_blocked"
    "\<not> fst (isPathWriteable mac_fs_docs_blocked (path_dirname (desktopPath mac_host)))"
    "existsSync mac_fs_docs_blocked (path_dirname (docsPath mac_host))"
    "\<not> access_fails mac_fs_docs_blocked (path_dirname (docsPath mac_host))"
    "\<not> can_create mac_fs_docs_blocked (docsPath mac_host)"
    "can_create mac_fs_docs_blocked (fallbackPath mac_host)"
    by code_simp+
  have "fst (getBestSavePath mac_host mac_fs_docs_blocked) = Inr (fallbackPath mac_host)"
    using saveImage_order [where h = mac_host and fs = mac_fs_docs_blocked, THEN conjunct2, THEN conjunct2, THEN conjunct2, THEN conjunct2, THEN conjunct2, THEN conjunct2, THEN conjunct2, THEN conjunct2, THEN conjunct2, THEN conjunct2, THEN conjunct2, THEN conjunct2, THEN conjunct2, THEN conjunct2, THEN conjunct2, THEN conjunct2, THEN conjunct2, THEN conjunct1]
      m(2) q2
    by blast
  then have r12b: "fst (getBestSavePath mac_host mac_fs_docs_blocked) = Inr ''/srv/app/output''"
    by (simp only: dp)
  have r12c: "(\<exists>v. env_set mac_host ''OUTPUT_DIR'' = Some v \<and>
         ''/Users/alice/Desktop/mcp-3d-cartoons'' = outputDir mac_host v) \<or>
    ''/Users/alice/Desktop/mcp-3d-cartoons'' = desktopPath mac_host \<or>
    ''/Users/alice/Desktop/mcp-3d-cartoons'' = docsPath mac_host \<or>
    ''/Users/alice/Desktop/mcp-3d-cartoons'' = homePath mac_host \<or>
    ''/Users/alice/Desktop/mcp-3d-cartoons'' = fallbackPath mac_host"
    using saveImage_order
      [where h = mac_host and fs = mac_fs
         and p = "''/Users/alice/Desktop/mcp-3d-cartoons''", THEN conjunct2, THEN conjunct2, THEN conjunct2, THEN conjunct2, THEN conjunct2, THEN conjunct2, THEN conjunct2, THEN conjunct2, THEN conjunct2, THEN conjunct2, THEN conjunct2, THEN conjunct2, THEN conjunct2, THEN conjunct2, THEN conjunct2, THEN conjunct2, THEN conjunct2, THEN conjunct2, THEN conjunct1]
      r7
    by blast
  have z: "fst (getBestSavePath mac_host closed_fs) = Inl (MkdirFailed ''/srv/app/output'')"
    by code_simp
  have r13: "mkdir_fails closed_fs (fallbackPath mac_host)"
    using saveImage_order
      [where h = mac_host and fs = closed_fs and e = "MkdirFailed ''/srv/app/output''", THEN conjunct2, THEN conjunct2, THEN conjunct2, THEN conjunct2, THEN conjunct2, THEN conjunct2, THEN conjunct2, THEN conjunct2, THEN conjunct2, THEN conjunct2, THEN conjunct2, THEN conjunct2, THEN conjunct2, THEN conjunct2, THEN conjunct2, THEN conjunct2, THEN conjunct2, THEN conjunct2, THEN conjunct2, THEN conjunct1]
      z
    by blast
  show ?thesis
    using a r1 b c d r2 e r3 g(1,2,3,4) r4 u0(1) r4a u1(1,2) r4b u2 r4c u3(1,2) r4d o1 r5
      o2(1) r6 m r7 m2(2,3,4) r8 m3(2,3,4) r9 m4(4,5) r10 k(2) r11 k(5) r12 q(2,3,4,5) r12a
      q2(3,4,5) r12b r12c z r13
    by (intro conjI)
qed

text \<open>
  Claim C5 as stated fails for the function it cites: with no override configured and every
  directory writable, the specification's order picks the desktop folder, the first writable
  candidate, while \<^verbatim>\<open>saveImageWithProperPath\<close> saves under the working directory.
\<close>

theorem saveImage_order_counterexample:
  "env_set example_host ''OUTPUT_DIR'' = None \<and>
   spec_writable open_fs ''/home/alice/Desktop/generated-images'' \<and>
   spec_resolveOutputDirectory example_host open_fs = ''/home/alice/Desktop/generated-images'' \<and>
   fst (saveImageWithProperPath example_host open_fs ''PNG'' ''cat.png'') =
     Inr ''/srv/app/generated-images/cat.png''"
  by code_simp

text \<open>
  Claim C6: the image-save location logic does not fail as long as its last resort works.
  Whatever the state of the earlier place (missing, read-only), when the \<^verbatim>\<open>output\<close> folder
  under the working directory can be created and written, the call returns; what it returns
  is a file written into a directory that then exists, the first place or the last resort,
  and for a plain file name the directory of the returned path is that directory; an error
  that reaches the caller is the failure to create or to write in the last resort; and
  \<^verbatim>\<open>ensureDirectoryExists\<close> leaves the directory in place: when it was missing, the
  directory, its parent, the parent of that and so on up to the root exist afterwards, and
  nothing else is created. The last resort works when its directory is there or can be
  created and the file can be written.
\<close>

theorem saveImage_never_fails:
  "(fallback_succeeds h fs n \<longrightarrow> (\<exists>p. fst (saveImageWithProperPath h fs b n) = Inr p)) \<and>
   (fst (saveImageWithProperPath h fs b n) = Inr p \<longrightarrow>
      fs_content (snd (saveImageWithProperPath h fs b n)) p = Some b \<and>
      (p = path_normalize (path_join [primaryDir h fs, n]) \<and>
         existsSync (snd (saveImageWithProperPath h fs b n)) (primaryDir h fs) \<or>
       p = path_join [fallbackDir h, n] \<and>
         existsSync (snd (saveImageWithProperPath h fs b n)) (fallbackDir h))) \<and>
   (fst (saveImageWithProperPath h fs b n) = Inr p \<and> proper_name n \<and>
    is_resolved (primaryDir h fs) \<and> is_resolved (process_cwd h) \<longrightarrow>
      existsSync (snd (saveImageWithProperPath h fs b n)) (path_dirname p) \<and>
      (path_dirname p = primaryDir h fs \<or> path_dirname p = fallbackDir h)) \<and>
   (fst (saveImageWithProperPath h fs b n) = Inl e \<longrightarrow>
      e = MkdirFailed (fallbackDir h) \<and> mkdir_fails fs (fallbackDir h) \<or>
      e = WriteFailed (path_join [fallbackDir h, n]) \<and>
        write_fails fs (path_join [fallbackDir h, n])) \<and>
   (ensureDirectoryExists fs d = Inr fs1 \<longrightarrow>
      existsSync fs1 d \<and>
      (\<not> existsSync fs d \<longrightarrow> (\<forall>k\<le>length d. existsSync fs1 ((path_dirname ^^ k) d))) \<and>
      (\<forall>q. existsSync fs1 q \<longrightarrow>
         existsSync fs q \<or> (\<exists>k\<le>length d. q = (path_dirname ^^ k) d))) \<and>
   fallback_succeeds h fs n =
     ((existsSync fs (fallbackDir h) \<or> \<not> mkdir_fails fs (fallbackDir h)) \<and>
      \<not> write_fails fs (path_join [fallbackDir h, n])) \<and>
   primaryDir h fs =
     (if process_env h ''SAVE_TO_DESKTOP'' = Some ''true''
      then path_join [getDesktopPath h fs, ''generated-images'']
      else path_join [process_cwd h, ''generated-images'']) \<and>
   fallbackDir h = path_join [process_cwd h, ''output'']"
proof -
  let ?r = "saveImageWithProperPath h fs b n"
  have c1: "fallback_succeeds h fs n \<longrightarrow> (\<exists>p. fst ?r = Inr p)"
  proof
    assume f: "fallback_succeeds h fs n"
    show "\<exists>p. fst ?r = Inr p"
    proof (cases "primary_succeeds h fs n")
      case True
      then show ?thesis using save_try_ok(1) by (simp add: save_cases)
    next
      case False
      then show ?thesis using fallback_after_try(1) [OF f] by (simp add: save_cases)
    qed
  qed
  have c2: "fst ?r = Inr p \<longrightarrow>
      fs_content (snd ?r) p = Some b \<and>
      (p = path_normalize (path_join [primaryDir h fs, n]) \<and> existsSync (snd ?r) (primaryDir h fs) \<or>
       p = path_join [fallbackDir h, n] \<and> existsSync (snd ?r) (fallbackDir h))"
  proof
    assume r: "fst ?r = Inr p"
    show "fs_content (snd ?r) p = Some b \<and>
      (p = path_normalize (path_join [primaryDir h fs, n]) \<and> existsSync (snd ?r) (primaryDir h fs) \<or>
       p = path_join [fallbackDir h, n] \<and> existsSync (snd ?r) (fallbackDir h))"
    proof (cases "primary_succeeds h fs n")
      case True
      then show ?thesis using r save_try_ok [OF True, of b] by (simp add: save_cases)
    next
      case False
      then show ?thesis
        using r fallback_outcome [of h "snd (save_try h fs b n)" b n] by (auto simp: save_cases)
    qed
  qed
  have c3: "fst ?r = Inr p \<and> proper_name n \<and>
    is_resolved (primaryDir h fs) \<and> is_resolved (process_cwd h) \<longrightarrow>
      existsSync (snd ?r) (path_dirname p) \<and>
      (path_dirname p = primaryDir h fs \<or> path_dirname p = fallbackDir h)"
  proof
    assume a: "fst ?r = Inr p \<and> proper_name n \<and>
      is_resolved (primaryDir h fs) \<and> is_resolved (process_cwd h)"
    have o: "proper_name ''output''" by (simp add: proper_name_def)
    have fr: "is_resolved (fallbackDir h)"
      using a path_join_child(2) [OF _ o, of "process_cwd h"] by (simp add: fallbackDir_def)
    have d1: "path_dirname (path_normalize (path_join [primaryDir h fs, n])) = primaryDir h fs"
      using a path_join_child(2) [of "primaryDir h fs" n] path_dirname_child [of "primaryDir h fs" n]
        normalizePath_resolved [of "path_join [primaryDir h fs, n]"]
      by (simp add: normalizePath_def)
    have d2: "path_dirname (path_join [fallbackDir h, n]) = fallbackDir h"
      using a fr path_dirname_child by blast
    from c2 a consider
        "p = path_normalize (path_join [primaryDir h fs, n])" "existsSync (snd ?r) (primaryDir h fs)"
      | "p = path_join [fallbackDir h, n]" "existsSync (snd ?r) (fallbackDir h)"
      by blast
    then show "existsSync (snd ?r) (path_dirname p) \<and>
      (path_dirname p = primaryDir h fs \<or> path_dirname p = fallbackDir h)"
    proof cases
      case 1
      then show ?thesis using d1 by simp
    next
      case 2
      then show ?thesis using d2 by simp
    qed
  qed
  have c4: "fst ?r = Inl e \<longrightarrow>
      e = MkdirFailed (fallbackDir h) \<and> mkdir_fails fs (fallbackDir h) \<or>
      e = WriteFailed (path_join [fallbackDir h, n]) \<and>
        write_fails fs (path_join [fallbackDir h, n])"
  proof
    assume r: "fst ?r = Inl e"
    show "e = MkdirFailed (fallbackDir h) \<and> mkdir_fails fs (fallbackDir h) \<or>
      e = WriteFailed (path_join [fallbackDir h, n]) \<and>
        write_fails fs (path_join [fallbackDir h, n])"
    proof (cases "primary_succeeds h fs n")
      case True
      then show ?thesis using r save_try_ok(1) [OF True, of b] by (simp add: save_cases)
    next
      case False
      then show ?thesis
        using r fallback_outcome [of h "snd (save_try h fs b n)" b n] save_try_frame(1,2) [of h fs b n]
        by (auto simp: save_cases)
    qed
  qed
  have c5: "ensureDirectoryExists fs d = Inr fs1 \<longrightarrow>
      existsSync fs1 d \<and>
      (\<not> existsSync fs d \<longrightarrow> (\<forall>k\<le>length d. existsSync fs1 ((path_dirname ^^ k) d))) \<and>
      (\<forall>q. existsSync fs1 q \<longrightarrow>
         existsSync fs q \<or> (\<exists>k\<le>length d. q = (path_dirname ^^ k) d))"
    using ensure_ok(1) [of fs d fs1] ensure_ancestors [of fs d fs1] by blast
  show ?thesis
    using c1 c2 c3 c4 c5 fallback_succeeds_def [of h fs n] primaryDir_def [of h fs]
      fallbackDir_def [of h]
    by (intro conjI)
qed

theorem saveImage_never_fails_witness:
  "fallback_succeeds desktop_host readonly_home_fs ''cat.png'' \<and>
   (\<exists>p. fst (saveImageWithProperPath desktop_host readonly_home_fs ''PNG'' ''cat.png'') = Inr p) \<and>
   fst (saveImageWithProperPath desktop_host readonly_home_fs ''PNG'' ''cat.png'') =
     Inr ''/srv/app/output/cat.png'' \<and>
   fs_content (snd (saveImageWithProperPath desktop_host readonly_home_fs ''PNG'' ''cat.png''))
     ''/srv/app/output/cat.png'' = Some ''PNG'' \<and>
   proper_name ''cat.png'' \<and>
   is_resolved (primaryDir desktop_host readonly_home_fs) \<and>
   is_resolved (process_cwd desktop_host) \<and>
   path_dirname ''/srv/app/output/cat.png'' = ''/srv/app/output'' \<and>
   existsSync (snd (saveImageWithProperPath desktop_host readonly_home_fs ''PNG'' ''cat.png''))
     ''/srv/app/output'' \<and>
   fst (saveImageWithProperPath desktop_host closed_fs ''PNG'' ''cat.png'') =
     Inl (MkdirFailed ''/srv/app/output'') \<and>
   mkdir_fails closed_fs (fallbackDir desktop_host) \<and>
   \<not> existsSync bare_fs ''/srv/app/output'' \<and>
   \<not> existsSync bare_fs ''/srv/app'' \<and>
   \<not> existsSync bare_fs ''/srv'' \<and>
   (\<exists>fs1. ensureDirectoryExists bare_fs ''/srv/app/output'' = Inr fs1 \<and>
      existsSync fs1 ''/srv/app/output'' \<and> existsSync fs1 ''/srv/app'' \<and>
      existsSync fs1 ''/srv'' \<and> \<not> existsSync fs1 ''/home'')"
proof -
  let ?r = "saveImageWithProperPath desktop_host readonly_home_fs ''PNG'' ''cat.png''"
  have a: "fallback_succeeds desktop_host readonly_home_fs ''cat.png''" by code_simp
  have b: "fst ?r = Inr ''/srv/app/output/cat.png''" by code_simp
  have c: "fst (saveImageWithProperPath desktop_host closed_fs ''PNG'' ''cat.png'') =
     Inl (MkdirFailed ''/srv/app/output'')" by code_simp
  have wf: "\<not> (MkdirFailed ''/srv/app/output'' =
       WriteFailed (path_join [fallbackDir desktop_host, ''cat.png'']))" by simp
  have pn: "proper_name ''cat.png''" by code_simp
  have r1: "is_resolved (primaryDir desktop_host readonly_home_fs)" by code_simp
  have r2: "is_resolved (process_cwd desktop_host)" by code_simp
  have dn: "path_dirname ''/srv/app/output/cat.png'' = ''/srv/app/output''" by code_simp
  note t = saveImage_never_fails
    [where h = desktop_host and fs = readonly_home_fs and n = "''cat.png''" and b = "''PNG''"
       and p = "''/srv/app/output/cat.png''"]
  have t1: "\<exists>p. fst ?r = Inr p" using t a by blast
  have t2: "fs_content (snd ?r) ''/srv/app/output/cat.png'' = Some ''PNG''" using t b by blast
  have "existsSync (snd ?r) (path_dirname ''/srv/app/output/cat.png'')"
    using t b pn r1 r2 by blast
  then have t3: "existsSync (snd ?r) ''/srv/app/output''" by (simp only: dn)
  have t4: "mkdir_fails closed_fs (fallbackDir desktop_host)"
    using saveImage_never_fails
      [where h = desktop_host and fs = closed_fs and n = "''cat.png''" and b = "''PNG''"
         and e = "MkdirFailed ''/srv/app/output''"] c wf
    by blast
  have n1: "\<not> existsSync bare_fs ''/srv/app/output''" by code_simp
  have n2: "\<not> existsSync bare_fs ''/srv/app''" by code_simp
  have n3: "\<not> existsSync bare_fs ''/srv''" by code_simp
  have n4: "\<not> existsSync bare_fs ''/home''" by code_simp
  have m1: "\<not> mkdir_fails bare_fs ''/srv/app/output''" by code_simp
  have "\<exists>fs1. ensureDirectoryExists bare_fs ''/srv/app/output'' = Inr fs1"
    using m1 ensure_can_create [of bare_fs "''/srv/app/output''"] by blast
  then obtain fs1 where e: "ensureDirectoryExists bare_fs ''/srv/app/output'' = Inr fs1" by blast
  note u = saveImage_never_fails [where fs = bare_fs and d = "''/srv/app/output''" and ?fs1.0 = fs1]
  have p1: "path_dirname ''/srv/app/output'' = ''/srv/app''" by code_simp
  have p2: "path_dirname ''/srv/app'' = ''/srv''" by code_simp
  have p3: "path_dirname ''/srv'' = ''/''" by code_simp
  have p4: "path_dirname ''/'' = ''/''" by code_simp
  have up: "\<forall>k\<le>length ''/srv/app/output''. existsSync fs1 ((path_dirname ^^ k) ''/srv/app/output'')"
    using u e n1 by blast
  have e0: "existsSync fs1 ''/srv/app/output''" using u e by blast
  have l: "Suc 0 \<le> length ''/srv/app/output''" "Suc (Suc 0) \<le> length ''/srv/app/output''"
    by simp_all
  have "existsSync fs1 ((path_dirname ^^ Suc 0) ''/srv/app/output'')" using up l(1) by blast
  then have e1: "existsSync fs1 ''/srv/app''" by (simp add: p1)
  have "existsSync fs1 ((path_dirname ^^ Suc (Suc 0)) ''/srv/app/output'')" using up l(2) by blast
  then have e2: "existsSync fs1 ''/srv''" by (simp add: p1 p2)
  have it: "(path_dirname ^^ k) ''/srv/app/output'' \<in>
      {''/srv/app/output'', ''/srv/app'', ''/srv'', ''/''}" for k
  proof (induction k)
    case 0
    then show ?case by simp
  next
    case (Suc k)
    then show ?case using p1 p2 p3 p4 by auto
  qed
  have e3: "\<not> existsSync fs1 ''/home''"
  proof
    assume "existsSync fs1 ''/home''"
    then have "existsSync bare_fs ''/home'' \<or>
        (\<exists>k\<le>length ''/srv/app/output''. ''/home'' = (path_dirname ^^ k) ''/srv/app/output'')"
      using u e by blast
    then obtain k where "(path_dirname ^^ k) ''/srv/app/output'' = ''/home''" using n4 by metis
    then show False using it [of k] by simp
  qed
  have ex: "\<exists>fs1. ensureDirectoryExists bare_fs ''/srv/app/output'' = Inr fs1 \<and>
      existsSync fs1 ''/srv/app/output'' \<and> existsSync fs1 ''/srv/app'' \<and>
      existsSync fs1 ''/srv'' \<and> \<not> existsSync fs1 ''/home''"
    using e e0 e1 e2 e3 by blast
  show ?thesis using a t1 b t2 pn r1 r2 dn t3 c t4 n1 n2 n3 ex by blast
qed

end
